(* ===== verification/Go_Prelude.thy ===== *)
theory Go_Prelude
  imports Main "HOL-Library.Word" "HOL-Library.Sublist" "HOL-Library.State_Monad"
begin

text \<open>
  The Go language and standard library as far as the program uses them, and the lemmas
  and collections every component theory shares.

  Strings are byte strings (a \<open>char\<close> is one byte), as Go's are.  A \<open>range\<close> loop over a
  string and \<open>strings.TrimSpace\<close> work on runes, so the UTF-8 decoder of package
  \<open>unicode/utf8\<close> is written out (\<open>utf8_chunks\<close>): it cuts a string into runes, an invalid
  byte being a rune of its own.  Case folding is that of the ASCII letters plus the two
  foreign runes that fold onto one (KELVIN SIGN and DOTTED CAPITAL I); every comparison of
  the program is against an ASCII literal, for which this is the exact result.

  Times are nanoseconds since the Unix epoch and durations are nanoseconds; the zero
  \<open>time.Time\<close> is the first instant of year 1, and subtraction saturates at the width of
  \<open>time.Duration\<close> as \<open>Time.Sub\<close> does.
\<close>

section \<open>Collections\<close>

named_theorems go_simps \<open>definitions a closed evaluation may unfold\<close>
named_theorems grows_intros \<open>introduction rules for the growth of a log\<close>

section \<open>Lists and options\<close>

text \<open>\<open>strings.IndexByte\<close>, again with \<open>None\<close> for -1.\<close>

fun index_byte :: "'a \<Rightarrow> 'a list \<Rightarrow> nat option" where
  "index_byte c [] = None"
| "index_byte c (x # xs) = (if x = c then Some 0 else map_option Suc (index_byte c xs))"

lemma index_byte_None [simp]: "index_byte c xs = None \<longleftrightarrow> c \<notin> set xs"
  by (induction xs) auto

lemma index_byte_take: "index_byte c xs = Some i \<Longrightarrow> c \<notin> set (take i xs)"
  by (induction xs arbitrary: i) (auto split: if_splits)

text \<open>\<open>strings.LastIndex\<close> of a one-byte needle.\<close>

definition last_index :: "'a \<Rightarrow> 'a list \<Rightarrow> nat option" where
  "last_index c xs = map_option (\<lambda>j. length xs - Suc j) (index_byte c (rev xs))"

lemma index_byte_append: "c \<notin> set xs \<Longrightarrow> index_byte c (xs @ c # ys) = Some (length xs)"
  by (induction xs) auto

lemma last_index_None [simp]: "last_index c xs = None \<longleftrightarrow> c \<notin> set xs"
  by (simp add: last_index_def)

lemma last_index_append [simp]:
  "c \<notin> set ys \<Longrightarrow> last_index c (xs @ c # ys) = Some (length xs)"
  by (simp add: last_index_def index_byte_append)

text \<open>\<open>slices.Contains\<close> and the append-if-absent loop that several callers write out.\<close>

definition add_absent :: "'a \<Rightarrow> 'a list \<Rightarrow> 'a list" where
  "add_absent x xs = (if x \<in> set xs then xs else xs @ [x])"

lemma distinct_add_absent [simp]: "distinct (add_absent x xs) \<longleftrightarrow> distinct xs"
  by (auto simp: add_absent_def)

lemma set_add_absent [simp]: "set (add_absent x xs) = insert x (set xs)"
  by (auto simp: add_absent_def)

text \<open>
  A Go \<open>map\<close> whose size matters is an association list without repeated keys, so that
  \<open>len\<close> is \<open>length\<close>; the order of its entries stands for the iteration order, which Go
  leaves open.
\<close>

fun al_put :: "'k \<Rightarrow> 'v \<Rightarrow> ('k \<times> 'v) list \<Rightarrow> ('k \<times> 'v) list" where
  "al_put k v [] = [(k, v)]"
| "al_put k v (p # ps) = (if fst p = k then (k, v) # ps else p # al_put k v ps)"

definition al_del :: "'k \<Rightarrow> ('k \<times> 'v) list \<Rightarrow> ('k \<times> 'v) list" where
  "al_del k ps = [p \<leftarrow> ps. fst p \<noteq> k]"

declare map_of_eq_Some_iff [simp del]

lemma map_of_al_put [simp]: "map_of (al_put k v ps) = (map_of ps)(k \<mapsto> v)"
  by (induction ps) (auto simp: fun_upd_twist)

lemma keys_al_put [simp]: "fst ` set (al_put k v ps) = insert k (fst ` set ps)"
  by (induction ps) auto

lemma distinct_al_put [simp]: "distinct (map fst ps) \<Longrightarrow> distinct (map fst (al_put k v ps))"
proof (induction ps)
  case (Cons p ps)
  moreover have "fst ` set (al_put k v ps) = insert k (fst ` set ps)" by simp
  ultimately show ?case by auto
qed simp

lemma length_al_put:
  "length (al_put k v ps) = (if k \<in> fst ` set ps then length ps else Suc (length ps))"
  by (induction ps) auto

lemma map_of_al_del [simp]: "map_of (al_del k ps) = (map_of ps)(k := None)"
  by (induction ps) (auto simp: al_del_def)

lemma keys_al_del [simp]: "fst ` set (al_del k ps) = fst ` set ps - {k}"
  by (auto simp: al_del_def)

lemma distinct_al_del [simp]: "distinct (map fst ps) \<Longrightarrow> distinct (map fst (al_del k ps))"
  by (simp add: al_del_def distinct_map_filter)

lemma in_al_del [simp]: "p \<in> set (al_del k ps) \<longleftrightarrow> p \<in> set ps \<and> fst p \<noteq> k"
  by (auto simp: al_del_def)

lemma length_al_del_le: "length (al_del k ps) \<le> length ps"
  by (simp add: al_del_def)

section \<open>Strings\<close>

definition byte :: "char \<Rightarrow> nat" where
  "byte c = of_char c"

definition chr :: "nat \<Rightarrow> char" where
  "chr n = char_of n"

lemma byte_less [simp]: "byte c < 256"
  by (simp add: byte_def)

lemma byte_chr [simp]: "n < 256 \<Longrightarrow> byte (chr n) = n"
  by (simp add: byte_def chr_def)

lemma chr_byte [simp]: "chr (byte c) = c"
  by (simp add: chr_def byte_def)

lemma byte_inject [simp]: "byte c = byte d \<longleftrightarrow> c = d"
  by (simp add: byte_def)

text \<open>\<open>strings.HasPrefix\<close>, \<open>HasSuffix\<close>, \<open>TrimPrefix\<close> and \<open>TrimSuffix\<close>.\<close>

fun has_prefix :: "string \<Rightarrow> string \<Rightarrow> bool" where
  "has_prefix s [] = True"
| "has_prefix [] (p # ps) = False"
| "has_prefix (c # s) (p # ps) = (c = p \<and> has_prefix s ps)"

definition has_suffix :: "string \<Rightarrow> string \<Rightarrow> bool" where
  "has_suffix s p = has_prefix (rev s) (rev p)"

definition trim_prefix :: "string \<Rightarrow> string \<Rightarrow> string" where
  "trim_prefix s p = (if has_prefix s p then drop (length p) s else s)"

definition trim_suffix :: "string \<Rightarrow> string \<Rightarrow> string" where
  "trim_suffix s p = (if has_suffix s p then take (length s - length p) s else s)"

lemma has_prefix_iff: "has_prefix s p \<longleftrightarrow> (\<exists>t. s = p @ t)"
  by (induction s p rule: has_prefix.induct) auto

lemma has_prefix_append [simp]: "has_prefix (p @ t) p"
  by (auto simp: has_prefix_iff)

lemma has_suffix_iff: "has_suffix s p \<longleftrightarrow> (\<exists>t. s = t @ p)"
proof -
  have "has_suffix s p \<longleftrightarrow> (\<exists>t. rev s = rev p @ t)"
    by (simp add: has_suffix_def has_prefix_iff)
  also have "\<dots> \<longleftrightarrow> (\<exists>t. s = rev t @ p)"
    by (metis rev_append rev_rev_ident)
  also have "\<dots> \<longleftrightarrow> (\<exists>t. s = t @ p)"
    by (metis rev_rev_ident)
  finally show ?thesis .
qed

lemma trim_prefix_append [simp]: "trim_prefix (p @ t) p = t"
  by (simp add: trim_prefix_def)

text \<open>\<open>strings.Contains\<close>.\<close>

fun contains :: "string \<Rightarrow> string \<Rightarrow> bool" where
  "contains [] p = (p = [])"
| "contains (c # s) p = (has_prefix (c # s) p \<or> contains s p)"

lemma contains_iff: "contains s p \<longleftrightarrow> (\<exists>u v. s = u @ p @ v)"
proof (induction s)
  case (Cons c s)
  have "(\<exists>u v. c # s = u @ p @ v) \<longleftrightarrow> (\<exists>v. c # s = p @ v) \<or> (\<exists>u v. s = u @ p @ v)"
    by (metis (no_types, opaque_lifting) append_Cons append_Nil list.exhaust list.inject)
  then show ?case by (simp add: Cons has_prefix_iff)
qed simp

text \<open>\<open>strings.Cut\<close> at a one-byte separator: before, after, found.\<close>

fun cut :: "char \<Rightarrow> string \<Rightarrow> string \<times> string \<times> bool" where
  "cut c [] = ([], [], False)"
| "cut c (x # xs) =
     (if x = c then ([], xs, True)
      else (case cut c xs of (b, a, ok) \<Rightarrow> (x # b, a, ok)))"

lemma cut_append [simp]: "c \<notin> set b \<Longrightarrow> cut c (b @ c # a) = (b, a, True)"
  by (induction b) auto

lemma cut_absent [simp]: "c \<notin> set s \<Longrightarrow> cut c s = (s, [], False)"
  by (induction s) auto

text \<open>\<open>strings.Split\<close> at a one-byte separator and \<open>strings.Join\<close>.\<close>

fun split_on :: "char \<Rightarrow> string \<Rightarrow> string list" where
  "split_on c [] = [[]]"
| "split_on c (x # xs) =
     (if x = c then [] # split_on c xs
      else (case split_on c xs of [] \<Rightarrow> [[x]] | w # ws \<Rightarrow> (x # w) # ws))"

fun join :: "string \<Rightarrow> string list \<Rightarrow> string" where
  "join sep [] = []"
| "join sep [w] = w"
| "join sep (w # v # ws) = w @ sep @ join sep (v # ws)"

lemma split_on_nonempty [simp]: "split_on c s \<noteq> []"
  by (induction s) (auto split: list.splits)

lemma split_on_absent [simp]: "c \<notin> set w \<Longrightarrow> split_on c w = [w]"
  by (induction w) auto

lemma split_on_append [simp]: "c \<notin> set w \<Longrightarrow> split_on c (w @ c # s) = w # split_on c s"
  by (induction w) auto

lemma split_on_parts: "w \<in> set (split_on c s) \<Longrightarrow> c \<notin> set w"
proof (induction s arbitrary: w)
  case (Cons x xs)
  then show ?case by (cases "split_on c xs") (auto split: if_splits)
qed simp

lemma split_on_join:
  "ws \<noteq> [] \<Longrightarrow> \<forall>w \<in> set ws. c \<notin> set w \<Longrightarrow> split_on c (join [c] ws) = ws"
  by (induction "[c]" ws rule: join.induct) auto

lemma join_split_on [simp]: "join [c] (split_on c s) = s"
proof (induction s)
  case (Cons x xs)
  then show ?case
  proof (cases "split_on c xs")
    case (Cons w ws)
    then show ?thesis using Cons.IH by (cases ws) auto
  qed auto
qed simp

text \<open>\<open>strings.TrimRight\<close> with a cutset and the left counterpart.\<close>

definition trim_right :: "char set \<Rightarrow> string \<Rightarrow> string" where
  "trim_right cs s = rev (dropWhile (\<lambda>c. c \<in> cs) (rev s))"

definition trim_left :: "char set \<Rightarrow> string \<Rightarrow> string" where
  "trim_left cs s = dropWhile (\<lambda>c. c \<in> cs) s"

section \<open>UTF-8\<close>

text \<open>
  The length of the first rune of a non-empty string, as \<open>utf8.DecodeRuneInString\<close> finds
  it: 1 for ASCII and for every byte that does not start a valid sequence.
\<close>

definition cont :: "nat \<Rightarrow> bool" where
  "cont b \<longleftrightarrow> 128 \<le> b \<and> b < 192"

fun rune_len :: "nat list \<Rightarrow> nat" where
  "rune_len [] = 0"
| "rune_len (a # bs) =
     (if a < 128 then 1
      else if 194 \<le> a \<and> a < 224 then
        (case bs of b # _ \<Rightarrow> if cont b then 2 else 1 | _ \<Rightarrow> 1)
      else if 224 \<le> a \<and> a < 240 then
        (case bs of b # c # _ \<Rightarrow>
           if cont b \<and> cont c \<and> (a = 224 \<longrightarrow> 160 \<le> b) \<and> (a = 237 \<longrightarrow> b < 160) then 3 else 1
         | _ \<Rightarrow> 1)
      else if 240 \<le> a \<and> a < 245 then
        (case bs of b # c # d # _ \<Rightarrow>
           if cont b \<and> cont c \<and> cont d \<and> (a = 240 \<longrightarrow> 144 \<le> b) \<and> (a = 244 \<longrightarrow> b < 144)
           then 4 else 1
         | _ \<Rightarrow> 1)
      else 1)"

text \<open>The code point of a chunk of that length; 65533 is \<open>utf8.RuneError\<close>.\<close>

fun rune_value :: "nat list \<Rightarrow> nat" where
  "rune_value [a] = (if a < 128 then a else 65533)"
| "rune_value [a, b] = (a mod 32) * 64 + b mod 64"
| "rune_value [a, b, c] = (a mod 16) * 4096 + (b mod 64) * 64 + c mod 64"
| "rune_value [a, b, c, d] =
     (a mod 8) * 262144 + (b mod 64) * 4096 + (c mod 64) * 64 + d mod 64"
| "rune_value _ = 65533"

lemma rune_len_pos: "0 < rune_len (a # bs)"
  by (auto split: list.splits)

definition first_len :: "string \<Rightarrow> nat" where
  "first_len s = rune_len (map byte (take 4 s))"

lemma first_len_pos: "0 < first_len (c # s)"
  using rune_len_pos [of "byte c"] by (simp add: first_len_def del: rune_len.simps)

function utf8_chunks :: "string \<Rightarrow> (nat \<times> string) list" where
  "utf8_chunks [] = []"
| "utf8_chunks (c # s) =
     (rune_value (map byte (take (first_len (c # s)) (c # s))), take (first_len (c # s)) (c # s))
     # utf8_chunks (drop (first_len (c # s) - 1) s)"
  by pat_completeness auto
termination
  by (relation "measure length") auto

text \<open>The three bytes Go writes for an invalid one, U+FFFD.\<close>

definition ufffd :: string where
  "ufffd = [chr 239, chr 191, chr 189]"

lemma concat_utf8_chunks: "concat (map snd (utf8_chunks s)) = s"
proof (induction s rule: utf8_chunks.induct)
  case (2 c s)
  from first_len_pos [of c s]
  have "take (first_len (c # s)) (c # s) @ drop (first_len (c # s) - 1) s = c # s"
    by (cases "first_len (c # s)") auto
  with 2 show ?case by simp
qed simp

text \<open>On ASCII text every byte is a rune.\<close>

lemma first_len_ascii: "byte c < 128 \<Longrightarrow> first_len (c # s) = 1"
  by (simp add: first_len_def)

lemma utf8_chunks_ascii: "byte c < 128 \<Longrightarrow> utf8_chunks (c # s) = (byte c, [c]) # utf8_chunks s"
  by (simp add: first_len_ascii)

declare utf8_chunks.simps(2) [simp del]

text \<open>\<open>unicode.IsSpace\<close>.\<close>

definition is_space :: "nat \<Rightarrow> bool" where
  "is_space r \<longleftrightarrow> (9 \<le> r \<and> r \<le> 13) \<or> r = 32 \<or> r = 133 \<or> r = 160 \<or> r = 5760
     \<or> (8192 \<le> r \<and> r \<le> 8202) \<or> r = 8232 \<or> r = 8233 \<or> r = 8239 \<or> r = 8287 \<or> r = 12288"

definition trim_space :: "string \<Rightarrow> string" where
  "trim_space s =
     (let space = (\<lambda>p. is_space (fst p));
          left = dropWhile space (utf8_chunks s)
      in concat (map snd (rev (dropWhile space (rev left)))))"

text \<open>\<open>strings.ToLower\<close> on one rune.\<close>

definition lower_chunk :: "nat \<times> string \<Rightarrow> string" where
  "lower_chunk p =
     (let r = fst p in
      if 65 \<le> r \<and> r \<le> 90 then [chr (r + 32)]
      else if r = 8490 then [chr 107]
      else if r = 304 then [chr 105]
      else if r = 65533 then ufffd
      else snd p)"

definition to_lower :: "string \<Rightarrow> string" where
  "to_lower s = concat (map lower_chunk (utf8_chunks s))"

text \<open>
  \<open>strings.EqualFold\<close>: simple folding joins the ASCII cases, KELVIN SIGN with k and LONG S
  with s.
\<close>

definition fold_chunk :: "nat \<times> string \<Rightarrow> string" where
  "fold_chunk p =
     (let r = fst p in
      if 65 \<le> r \<and> r \<le> 90 then [chr (r + 32)]
      else if r = 8490 then [chr 107]
      else if r = 383 then [chr 115]
      else if r = 65533 then ufffd
      else snd p)"

definition equal_fold :: "string \<Rightarrow> string \<Rightarrow> bool" where
  "equal_fold s t = (concat (map fold_chunk (utf8_chunks s)) = concat (map fold_chunk (utf8_chunks t)))"

lemma equal_fold_refl [simp]: "equal_fold s s"
  by (simp add: equal_fold_def)

lemma equal_fold_sym: "equal_fold s t \<Longrightarrow> equal_fold t s"
  by (simp add: equal_fold_def)

section \<open>Characters the regular expressions name\<close>

definition is_lower :: "char \<Rightarrow> bool" where
  "is_lower c \<longleftrightarrow> 97 \<le> byte c \<and> byte c \<le> 122"

definition is_upper :: "char \<Rightarrow> bool" where
  "is_upper c \<longleftrightarrow> 65 \<le> byte c \<and> byte c \<le> 90"

definition is_digit :: "char \<Rightarrow> bool" where
  "is_digit c \<longleftrightarrow> 48 \<le> byte c \<and> byte c \<le> 57"

definition is_alnum :: "char \<Rightarrow> bool" where
  "is_alnum c \<longleftrightarrow> is_lower c \<or> is_upper c \<or> is_digit c"

lemmas char_class_defs = is_lower_def is_upper_def is_digit_def is_alnum_def byte_def

text \<open>An anchored expression \<open>^[first][rest]{0,n}$\<close>.\<close>

definition matches_word :: "(char \<Rightarrow> bool) \<Rightarrow> (char \<Rightarrow> bool) \<Rightarrow> nat \<Rightarrow> string \<Rightarrow> bool" where
  "matches_word first rest n s =
     (case s of [] \<Rightarrow> False | c # cs \<Rightarrow> first c \<and> list_all rest cs \<and> length cs \<le> n)"

lemma matches_word_length: "matches_word f r n s \<Longrightarrow> s \<noteq> [] \<and> length s \<le> Suc n"
  by (auto simp: matches_word_def split: list.splits)

lemma matches_word_set:
  "matches_word f r n s \<Longrightarrow> c \<in> set s \<Longrightarrow> f c \<or> r c"
  by (auto simp: matches_word_def list_all_iff split: list.splits)

section \<open>Numbers\<close>

text \<open>The value Go computes for an \<open>int64\<close> expression whose exact value is \<open>n\<close>.\<close>

definition wrap64 :: "int \<Rightarrow> int" where
  "wrap64 n = sint (of_int n :: 64 word)"

lemma wrap64_range: "- (2 ^ 63) \<le> wrap64 n \<and> wrap64 n < 2 ^ 63"
  using sint_range_size [of "of_int n :: 64 word"] by (simp add: wrap64_def word_size)

definition max_int64 :: int where "max_int64 = 9223372036854775807"

fun digits_value :: "int \<Rightarrow> string \<Rightarrow> int option" where
  "digits_value acc [] = Some acc"
| "digits_value acc (c # cs) =
     (if is_digit c then digits_value (acc * 10 + int (byte c) - 48) cs else None)"

text \<open>\<open>strconv.Atoi\<close> on a 64-bit platform; \<open>None\<close> is an error (syntax or range).\<close>

definition atoi :: "string \<Rightarrow> int option" where
  "atoi s =
     (let (neg, ds) = (case s of
            [] \<Rightarrow> (False, [])
          | c # cs \<Rightarrow> if c = CHR ''-'' then (True, cs)
                      else if c = CHR ''+'' then (False, cs) else (False, s))
      in if ds = [] then None
         else (case digits_value 0 ds of
                 None \<Rightarrow> None
               | Some n \<Rightarrow>
                   let v = (if neg then - n else n)
                   in if - max_int64 - 1 \<le> v \<and> v \<le> max_int64 then Some v else None))"

text \<open>\<open>strconv.Itoa\<close> and the verb \<open>%d\<close>.\<close>

fun nat_digits :: "nat \<Rightarrow> string" where
  "nat_digits n = (if n < 10 then [chr (48 + n)] else nat_digits (n div 10) @ [chr (48 + n mod 10)])"

declare nat_digits.simps [simp del]

definition itoa :: "int \<Rightarrow> string" where
  "itoa n = (if n < 0 then CHR ''-'' # nat_digits (nat (- n)) else nat_digits (nat n))"

section \<open>Time\<close>

type_synonym time = int
type_synonym duration = int

definition second :: duration where "second = 1000000000"
definition minute :: duration where "minute = 60 * second"
definition hour :: duration where "hour = 60 * minute"
definition millisecond :: duration where "millisecond = 1000000"

definition zero_time :: time where "zero_time = - 62135596800 * 1000000000"

text \<open>\<open>Time.Sub\<close>, which saturates.\<close>

definition time_sub :: "time \<Rightarrow> time \<Rightarrow> duration" where
  "time_sub a b = max (- max_int64 - 1) (min max_int64 (a - b))"

text \<open>\<open>Duration.Milliseconds\<close> (Go's division truncates towards zero).\<close>

definition milliseconds :: "duration \<Rightarrow> int" where
  "milliseconds d = (if 0 \<le> d then d div millisecond else - ((- d) div millisecond))"

lemma time_sub_self [simp]: "time_sub a a = 0"
  by (simp add: time_sub_def max_int64_def)

lemma time_sub_ge: "d \<le> time_sub a b \<Longrightarrow> - max_int64 \<le> d \<Longrightarrow> b + d \<le> a"
  by (auto simp: time_sub_def max_int64_def split: if_splits)

text \<open>\<open>Duration.String\<close>; \<open>frac_digits\<close> is its \<open>fmtFrac\<close>.\<close>

definition frac_digits :: "nat \<Rightarrow> nat \<Rightarrow> string" where
  "frac_digits prec v =
     (let ds = trim_right {CHR ''0''}
                 (replicate (prec - length (nat_digits v)) (CHR ''0'') @ nat_digits v)
      in if ds = [] then [] else CHR ''.'' # ds)"

definition nanos_string :: "nat \<Rightarrow> string" where
  "nanos_string u =
     (if u = 0 then ''0s''
      else if u < 1000 then nat_digits u @ ''ns''
      else if u < 1000000 then
        nat_digits (u div 1000) @ frac_digits 3 (u mod 1000) @ [chr 194, chr 181, CHR ''s'']
      else if u < 1000000000 then
        nat_digits (u div 1000000) @ frac_digits 6 (u mod 1000000) @ ''ms''
      else
        (let secs = u div 1000000000; frac = frac_digits 9 (u mod 1000000000)
         in (if 3600 \<le> secs then nat_digits (secs div 3600) @ ''h'' else [])
            @ (if 60 \<le> secs then nat_digits (secs div 60 mod 60) @ ''m'' else [])
            @ nat_digits (secs mod 60) @ frac @ ''s''))"

definition duration_string :: "duration \<Rightarrow> string" where
  "duration_string d = (if d < 0 then CHR ''-'' # nanos_string (nat (- d)) else nanos_string (nat d))"

section \<open>Quoting\<close>

text \<open>
  The verb \<open>%q\<close> (\<open>strconv.Quote\<close>).  Every ASCII byte and every invalid byte is treated as the
  library does; a valid rune above ASCII is copied, which is what \<open>Quote\<close> does with the
  printable ones.
\<close>

definition hex_digit :: "nat \<Rightarrow> char" where
  "hex_digit n = (if n < 10 then chr (48 + n) else chr (87 + n))"

definition hex2 :: "nat \<Rightarrow> string" where
  "hex2 n = [hex_digit (n div 16 mod 16), hex_digit (n mod 16)]"

definition quote_chunk :: "nat \<times> string \<Rightarrow> string" where
  "quote_chunk p =
     (case p of (r, bs) \<Rightarrow>
        if bs = [chr 34] then [chr 92, chr 34]
        else if bs = [chr 92] then [chr 92, chr 92]
        else if r = 7 then [chr 92, CHR ''a'']
        else if r = 8 then [chr 92, CHR ''b'']
        else if r = 12 then [chr 92, CHR ''f'']
        else if r = 10 then [chr 92, CHR ''n'']
        else if r = 13 then [chr 92, CHR ''r'']
        else if r = 9 then [chr 92, CHR ''t'']
        else if r = 11 then [chr 92, CHR ''v'']
        else if r < 32 \<or> r = 127 then [chr 92, CHR ''x''] @ hex2 r
        else if r = 65533 \<and> length bs = 1 then [chr 92, CHR ''x''] @ hex2 (byte (hd bs))
        else bs)"

definition quote :: "string \<Rightarrow> string" where
  "quote s = [chr 34] @ concat (map quote_chunk (utf8_chunks s)) @ [chr 34]"

text \<open>\<open>strings.ContainsAny\<close> with an ASCII cutset.\<close>

definition contains_any :: "string \<Rightarrow> string \<Rightarrow> bool" where
  "contains_any s cs \<longleftrightarrow> list_ex (\<lambda>c. c \<in> set cs) s"

section \<open>Logs of a stateful computation\<close>

text \<open>
  Effects are functions of type \<open>('s, 'a) state\<close>.  Where a component keeps a log (the
  commands it ran, the calls it made), \<open>grows log Q m\<close> says that running \<open>m\<close> only appends to
  that log, and that what it appends satisfies \<open>Q\<close>.
\<close>

definition grows :: "('s \<Rightarrow> 'e list) \<Rightarrow> ('e list \<Rightarrow> bool) \<Rightarrow> ('s, 'a) state \<Rightarrow> bool" where
  "grows log Q m \<longleftrightarrow> (\<forall>s. \<exists>es. log (snd (run_state m s)) = log s @ es \<and> Q es)"

lemma growsI: "(\<And>s. \<exists>es. log (snd (run_state m s)) = log s @ es \<and> Q es) \<Longrightarrow> grows log Q m"
  by (simp add: grows_def)

lemma growsE:
  assumes "grows log Q m" and "run_state m s = (a, s')"
  obtains es where "log s' = log s @ es" and "Q es"
  using assms by (metis grows_def snd_conv)

lemma grows_mono: "grows log Q m \<Longrightarrow> (\<And>es. Q es \<Longrightarrow> R es) \<Longrightarrow> grows log R m"
  by (metis grows_def)

text \<open>
  The contract of a log property: it holds of the empty log and of a concatenation.  Under
  it the property composes along the monad.
\<close>

locale log_property =
  fixes Q :: "'e list \<Rightarrow> bool"
  assumes empty_ok: "Q []"
    and append_ok: "Q xs \<Longrightarrow> Q ys \<Longrightarrow> Q (xs @ ys)"
begin

lemma grows_return: "grows log Q (State_Monad.return a)"
  by (rule growsI) (simp add: empty_ok)

lemma grows_bind:
  assumes m: "grows log Q m" and f: "\<And>a. grows log Q (f a)"
  shows "grows log Q (State_Monad.bind m f)"
proof (rule growsI)
  fix s
  obtain a s1 where 1: "run_state m s = (a, s1)" by fastforce
  with m obtain es where es: "log s1 = log s @ es" "Q es" by (rule growsE)
  obtain b s2 where 2: "run_state (f a) s1 = (b, s2)" by fastforce
  with f obtain fs where fs: "log s2 = log s1 @ fs" "Q fs" by (rule growsE)
  from 1 2 have "run_state (State_Monad.bind m f) s = (b, s2)" by simp
  with es fs show "\<exists>gs. log (snd (run_state (State_Monad.bind m f) s)) = log s @ gs \<and> Q gs"
    by (auto intro: append_ok)
qed

lemma grows_if:
  "(b \<Longrightarrow> grows log Q m) \<Longrightarrow> (\<not> b \<Longrightarrow> grows log Q n) \<Longrightarrow> grows log Q (if b then m else n)"
  by simp

lemma grows_case_option:
  "(x = None \<Longrightarrow> grows log Q m) \<Longrightarrow> (\<And>a. x = Some a \<Longrightarrow> grows log Q (f a)) \<Longrightarrow>
   grows log Q (case x of None \<Rightarrow> m | Some a \<Rightarrow> f a)"
  by (cases x) auto

lemma grows_case_prod:
  "(\<And>a b. x = (a, b) \<Longrightarrow> grows log Q (f a b)) \<Longrightarrow> grows log Q (case x of (a, b) \<Rightarrow> f a b)"
  by (cases x) auto

lemma grows_let: "grows log Q (f a) \<Longrightarrow> grows log Q (let x = a in f x)"
  by simp

lemmas grows_rules = grows_return grows_bind grows_if grows_case_option grows_case_prod grows_let

end

end
