(* ===== verification/Paths.thy ===== *)
theory Paths
  imports Go_Prelude
begin

text \<open>
  The lexical part of package \<open>path/filepath\<close> on Unix: \<open>IsAbs\<close>, \<open>Clean\<close>, \<open>Base\<close>, \<open>Dir\<close>,
  \<open>Join\<close>, \<open>Split\<close> and \<open>Ext\<close>.  The lemmas describe a cleaned absolute path by the list of
  its components (\<open>abs_path\<close>); \<open>Base\<close>, \<open>Dir\<close> and \<open>Join\<close> are then \<open>last\<close>, \<open>butlast\<close> and an
  append on that list.
\<close>

abbreviation slash :: char where "slash \<equiv> CHR ''/''"

definition is_abs :: "string \<Rightarrow> bool" where
  "is_abs p = has_prefix p [slash]"

fun clean_step :: "bool \<Rightarrow> string list \<Rightarrow> string \<Rightarrow> string list" where
  "clean_step rooted st c =
     (if c = [] \<or> c = ''.'' then st
      else if c = ''..'' then
        (case st of
           [] \<Rightarrow> if rooted then [] else [''..'']
         | prev # rest \<Rightarrow> if prev = ''..'' then ''..'' # st else rest)
      else c # st)"

definition clean :: "string \<Rightarrow> string" where
  "clean p =
     (if p = [] then ''.''
      else (let rooted = is_abs p;
                st = foldl (clean_step rooted) [] (split_on slash p)
            in if rooted then slash # join [slash] (rev st)
               else if st = [] then ''.'' else join [slash] (rev st)))"

definition split_path :: "string \<Rightarrow> string \<times> string" where
  "split_path p =
     (case last_index slash p of
        None \<Rightarrow> ([], p)
      | Some i \<Rightarrow> (take (Suc i) p, drop (Suc i) p))"

definition base :: "string \<Rightarrow> string" where
  "base p =
     (if p = [] then ''.''
      else (let b = snd (split_path (trim_right {slash} p))
            in if b = [] then [slash] else b))"

definition dir :: "string \<Rightarrow> string" where
  "dir p = clean (fst (split_path p))"

definition join_path :: "string list \<Rightarrow> string" where
  "join_path es =
     (case dropWhile (\<lambda>e. e = []) es of [] \<Rightarrow> [] | ws \<Rightarrow> clean (join [slash] ws))"

definition ext :: "string \<Rightarrow> string" where
  "ext p =
     (let f = snd (split_path p)
      in case last_index (CHR ''.'') f of None \<Rightarrow> [] | Some i \<Rightarrow> drop i f)"

section \<open>Cleaned absolute paths\<close>

definition normal :: "string \<Rightarrow> bool" where
  "normal c \<longleftrightarrow> c \<noteq> [] \<and> c \<noteq> ''.'' \<and> c \<noteq> ''..'' \<and> slash \<notin> set c"

definition abs_path :: "string list \<Rightarrow> string" where
  "abs_path cs = slash # join [slash] cs"

lemma foldl_clean_normal:
  "list_all normal cs \<Longrightarrow> foldl (clean_step r) st cs = rev cs @ st"
  by (induction cs arbitrary: st) (auto simp: normal_def)

lemma foldl_clean_rooted:
  "list_all normal st \<Longrightarrow> \<forall>c \<in> set cs. slash \<notin> set c \<Longrightarrow>
   list_all normal (foldl (clean_step True) st cs)"
proof (induction cs arbitrary: st)
  case (Cons c cs)
  have "list_all normal (clean_step True st c)"
    using Cons.prems by (cases st) (auto simp: normal_def list_all_iff)
  with Cons show ?case by simp
qed simp

declare clean_step.simps [simp del]

lemma clean_step_empty [simp]: "clean_step r st [] = st"
  by (simp add: clean_step.simps)

lemma is_abs_abs_path [simp]: "is_abs (abs_path cs)"
  by (simp add: is_abs_def abs_path_def)

lemma abs_path_not_Nil [simp]: "abs_path cs \<noteq> []"
  by (simp add: abs_path_def)

lemma split_abs_path:
  "list_all normal cs \<Longrightarrow> split_on slash (abs_path cs) = [] # (if cs = [] then [[]] else cs)"
proof -
  assume "list_all normal cs"
  then have "\<forall>c \<in> set cs. slash \<notin> set c" by (auto simp: list_all_iff normal_def)
  then have "cs \<noteq> [] \<Longrightarrow> split_on slash (join [slash] cs) = cs" by (rule split_on_join[rotated])
  then show ?thesis by (cases "cs = []") (simp_all add: abs_path_def)
qed

lemma clean_abs_path [simp]: "list_all normal cs \<Longrightarrow> clean (abs_path cs) = abs_path cs"
  by (auto simp: clean_def split_abs_path foldl_clean_normal Let_def clean_step.simps)
    (simp_all add: abs_path_def)

lemma clean_is_abs:
  assumes "is_abs p"
  obtains cs where "list_all normal cs" and "clean p = abs_path cs"
proof
  let ?st = "foldl (clean_step True) [] (split_on slash p)"
  have "\<forall>c \<in> set (split_on slash p). slash \<notin> set c"
    using split_on_parts by blast
  then have "list_all normal ?st" using foldl_clean_rooted [of "[]"] by simp
  then show "list_all normal (rev ?st)" by (simp add: list_all_iff)
  show "clean p = abs_path (rev ?st)"
    using assms by (cases p) (auto simp: clean_def abs_path_def is_abs_def Let_def)
qed

lemma clean_idem_abs: "is_abs p \<Longrightarrow> clean (clean p) = clean p"
  by (metis clean_is_abs clean_abs_path)

lemma join_snoc:
  "cs \<noteq> [] \<Longrightarrow> join sep (cs @ [w]) = join sep cs @ sep @ w"
  by (induction sep cs rule: join.induct) auto

lemma abs_path_snoc:
  "abs_path (cs @ [w]) = (if cs = [] then slash # w else abs_path cs @ slash # w)"
  by (simp add: abs_path_def join_snoc)

lemma join_path_abs [simp]:
  assumes "list_all normal cs" and "normal w"
  shows "join_path [abs_path cs, w] = abs_path (cs @ [w])"
proof -
  have "split_on slash (abs_path cs @ slash # w) = [] # (if cs = [] then [[]] else cs) @ [w]"
  proof (cases "cs = []")
    case True
    then show ?thesis using assms(2) by (simp add: abs_path_def normal_def)
  next
    case False
    then have "abs_path cs @ slash # w = abs_path (cs @ [w])" by (simp add: abs_path_snoc)
    then show ?thesis using assms False split_abs_path [of "cs @ [w]"] by simp
  qed
  moreover have "is_abs (abs_path cs @ slash # w)" by (simp add: is_abs_def abs_path_def)
  moreover have "foldl (clean_step True) [] ([] # (if cs = [] then [[]] else cs) @ [w]) = rev (cs @ [w])"
    using assms foldl_clean_normal [of "cs @ [w]" True "[]"]
    by (cases "cs = []") (simp_all del: foldl_append)
  ultimately have "clean (abs_path cs @ slash # w) = abs_path (cs @ [w])"
    by (simp only: clean_def Let_def if_True abs_path_def rev_rev_ident list.distinct append_Cons if_False)
  then show ?thesis by (simp add: join_path_def)
qed

lemma split_path_snoc:
  "slash \<notin> set w \<Longrightarrow> split_path (p @ slash # w) = (p @ [slash], w)"
  by (simp add: split_path_def)

lemma dir_abs_path [simp]:
  assumes "list_all normal (cs @ [w])"
  shows "dir (abs_path (cs @ [w])) = abs_path cs"
proof (cases "cs = []")
  case True
  with assms have "split_path (abs_path (cs @ [w])) = ([slash], w)"
    using split_path_snoc [of w "[]"] by (simp add: abs_path_def normal_def)
  then show ?thesis
    using True by (simp add: dir_def clean_def is_abs_def abs_path_def clean_step.simps)
next
  case False
  with assms have "split_path (abs_path (cs @ [w])) = (abs_path cs @ [slash], w)"
    by (simp add: abs_path_snoc split_path_snoc normal_def)
  moreover have "clean (abs_path cs @ [slash]) = abs_path cs"
  proof -
    have n: "list_all normal cs" using assms by simp
    then have "\<forall>c \<in> set (cs @ [[]]). slash \<notin> set c" by (auto simp: list_all_iff normal_def)
    then have "split_on slash (join [slash] (cs @ [[]])) = cs @ [[]]"
      by (intro split_on_join) auto
    then have "split_on slash (abs_path cs @ [slash]) = [] # cs @ [[]]"
      using False by (simp add: abs_path_def join_snoc)
    moreover have "is_abs (abs_path cs @ [slash])" by (simp add: is_abs_def abs_path_def)
    ultimately show ?thesis
      using foldl_clean_normal [OF n, of True "[]"]
      by (simp add: clean_def Let_def abs_path_def clean_step.simps)
  qed
  ultimately show ?thesis by (simp add: dir_def)
qed

lemma dir_root [simp]: "dir (abs_path []) = abs_path []"
  by (simp add: dir_def split_path_def abs_path_def last_index_def clean_def is_abs_def clean_step.simps)

lemma base_abs_path [simp]:
  assumes "list_all normal (cs @ [w])"
  shows "base (abs_path (cs @ [w])) = w"
proof -
  let ?p = "if cs = [] then [] else abs_path cs"
  have p: "abs_path (cs @ [w]) = ?p @ slash # w" by (simp add: abs_path_snoc)
  have w: "w \<noteq> []" "slash \<notin> set w" using assms by (auto simp: normal_def)
  then have "trim_right {slash} (?p @ slash # w) = ?p @ slash # w"
    by (cases w rule: rev_cases) (auto simp: trim_right_def)
  then show ?thesis using w unfolding p by (simp add: base_def split_path_snoc Let_def)
qed

text \<open>A name that is its own \<open>Base\<close> is a single component.\<close>

lemma base_self_normal:
  assumes "w = base w" and "w \<noteq> [slash]"
  shows "slash \<notin> set w"
proof (cases "w = []")
  case False
  let ?s = "snd (split_path (trim_right {slash} w))"
  have "w = (if ?s = [] then [slash] else ?s)"
    using assms(1) False by (simp add: base_def Let_def)
  with assms(2) have ws: "w = ?s" by (auto split: if_splits)
  show ?thesis
  proof (cases "last_index slash (trim_right {slash} w)")
    case None
    then have "w = trim_right {slash} w"
      using ws by (simp only: split_path_def option.case snd_conv)
    with None show ?thesis by simp
  next
    case (Some i)
    then have "i < length (trim_right {slash} w)"
      by (auto simp: last_index_def) (metis Suc_diff_le diff_Suc_less gr0I
        index_byte.simps(1) length_greater_0_conv length_rev list.size(3) option.distinct(1))
    moreover have "length (trim_right {slash} w) \<le> length w"
      using length_dropWhile_le [of _ "rev w"] by (simp add: trim_right_def)
    ultimately have "length ?s < length w" using Some by (simp add: split_path_def)
    with ws show ?thesis by simp
  qed
qed simp

end
