(* ===== verification/Go_Os.thy ===== *)
theory Go_Os
  imports Paths
begin

text \<open>
  What the program sees of the host through packages \<open>os\<close>, \<open>net/netip\<close> and \<open>net/url\<close>.

  The contents of the file system, the account database and the environment are inputs:
  they are fields of the record \<open>host\<close>, an argument of every definition that looks at them.
  Parsing an address or a URL from text is likewise a field; the arithmetic of
  addresses and prefixes is written out on words.
\<close>

section \<open>Files\<close>

datatype file_kind = RegularFile | Directory | Symlink | SocketFile | OtherFile

datatype fs_error = NotExist | PermissionDenied | OtherError string

record file_info =
  fi_kind :: file_kind
  fi_perm :: "32 word"
  fi_sticky :: bool
  fi_uid :: nat
  fi_gid :: nat

definition perm_set :: "file_info \<Rightarrow> 32 word \<Rightarrow> bool" where
  "perm_set i m \<longleftrightarrow> and (fi_perm i) m \<noteq> 0"

section \<open>Addresses\<close>

text \<open>\<open>netip.Addr\<close> without its invalid value; an IPv4-mapped IPv6 address is a \<open>V6\<close>.\<close>

datatype addr = V4 "32 word" | V6 "128 word" string

record prefix_net =
  px_addr :: addr
  px_bits :: nat

fun is4 :: "addr \<Rightarrow> bool" where
  "is4 (V4 a) = True"
| "is4 (V6 a z) = False"

fun bit_len :: "addr \<Rightarrow> nat" where
  "bit_len (V4 a) = 32"
| "bit_len (V6 a z) = 128"

text \<open>\<open>Addr.Unmap\<close>: the top 96 bits of a mapped address are 80 zeros and 16 ones.\<close>

fun unmap :: "addr \<Rightarrow> addr" where
  "unmap (V4 a) = V4 a"
| "unmap (V6 a z) = (if drop_bit 32 a = 65535 then V4 (ucast a) else V6 a z)"

fun without_zone :: "addr \<Rightarrow> addr" where
  "without_zone (V4 a) = V4 a"
| "without_zone (V6 a z) = V6 a []"

text \<open>\<open>Prefix.Masked\<close> and \<open>Prefix.Contains\<close>.\<close>

definition masked :: "prefix_net \<Rightarrow> prefix_net" where
  "masked p =
     (case px_addr p of
        V4 a \<Rightarrow> p\<lparr>px_addr := V4 (push_bit (32 - px_bits p) (drop_bit (32 - px_bits p) a))\<rparr>
      | V6 a z \<Rightarrow> p\<lparr>px_addr := V6 (push_bit (128 - px_bits p) (drop_bit (128 - px_bits p) a)) z\<rparr>)"

definition prefix_contains :: "prefix_net \<Rightarrow> addr \<Rightarrow> bool" where
  "prefix_contains p ip =
     (case (px_addr p, ip) of
        (V4 a, V4 b) \<Rightarrow> drop_bit (32 - px_bits p) (xor a b) = 0
      | (V6 a z, V6 b z') \<Rightarrow> z' = [] \<and> drop_bit (128 - px_bits p) (xor a b) = 0
      | _ \<Rightarrow> False)"

section \<open>URLs\<close>

text \<open>The parts of a parsed \<open>url.URL\<close> the program reads.\<close>

record url =
  u_scheme :: string
  u_host :: string
  u_hostname :: string
  u_path :: string

section \<open>The host\<close>

record host =
  hs_stat :: "string \<Rightarrow> fs_error + file_info"
  hs_lstat :: "string \<Rightarrow> fs_error + file_info"
  hs_eval_symlinks :: "string \<Rightarrow> fs_error + string"
  hs_read_file :: "string \<Rightarrow> fs_error + string"
  hs_getenv :: "string \<Rightarrow> string option"
  hs_environ :: "string list"
  hs_uid :: nat
  hs_gid :: nat
  hs_user_gid :: "string \<Rightarrow> nat option"
  hs_parse_addr :: "string \<Rightarrow> addr option"
  hs_parse_prefix :: "string \<Rightarrow> prefix_net option"
  hs_parse_url :: "string \<Rightarrow> url option"

text \<open>\<open>os.Getenv\<close> gives the empty string for an unset variable.\<close>

definition getenv :: "host \<Rightarrow> string \<Rightarrow> string" where
  "getenv h k = (case hs_getenv h k of None \<Rightarrow> [] | Some v \<Rightarrow> v)"

definition stat_regular :: "host \<Rightarrow> string \<Rightarrow> bool" where
  "stat_regular h p = (case hs_stat h p of Inl e \<Rightarrow> False | Inr i \<Rightarrow> fi_kind i = RegularFile)"

end
