(* ===== verification/Dockercfg.thy ===== *)
theory Dockercfg
  imports Go_Os
begin

text \<open>
  Package \<open>internal/dockercfg\<close>: the credential half of docker's \<open>config.json\<close>.

  A raw JSON message is its text.  Encoding a base64 string as JSON only adds quotes, since
  no character of that alphabet is escaped; decoding a JSON string is the parameter
  \<open>unjson\<close>.  Base64 itself (\<open>encoding/base64\<close>, standard alphabet, padded) is written out and
  proved to decode what it encodes, so a stored user name can be read back.
\<close>

section \<open>Base64\<close>

definition b64_char :: "nat \<Rightarrow> char" where
  "b64_char n =
     (if n < 26 then chr (65 + n)
      else if n < 52 then chr (97 + (n - 26))
      else if n < 62 then chr (48 + (n - 52))
      else if n = 62 then CHR ''+'' else CHR ''/'')"

definition b64_value :: "char \<Rightarrow> nat option" where
  "b64_value c =
     (if is_upper c then Some (byte c - 65)
      else if is_lower c then Some (byte c - 97 + 26)
      else if is_digit c then Some (byte c - 48 + 52)
      else if c = CHR ''+'' then Some 62
      else if c = CHR ''/'' then Some 63 else None)"

fun b64_encode :: "string \<Rightarrow> string" where
  "b64_encode [] = []"
| "b64_encode [a] = [b64_char (byte a div 4), b64_char (byte a mod 4 * 16), CHR ''='', CHR ''='']"
| "b64_encode [a, b] =
     [b64_char (byte a div 4), b64_char (byte a mod 4 * 16 + byte b div 16),
      b64_char (byte b mod 16 * 4), CHR ''='']"
| "b64_encode (a # b # c # s) =
     b64_char (byte a div 4) # b64_char (byte a mod 4 * 16 + byte b div 16)
     # b64_char (byte b mod 16 * 4 + byte c div 64) # b64_char (byte c mod 64) # b64_encode s"

text \<open>
  The decoder skips newlines, wants whole quantums, and takes padding in the last one only.
\<close>

fun b64_quads :: "string \<Rightarrow> string option" where
  "b64_quads [] = Some []"
| "b64_quads (w # x # y # z # s) =
     (case (b64_value w, b64_value x) of
        (Some p, Some q) \<Rightarrow>
          (if y = CHR ''='' then
             (if z = CHR ''='' \<and> s = [] then Some [chr (p * 4 + q div 16)] else None)
           else (case b64_value y of
              None \<Rightarrow> None
            | Some r \<Rightarrow>
                (if z = CHR ''='' then
                   (if s = [] then Some [chr (p * 4 + q div 16), chr (q mod 16 * 16 + r div 4)] else None)
                 else (case b64_value z of
                    None \<Rightarrow> None
                  | Some t \<Rightarrow>
                      map_option (\<lambda>rest. chr (p * 4 + q div 16) # chr (q mod 16 * 16 + r div 4)
                                         # chr (r mod 4 * 64 + t) # rest) (b64_quads s)))))
      | _ \<Rightarrow> None)"
| "b64_quads _ = None"

definition b64_decode :: "string \<Rightarrow> string option" where
  "b64_decode s = b64_quads [c \<leftarrow> s. c \<noteq> chr 10 \<and> c \<noteq> chr 13]"

text \<open>None of: the padding, a newline, a quote or a backslash.\<close>

definition plain_char :: "char \<Rightarrow> bool" where
  "plain_char c \<longleftrightarrow> byte c \<notin> {61, 10, 13, 34, 92}"

lemma byte_literals [simp]:
  "byte (CHR ''+'') = 43" "byte (CHR ''/'') = 47" "byte (CHR ''='') = 61"
  by (simp_all add: byte_def)

lemma byte_b64_char:
  "n < 64 \<Longrightarrow> byte (b64_char n) =
     (if n < 26 then 65 + n else if n < 52 then 71 + n else if n < 62 then n - 4
      else if n = 62 then 43 else 47)"
  by (simp add: b64_char_def)

lemma b64_value_char:
  assumes "n < 64"
  shows "b64_value (b64_char n) = Some n"
proof -
  have eqs: "b64_char n = CHR ''+'' \<longleftrightarrow> byte (b64_char n) = 43"
    "b64_char n = CHR ''/'' \<longleftrightarrow> byte (b64_char n) = 47"
    by (metis byte_inject byte_literals)+
  consider "n < 26" | "26 \<le> n" "n < 52" | "52 \<le> n" "n < 62" | "n = 62" | "n = 63"
    using assms by linarith
  then show ?thesis
  proof cases
    case 3
    then have "48 \<le> n - 4" "n - 4 \<le> 57" "n - 4 \<noteq> 43" "n - 4 \<noteq> 47" by arith+
    with 3 show ?thesis
      by (simp add: b64_value_def is_upper_def is_lower_def is_digit_def eqs byte_b64_char)
  qed (simp_all add: b64_value_def is_upper_def is_lower_def is_digit_def
      eqs byte_b64_char b64_char_def)
qed

lemma b64_char_plain: "n < 64 \<Longrightarrow> plain_char (b64_char n)"
  unfolding plain_char_def by (subst byte_b64_char) auto

lemma b64_char_not_pad [simp]: "n < 64 \<Longrightarrow> b64_char n \<noteq> CHR ''=''"
  using b64_char_plain [of n] by (auto simp: plain_char_def)

lemma b64_bounds [simp]:
  "byte a div 4 < 64" "byte a mod 4 * 16 < 64" "byte a mod 4 * 16 + byte b div 16 < 64"
  "byte b mod 16 * 4 < 64" "byte b mod 16 * 4 + byte c div 64 < 64" "byte c mod 64 < 64"
  using byte_less [of a] byte_less [of b] byte_less [of c] by (auto simp del: byte_less)

lemma b64_regroup:
  "byte b div 16 div 16 = 0" "byte c div 64 div 4 = 0"
  "byte b div 16 mod 16 * 16 + byte b mod 16 = byte b"
  "byte c div 64 mod 4 * 64 + byte c mod 64 = byte c"
proof -
  have b: "byte b div 16 < 16" and c: "byte c div 64 < 4"
    using byte_less [of b] byte_less [of c] by (auto simp del: byte_less)
  then show "byte b div 16 div 16 = 0" "byte c div 64 div 4 = 0" by simp_all
  show "byte b div 16 mod 16 * 16 + byte b mod 16 = byte b"
    using b by (simp only: mod_less div_mult_mod_eq)
  show "byte c div 64 mod 4 * 64 + byte c mod 64 = byte c"
    using c by (simp only: mod_less div_mult_mod_eq)
qed

lemma b64_quads_encode: "b64_quads (b64_encode s) = Some s"
  by (induction s rule: b64_encode.induct) (simp_all add: b64_value_char b64_regroup)

lemma b64_encode_chars: "c \<in> set (b64_encode s) \<Longrightarrow> plain_char c \<or> c = CHR ''=''"
  by (induction s rule: b64_encode.induct) (auto intro: b64_char_plain)

lemma b64_decode_encode: "b64_decode (b64_encode s) = Some s"
proof -
  have "c \<noteq> chr 10 \<and> c \<noteq> chr 13" if "c \<in> set (b64_encode s)" for c
    unfolding byte_inject [symmetric]
    using b64_encode_chars [OF that] by (auto simp: plain_char_def simp del: byte_inject)
  then have "[c \<leftarrow> b64_encode s. c \<noteq> chr 10 \<and> c \<noteq> chr 13] = b64_encode s"
    by (intro filter_True) blast
  then show ?thesis by (simp add: b64_decode_def b64_quads_encode)
qed

section \<open>The store\<close>

type_synonym raw_json = string

record docker_config =
  d_fields :: "(string \<times> raw_json) list"
  d_auths :: "(string \<times> (string \<times> raw_json) list) list"

definition new_docker_config :: docker_config where
  "new_docker_config = \<lparr>d_fields = [], d_auths = []\<rparr>"

definition config_path :: "string \<Rightarrow> string" where
  "config_path d = join_path [d, ''config.json'']"

definition dockercfg_exists :: "host \<Rightarrow> string \<Rightarrow> bool" where
  "dockercfg_exists h d = stat_regular h (config_path d)"

text \<open>\<open>Hosts\<close> sorts the keys (\<open>sort.Strings\<close> compares bytes).\<close>

fun str_less :: "string \<Rightarrow> string \<Rightarrow> bool" where
  "str_less s [] = False"
| "str_less [] (d # t) = True"
| "str_less (c # s) (d # t) = (byte c < byte d \<or> (c = d \<and> str_less s t))"

fun insert_sorted :: "string \<Rightarrow> string list \<Rightarrow> string list" where
  "insert_sorted w [] = [w]"
| "insert_sorted w (x # xs) = (if str_less x w then x # insert_sorted w xs else w # x # xs)"

definition sort_strings :: "string list \<Rightarrow> string list" where
  "sort_strings ws = foldr insert_sorted ws []"

definition hosts :: "docker_config \<Rightarrow> string list" where
  "hosts c = sort_strings (map fst (d_auths c))"

definition has :: "docker_config \<Rightarrow> string \<Rightarrow> bool" where
  "has c host = (map_of (d_auths c) host \<noteq> None)"

definition empty :: "docker_config \<Rightarrow> bool" where
  "empty c = (d_auths c = [])"

definition username :: "(raw_json \<Rightarrow> string option) \<Rightarrow> docker_config \<Rightarrow> string \<Rightarrow> string option" where
  "username unjson c host =
     (case map_of (d_auths c) host of
        None \<Rightarrow> None
      | Some entry \<Rightarrow>
          (case Option.bind (map_of entry ''auth'') unjson of
             None \<Rightarrow> None
           | Some encoded \<Rightarrow>
               (case b64_decode encoded of
                  None \<Rightarrow> None
                | Some decoded \<Rightarrow>
                    (case cut (CHR '':'') decoded of (user, _, ok) \<Rightarrow> if ok then Some user else None))))"

datatype cred_error = NoHost | MissingCredential | ColonInUsername

definition json_quote :: "string \<Rightarrow> raw_json" where
  "json_quote s = CHR 0x22 # s @ [CHR 0x22]"

definition set_cred :: "docker_config \<Rightarrow> string \<Rightarrow> string \<Rightarrow> string \<Rightarrow> cred_error + docker_config" where
  "set_cred c host user password =
     (if host = [] then Inl NoHost
      else if user = [] \<or> password = [] then Inl MissingCredential
      else if CHR '':'' \<in> set user then Inl ColonInUsername
      else
        (let encoded = json_quote (b64_encode (user @ CHR '':'' # password));
             entry = (case map_of (d_auths c) host of None \<Rightarrow> [] | Some e \<Rightarrow> e);
             entry1 = al_put ''auth'' encoded entry;
             entry2 = al_del ''password'' (al_del ''username''
                        (al_del ''registrytoken'' (al_del ''identitytoken'' entry1)))
         in Inr (c\<lparr>d_auths := al_put host entry2 (d_auths c)\<rparr>)))"

definition remove :: "docker_config \<Rightarrow> string \<Rightarrow> docker_config \<times> bool" where
  "remove c host =
     (if map_of (d_auths c) host = None then (c, False)
      else (c\<lparr>d_auths := al_del host (d_auths c)\<rparr>, True))"

section \<open>Where a stack's store lives\<close>

datatype dir_error = NotAbsolute | TopLevel | BadStackName | Escapes

definition valid_base :: "string \<Rightarrow> dir_error option" where
  "valid_base b =
     (if \<not> is_abs b then Some NotAbsolute
      else if count_list (clean b) slash < 2 then Some TopLevel else None)"

definition store_dir :: "string \<Rightarrow> string \<Rightarrow> dir_error + string" where
  "store_dir b stack =
     (case valid_base b of
        Some e \<Rightarrow> Inl e
      | None \<Rightarrow>
          if stack = [] \<or> stack = ''.'' \<or> stack = ''..'' \<or> stack \<noteq> base stack
             \<or> slash \<in> set stack then Inl BadStackName
          else (let d = join_path [clean b, stack]
                in if dir d \<noteq> clean b then Inl Escapes else Inr d))"

section \<open>Registry hosts\<close>

definition hub_host :: string where
  "hub_host = ''https://index.docker.io/v1/''"

definition host_label :: "string \<Rightarrow> bool" where
  "host_label s \<longleftrightarrow> s \<noteq> [] \<and> is_alnum (hd s) \<and> is_alnum (last s)
     \<and> list_all (\<lambda>c. is_alnum c \<or> c \<in> set ''._-'') s"

definition port_digits :: "string \<Rightarrow> bool" where
  "port_digits s \<longleftrightarrow> 1 \<le> length s \<and> length s \<le> 5 \<and> list_all is_digit s"

definition host_re :: "string \<Rightarrow> bool" where
  "host_re s =
     (case cut (CHR '':'') s of (h, p, ok) \<Rightarrow>
        if ok then host_label h \<and> port_digits p else host_label s)"

datatype host_error = EmptyHost | NotAHost string

definition normalise_host :: "string \<Rightarrow> host_error + string" where
  "normalise_host raw =
     (let h = trim_suffix (trim_prefix (trim_prefix (trim_space raw) ''https://'') ''http://'') ''/''
      in if h = [] then Inl EmptyHost
         else if to_lower h \<in> {''docker.io'', ''index.docker.io'', ''registry-1.docker.io'',
                               ''index.docker.io/v1''} then Inr hub_host
         else if \<not> host_re h then Inl (NotAHost h)
         else Inr h)"

definition probe_host :: "string \<Rightarrow> string" where
  "probe_host h = (if h = hub_host then ''registry-1.docker.io'' else h)"

section \<open>What the store promises\<close>

text \<open>A character JSON writes as itself inside a string.\<close>

definition json_plain :: "char \<Rightarrow> bool" where
  "json_plain c \<longleftrightarrow> 32 \<le> byte c \<and> byte c < 127 \<and> byte c \<noteq> 34 \<and> byte c \<noteq> 92"

text \<open>The documented behaviour of \<open>json.Unmarshal\<close> the store relies on.\<close>

definition unjson_ok :: "(raw_json \<Rightarrow> string option) \<Rightarrow> bool" where
  "unjson_ok f \<longleftrightarrow> (\<forall>s. list_all json_plain s \<longrightarrow> f (json_quote s) = Some s)"

lemma b64_encode_json_plain: "list_all json_plain (b64_encode s)"
proof -
  have "json_plain (b64_char n)" if "n < 64" for n
    using b64_char_plain [OF that] that by (auto simp: json_plain_def plain_char_def byte_b64_char)
  then show ?thesis
    by (induction s rule: b64_encode.induct) (auto simp: json_plain_def)
qed

lemma set_cred_ok:
  assumes "set_cred c host u p = Inr c'"
  shows "u \<noteq> [] \<and> p \<noteq> [] \<and> host \<noteq> [] \<and> CHR '':'' \<notin> set u \<and> d_fields c' = d_fields c
    \<and> (\<exists>entry. map_of (d_auths c') host = Some entry
         \<and> map_of entry ''auth'' = Some (json_quote (b64_encode (u @ CHR '':'' # p)))
         \<and> (\<forall>k \<in> {''identitytoken'', ''registrytoken'', ''username'', ''password''}.
              map_of entry k = None))
    \<and> (\<forall>h. h \<noteq> host \<longrightarrow> map_of (d_auths c') h = map_of (d_auths c) h)"
  using assms by (auto simp: set_cred_def Let_def split: if_splits)

lemma username_set_cred:
  assumes "set_cred c host u p = Inr c'" and "unjson_ok unjson"
  shows "username unjson c' host = Some u"
  using set_cred_ok [OF assms(1)] assms(2) b64_encode_json_plain
  by (auto simp: username_def unjson_ok_def b64_decode_encode)

lemma remove_absent: "has (fst (remove c host)) host = False"
  by (auto simp: remove_def has_def)

lemma store_dir_inside:
  assumes "store_dir b stack = Inr d"
  obtains cs where "list_all normal (cs @ [stack])" and "clean b = abs_path cs" and "cs \<noteq> []"
    and "d = abs_path (cs @ [stack])"
proof -
  from assms have v: "is_abs b" "\<not> count_list (clean b) slash < 2"
    by (auto simp: store_dir_def valid_base_def split: option.splits if_splits)
  from assms have n: "normal stack"
    by (auto simp: store_dir_def normal_def split: option.splits if_splits)
  from v(1) obtain cs where cs: "list_all normal cs" "clean b = abs_path cs" by (rule clean_is_abs)
  from v(2) cs(2) have "cs \<noteq> []" by (auto simp: abs_path_def)
  moreover have "d = abs_path (cs @ [stack])"
    using assms cs n by (auto simp: store_dir_def Let_def split: option.splits if_splits)
  ultimately show ?thesis using that cs n by simp
qed

lemma host_re_chars: "host_re s \<Longrightarrow> c \<in> set s \<Longrightarrow> is_alnum c \<or> c \<in> set ''._-:''"
proof -
  assume h: "host_re s" and c: "c \<in> set s"
  have parts: "set s \<subseteq> insert x (set a \<union> set b)" if "cut x s = (a, b, True)" for x a b
    using that by (induction x s arbitrary: a b rule: cut.induct) (auto split: if_splits prod.splits)
  obtain a b ok where k: "cut (CHR '':'') s = (a, b, ok)" using prod_cases3 by blast
  show ?thesis
  proof (cases ok)
    case True
    with h k have "host_label a" "port_digits b" by (simp_all add: host_re_def)
    with parts [of "CHR '':''" a b] k True c show ?thesis
      by (auto simp: host_label_def port_digits_def list_all_iff is_alnum_def)
  next
    case False
    with h k have "host_label s" by (simp add: host_re_def)
    with c show ?thesis by (auto simp: host_label_def list_all_iff)
  qed
qed

lemma normalise_host_result:
  "normalise_host raw = Inr h \<Longrightarrow> h = hub_host \<or> host_re h"
  by (auto simp: normalise_host_def Let_def split: if_splits)

end
