(* ===== verification/Config.thy ===== *)
theory Config
  imports Dockercfg
begin

text \<open>
  Package \<open>internal/config\<close>: the configuration record, its defaults and every check made at
  load.  Decoding YAML is third-party code, so a model run starts from the decoded record.
  An error return is a value of \<open>config_error\<close>, one constructor per message.  The host (file
  system, accounts, environment, address and URL parsers) is the argument \<open>h\<close>.
\<close>

section \<open>Data\<close>

record hook =
  hk_command :: string
  hk_args :: "string list"
  hk_timeout :: duration
  hk_required :: "bool option"

record target =
  t_name :: string
  t_dir :: string
  t_compose_file :: string
  t_env_file :: string
  t_services :: "string list"
  t_image_tag_env :: string
  t_allow_prerelease :: bool
  t_auto_update :: bool
  t_check_interval :: duration
  t_soak_opt :: "duration option"
  t_rollback :: "bool option"
  t_pull_timeout :: duration
  t_health_timeout :: duration
  t_job_timeout :: duration
  t_stability_window :: duration
  t_pre_update :: "hook option"
  t_soak :: duration
  t_docker_cfg :: string

record defaults =
  df_check_interval :: duration
  df_soak :: "duration option"
  df_pull_timeout :: duration
  df_health_timeout :: duration
  df_job_timeout :: duration
  df_stability_window :: duration
  df_rollback :: "bool option"

record tls =
  tls_enabled :: "bool option"
  tls_cert_file :: string
  tls_key_file :: string
  tls_self_signed :: bool
  tls_hosts :: "string list"

record auth =
  au_bearer_token :: string
  au_bearer_token_file :: string
  au_github_secret :: string
  au_github_secret_file :: string
  au_bearer :: string
  au_gh_secret :: string

record notify_cfg =
  nf_url :: string
  nf_format :: string
  nf_timeout :: duration
  nf_headers :: "(string \<times> string) list"
  nf_events :: "(string \<times> bool) list"

record config =
  c_listen :: string
  c_allow_non_loopback :: bool
  c_tls :: tls
  c_cors_origins :: "string list"
  c_allow_from_raw :: "string list"
  c_trusted_proxies_raw :: "string list"
  c_agent_socket :: string
  c_agent_peer_user :: string
  c_log_level :: string
  c_log_file :: string
  c_log_max_size_mb :: int
  c_log_keep :: int
  c_history_file :: string
  c_docker_config_dir :: string
  c_history_max_size_mb :: int
  c_history_keep :: int
  c_auth :: auth
  c_defaults :: defaults
  c_notify :: notify_cfg
  c_targets :: "target option list"
  c_fingerprint :: string
  c_by_name :: "(string \<times> target) list"
  c_allow_from :: "prefix_net list"
  c_trusted_proxies :: "prefix_net list"
  c_warnings :: "string list"

section \<open>Names\<close>

definition target_name_re :: "string \<Rightarrow> bool" where
  "target_name_re = matches_word (\<lambda>c. is_lower c \<or> is_digit c)
     (\<lambda>c. is_lower c \<or> is_digit c \<or> c \<in> set ''._-'') 63"

definition service_name_re :: "string \<Rightarrow> bool" where
  "service_name_re = matches_word is_alnum (\<lambda>c. is_alnum c \<or> c \<in> set ''._-'') 127"

definition env_name_re :: "string \<Rightarrow> bool" where
  "env_name_re = matches_word is_upper (\<lambda>c. is_upper c \<or> is_digit c \<or> c = CHR ''_'') 63"

definition valid_image_tag :: "string \<Rightarrow> bool" where
  "valid_image_tag = matches_word (\<lambda>c. is_alnum c \<or> c = CHR ''_'')
     (\<lambda>c. is_alnum c \<or> c \<in> set ''._-'') 127"

section \<open>Accessors\<close>

definition tls_is_enabled :: "tls \<Rightarrow> bool" where
  "tls_is_enabled t =
     (case tls_enabled t of
        Some b \<Rightarrow> b
      | None \<Rightarrow> tls_cert_file t \<noteq> [] \<or> tls_key_file t \<noteq> [] \<or> tls_self_signed t)"

definition hook_configured :: "hook option \<Rightarrow> bool" where
  "hook_configured h = (case h of None \<Rightarrow> False | Some k \<Rightarrow> hk_command k \<noteq> [])"

definition hook_is_required :: "hook option \<Rightarrow> bool" where
  "hook_is_required h =
     (case h of None \<Rightarrow> True | Some k \<Rightarrow> (case hk_required k of None \<Rightarrow> True | Some b \<Rightarrow> b))"

definition has_docker_config :: "host \<Rightarrow> target \<Rightarrow> bool" where
  "has_docker_config h t = (t_docker_cfg t \<noteq> [] \<and> dockercfg_exists h (t_docker_cfg t))"

definition rollback_enabled :: "target \<Rightarrow> bool" where
  "rollback_enabled t = (case t_rollback t of None \<Rightarrow> True | Some b \<Rightarrow> b)"

definition the_targets :: "config \<Rightarrow> target list" where
  "the_targets c = List.map_filter id (c_targets c)"

definition auto_update_targets :: "config \<Rightarrow> target list" where
  "auto_update_targets c = [t \<leftarrow> the_targets c. t_auto_update t]"

definition inbound_methods :: "config \<Rightarrow> string list" where
  "inbound_methods c =
     (if au_bearer (c_auth c) \<noteq> [] then [''token''] else [])
     @ (if au_gh_secret (c_auth c) \<noteq> [] then [''github''] else [])"

definition target_by_name :: "config \<Rightarrow> string \<Rightarrow> target option" where
  "target_by_name c n = map_of (c_by_name c) n"

definition target_names :: "config \<Rightarrow> string list" where
  "target_names c = map t_name (the_targets c)"

section \<open>Events\<close>

definition default_events :: "(string \<times> bool) list" where
  "default_events =
     [(''update_available'', False), (''update_withdrawn'', False), (''update_started'', False),
      (''update_succeeded'', True), (''update_no_change'', True), (''update_dry_run'', True),
      (''update_failed'', True), (''update_rolled_back'', True),
      (''update_rollback_failed'', True), (''check_failed'', True), (''check_recovered'', True)]"

definition known_events :: "string list" where
  "known_events = sort_strings (map fst default_events)"

definition wants :: "notify_cfg \<Rightarrow> string \<Rightarrow> bool" where
  "wants n event =
     (case map_of (nf_events n) event of
        Some on \<Rightarrow> on
      | None \<Rightarrow> (case map_of default_events event of None \<Rightarrow> False | Some b \<Rightarrow> b))"

section \<open>Errors\<close>

datatype config_error =
    ReadError fs_error | DockerDirRelative | FileRelative string | SoakNegativeDefault
  | SocketRelative | TlsPairIncomplete | TlsNothingToServe | SocketTooLong nat
  | SecretFileRelative string | SecretFileStat string | SecretFileUnsafe string string
  | SecretFileRead string | SecretTooShort string | NoAuthMethod
  | NotifyUrlInvalid | NotifyScheme string | NotifyNoHost | NotifyFormat string
  | NotifyEvent string | BadCidr string string | BadAddress string string
  | CorsWildcard | CorsOrigin string
  | EmptyEntry nat | BadName nat string | DuplicateName string | BadStoreDir string dir_error
  | DirRelative string | DirStat string | DirNotDirectory string | NoComposeFile string
  | NotBareFile string string | ProjectFileStat string string | ProjectDirResolve string
  | ProjectFileResolve string string | ProjectFileEscapes string string
  | BadService string string | BadTagEnv string string | SoakNegative string
  | HookRelative string | HookStat string | HookNotRegular string | HookNotExecutable string
  | IntervalTooShort string | StabilityTooLong string | ProjectClash string string string

section \<open>Defaults\<close>

definition default_listen :: string where "default_listen = ''127.0.0.1:7788''"
definition default_agent_socket :: string where "default_agent_socket = ''/run/dup/agent.sock''"
definition default_cert_file :: string where "default_cert_file = ''/etc/dup/self-signed.crt''"
definition default_key_file :: string where "default_key_file = ''/etc/dup/self-signed.key''"
definition default_log_file :: string where "default_log_file = ''/var/log/dup/dup.log''"
definition default_history_file :: string where
  "default_history_file = ''/var/lib/dup/history.jsonl''"
definition default_docker_cfg :: string where "default_docker_cfg = ''/etc/dup/docker''"
definition min_secret_len :: nat where "min_secret_len = 32"
definition max_socket_path_len :: nat where "max_socket_path_len = 100"
definition min_check_interval :: duration where "min_check_interval = minute"

definition if_empty :: "string \<Rightarrow> string \<Rightarrow> string" where
  "if_empty s d = (if s = [] then d else s)"

definition if_nonpos :: "int \<Rightarrow> int \<Rightarrow> int" where
  "if_nonpos n d = (if n \<le> 0 then d else n)"

definition none_off :: "string \<Rightarrow> string" where
  "none_off s = (if s = ''none'' then [] else s)"

definition default_durations :: "defaults \<Rightarrow> defaults" where
  "default_durations d =
     d\<lparr>df_pull_timeout := if_nonpos (df_pull_timeout d) (10 * minute),
       df_health_timeout := if_nonpos (df_health_timeout d) (3 * minute),
       df_job_timeout := if_nonpos (df_job_timeout d) (25 * minute),
       df_stability_window := if_nonpos (df_stability_window d) (15 * second),
       df_check_interval := if_nonpos (df_check_interval d) (6 * hour),
       df_soak := (case df_soak d of None \<Rightarrow> Some (30 * minute) | Some s \<Rightarrow> Some s)\<rparr>"

definition default_tls :: "tls \<Rightarrow> tls" where
  "default_tls t =
     (if tls_self_signed t
      then t\<lparr>tls_cert_file := if_empty (tls_cert_file t) default_cert_file,
             tls_key_file := if_empty (tls_key_file t) default_key_file\<rparr>
      else t)"

definition apply_defaults :: "config \<Rightarrow> config_error + config" where
  "apply_defaults c0 =
     (let c1 = c0\<lparr>c_listen := if_empty (c_listen c0) default_listen,
                  c_log_level := if_empty (c_log_level c0) ''info'',
                  c_log_file := none_off (if_empty (c_log_file c0) default_log_file),
                  c_history_file := none_off (if_empty (c_history_file c0) default_history_file),
                  c_docker_config_dir := if_empty (c_docker_config_dir c0) default_docker_cfg\<rparr>
      in if \<not> is_abs (c_docker_config_dir c1) then Inl DockerDirRelative
      else if c_log_file c1 \<noteq> [] \<and> \<not> is_abs (c_log_file c1) then Inl (FileRelative ''log_file'')
      else if c_history_file c1 \<noteq> [] \<and> \<not> is_abs (c_history_file c1)
        then Inl (FileRelative ''history_file'')
      else
        (let c2 = c1\<lparr>c_docker_config_dir := clean (c_docker_config_dir c1),
                     c_log_max_size_mb := if_nonpos (c_log_max_size_mb c1) 10,
                     c_log_keep := if_nonpos (c_log_keep c1) 5,
                     c_history_max_size_mb := if_nonpos (c_history_max_size_mb c1) 8,
                     c_history_keep := if_nonpos (c_history_keep c1) 4,
                     c_defaults := default_durations (c_defaults c1)\<rparr>
         in if the (df_soak (c_defaults c2)) < 0 then Inl SoakNegativeDefault
         else
           (let n = c_notify c2;
                c3 = c2\<lparr>c_notify := n\<lparr>nf_timeout := if_nonpos (nf_timeout n) (15 * second)\<rparr>,
                        c_agent_socket := if_empty (c_agent_socket c2) default_agent_socket\<rparr>
            in if \<not> is_abs (c_agent_socket c3) then Inl SocketRelative
            else
              (let c4 = c3\<lparr>c_tls := default_tls (c_tls c3)\<rparr>
               in if (tls_cert_file (c_tls c4) = []) \<noteq> (tls_key_file (c_tls c4) = [])
                    then Inl TlsPairIncomplete
                  else if tls_is_enabled (c_tls c4) \<and> tls_cert_file (c_tls c4) = []
                    then Inl TlsNothingToServe
                  else if max_socket_path_len < length (c_agent_socket c4)
                    then Inl (SocketTooLong (length (c_agent_socket c4)))
                  else Inr c4))))"

section \<open>Secrets\<close>

text \<open>\<open>checkSecretFile\<close>: \<open>None\<close> when the file may be used, otherwise why not.\<close>

definition check_secret_file ::
  "host \<Rightarrow> string \<Rightarrow> file_info \<Rightarrow> nat option \<Rightarrow> string option" where
  "check_secret_file h path i service_gid =
     (if fi_kind i \<noteq> RegularFile then Some ''is not a regular file''
      else if perm_set i 7 \<or> perm_set i 16 then Some ''mode''
      else if fi_uid i \<noteq> 0 \<and> fi_uid i \<noteq> hs_uid h then Some ''owner''
      else if perm_set i 32 \<and> fi_gid i \<noteq> hs_gid h \<and> service_gid \<noteq> Some (fi_gid i)
        then Some ''group''
      else (case hs_stat h (dir path) of
              Inl e \<Rightarrow> Some ''directory could not be checked''
            | Inr d \<Rightarrow> if perm_set d 18 then Some ''directory writable'' else None))"

definition resolve_secret ::
  "host \<Rightarrow> string \<Rightarrow> string \<Rightarrow> string \<Rightarrow> string \<Rightarrow> nat option \<Rightarrow> config_error + string" where
  "resolve_secret h label inline file env_key service_gid =
     (let finish = (\<lambda>raw.
            (let v = trim_space raw
             in if v = [] then Inr []
                else if length v < min_secret_len then Inl (SecretTooShort label)
                else Inr v))
      in if getenv h env_key \<noteq> [] then finish (getenv h env_key)
         else if file \<noteq> [] then
           (if \<not> is_abs file then Inl (SecretFileRelative label)
            else (case hs_stat h file of
                    Inl e \<Rightarrow> Inl (SecretFileStat label)
                  | Inr i \<Rightarrow>
                      (case check_secret_file h file i service_gid of
                         Some why \<Rightarrow> Inl (SecretFileUnsafe label why)
                       | None \<Rightarrow>
                           (case hs_read_file h file of
                              Inl e \<Rightarrow> Inl (SecretFileRead label)
                            | Inr b \<Rightarrow> finish b))))
         else finish inline)"

definition lookup_service_gid :: "host \<Rightarrow> string \<Rightarrow> nat option" where
  "lookup_service_gid h name = (if name = [] then None else hs_user_gid h name)"

definition resolve_secrets :: "host \<Rightarrow> config \<Rightarrow> config_error + config" where
  "resolve_secrets h c =
     (let gid = lookup_service_gid h (c_agent_peer_user c); a = c_auth c
      in case resolve_secret h ''bearer token'' (au_bearer_token a) (au_bearer_token_file a)
                ''UPDATER_BEARER_TOKEN'' gid of
           Inl e \<Rightarrow> Inl e
         | Inr bearer \<Rightarrow>
             (case resolve_secret h ''github secret'' (au_github_secret a) (au_github_secret_file a)
                     ''UPDATER_GITHUB_SECRET'' gid of
                Inl e \<Rightarrow> Inl e
              | Inr gh \<Rightarrow>
                  (if bearer = [] \<and> gh = [] then Inl NoAuthMethod
                   else Inr (c\<lparr>c_auth := a\<lparr>au_bearer := bearer, au_gh_secret := gh,
                                           au_bearer_token := [], au_github_secret := []\<rparr>\<rparr>))))"

section \<open>Notifications and networks\<close>

definition is_discord_webhook :: "host \<Rightarrow> string \<Rightarrow> bool" where
  "is_discord_webhook h raw =
     (case hs_parse_url h raw of
        None \<Rightarrow> False
      | Some u \<Rightarrow>
          (let hn = to_lower (u_hostname u)
           in if hn \<noteq> ''discord.com'' \<and> hn \<noteq> ''discordapp.com''
                 \<and> \<not> has_suffix hn ''.discord.com'' \<and> \<not> has_suffix hn ''.discordapp.com''
              then False else contains (u_path u) ''/webhooks/''))"

definition notify_formats :: "string list" where
  "notify_formats = [[], ''auto'', ''dup'', ''discord'', ''slack'', ''teams'', ''google-chat'']"

definition discord_warning :: string where
  "discord_warning = ''notify.format is dup but notify.url is a discord webhook, which refuses that payload; remove the format line to let dup detect it, and check with: sudo dup notify''"

definition validate_notify :: "host \<Rightarrow> config \<Rightarrow> config_error + config" where
  "validate_notify h c =
     (let n = c_notify c
      in if nf_url n = [] then Inr c
         else (case hs_parse_url h (nf_url n) of
            None \<Rightarrow> Inl NotifyUrlInvalid
          | Some u \<Rightarrow>
              (if u_scheme u \<noteq> ''http'' \<and> u_scheme u \<noteq> ''https'' then Inl (NotifyScheme (u_scheme u))
               else if u_host u = [] then Inl NotifyNoHost
               else if nf_format n \<notin> set notify_formats then Inl (NotifyFormat (nf_format n))
               else (case find (\<lambda>e. fst e \<notin> set (map fst default_events)) (nf_events n) of
                   Some e \<Rightarrow> Inl (NotifyEvent (fst e))
                 | None \<Rightarrow>
                     (if nf_format n = ''dup'' \<and> is_discord_webhook h (nf_url n)
                      then Inr (c\<lparr>c_warnings := c_warnings c @ [discord_warning]\<rparr>)
                      else Inr c)))))"

fun parse_prefixes :: "host \<Rightarrow> string \<Rightarrow> string list \<Rightarrow> config_error + prefix_net list" where
  "parse_prefixes h field [] = Inr []"
| "parse_prefixes h field (v0 # vs) =
     (let v = trim_space v0; rest = parse_prefixes h field vs
      in if v = [] then rest
         else if slash \<in> set v then
           (case hs_parse_prefix h v of
              None \<Rightarrow> Inl (BadCidr field v)
            | Some p \<Rightarrow> (case rest of Inl e \<Rightarrow> Inl e | Inr ps \<Rightarrow> Inr (masked p # ps)))
         else
           (case hs_parse_addr h v of
              None \<Rightarrow> Inl (BadAddress field v)
            | Some a \<Rightarrow>
                (case rest of
                   Inl e \<Rightarrow> Inl e
                 | Inr ps \<Rightarrow> Inr (\<lparr>px_addr = without_zone a, px_bits = bit_len a\<rparr> # ps))))"

fun check_origins :: "host \<Rightarrow> string list \<Rightarrow> config_error option" where
  "check_origins h [] = None"
| "check_origins h (o1 # os) =
     (if o1 = ''*'' then Some CorsWildcard
      else (case hs_parse_url h o1 of
              None \<Rightarrow> Some (CorsOrigin o1)
            | Some u \<Rightarrow> if u_scheme u = [] \<or> u_host u = [] then Some (CorsOrigin o1)
                        else check_origins h os))"

definition validate_networks :: "host \<Rightarrow> config \<Rightarrow> config_error + config" where
  "validate_networks h c =
     (case parse_prefixes h ''allow_from'' (c_allow_from_raw c) of
        Inl e \<Rightarrow> Inl e
      | Inr af \<Rightarrow>
          (case parse_prefixes h ''trusted_proxies'' (c_trusted_proxies_raw c) of
             Inl e \<Rightarrow> Inl e
           | Inr tp \<Rightarrow>
               (case check_origins h (c_cors_origins c) of
                  Some e \<Rightarrow> Inl e
                | None \<Rightarrow> Inr (c\<lparr>c_allow_from := af, c_trusted_proxies := tp\<rparr>))))"

section \<open>Targets\<close>

text \<open>The hook with its default timeout; a hook with no command is left as it is.\<close>

definition validate_hook :: "host \<Rightarrow> string \<Rightarrow> hook option \<Rightarrow> bool \<Rightarrow> config_error + hook option" where
  "validate_hook h target hk check_paths =
     (case hk of
        None \<Rightarrow> Inr None
      | Some k \<Rightarrow>
          if \<not> hook_configured hk then Inr hk
          else if \<not> is_abs (hk_command k) then Inl (HookRelative target)
          else
            (let k' = k\<lparr>hk_timeout := if_nonpos (hk_timeout k) (10 * minute)\<rparr>
             in if \<not> check_paths then Inr (Some k')
                else (case hs_stat h (hk_command k) of
                        Inl e \<Rightarrow> Inl (HookStat target)
                      | Inr i \<Rightarrow>
                          if fi_kind i \<noteq> RegularFile then Inl (HookNotRegular target)
                          else if \<not> perm_set i 73 then Inl (HookNotExecutable target)
                          else Inr (Some k'))))"

definition validate_project_file ::
  "host \<Rightarrow> string \<Rightarrow> string \<Rightarrow> string \<Rightarrow> string \<Rightarrow> bool \<Rightarrow> config_error option" where
  "validate_project_file h target field d name check_paths =
     (if name = [] then None
      else if name \<noteq> base name \<or> name = ''.'' \<or> name = ''..'' then Some (NotBareFile target field)
      else if \<not> check_paths then None
      else
        (let full = join_path [d, name]
         in case hs_stat h full of
              Inl e \<Rightarrow> Some (ProjectFileStat target field)
            | Inr i \<Rightarrow>
                (case hs_eval_symlinks h d of
                   Inl e \<Rightarrow> Some (ProjectDirResolve target)
                 | Inr resolved_dir \<Rightarrow>
                     (case hs_eval_symlinks h full of
                        Inl e \<Rightarrow> Some (ProjectFileResolve target field)
                      | Inr resolved \<Rightarrow>
                          if resolved \<noteq> join_path [resolved_dir, name]
                          then Some (ProjectFileEscapes target field) else None))))"

definition default_compose_names :: "string list" where
  "default_compose_names =
     [''compose.yaml'', ''compose.yml'', ''docker-compose.yaml'', ''docker-compose.yml'']"

definition stat_ok :: "host \<Rightarrow> string \<Rightarrow> bool" where
  "stat_ok h p = (case hs_stat h p of Inl e \<Rightarrow> False | Inr i \<Rightarrow> True)"

definition require_default_compose_file :: "host \<Rightarrow> target \<Rightarrow> config_error option" where
  "require_default_compose_file h t =
     (if list_ex (\<lambda>n. stat_ok h (join_path [t_dir t, n])) default_compose_names then None
      else Some (NoComposeFile (t_name t)))"

text \<open>
  The look at the stack's directory: whether it is there, and an error.  A missing one is a
  warning only.
\<close>

definition check_dir :: "host \<Rightarrow> target \<Rightarrow> config_error + bool" where
  "check_dir h t =
     (case hs_stat h (t_dir t) of
        Inl NotExist \<Rightarrow> Inr False
      | Inl e \<Rightarrow> Inl (DirStat (t_name t))
      | Inr i \<Rightarrow>
          if fi_kind i \<noteq> Directory then Inl (DirNotDirectory (t_name t))
          else if t_compose_file t = [] then
            (case require_default_compose_file h t of Some e \<Rightarrow> Inl e | None \<Rightarrow> Inr True)
          else Inr True)"

definition missing_dir_warning :: "target \<Rightarrow> string" where
  "missing_dir_warning t =
     ''stack '' @ [CHR 0x22] @ t_name t @ [CHR 0x22] @ '' points at '' @ t_dir t @ '', which does not exist''"

text \<open>Timeouts a target leaves out come from the defaults.\<close>

definition inherit :: "defaults \<Rightarrow> target \<Rightarrow> target" where
  "inherit d t =
     t\<lparr>t_rollback := (case t_rollback t of None \<Rightarrow> df_rollback d | Some b \<Rightarrow> Some b),
       t_pull_timeout := if_nonpos (t_pull_timeout t) (df_pull_timeout d),
       t_health_timeout := if_nonpos (t_health_timeout t) (df_health_timeout d),
       t_job_timeout := if_nonpos (t_job_timeout t) (df_job_timeout d),
       t_stability_window := if_nonpos (t_stability_window t) (df_stability_window d),
       t_check_interval := if_nonpos (t_check_interval t) (df_check_interval d),
       t_soak := (case t_soak_opt t of Some s \<Rightarrow> s | None \<Rightarrow> the (df_soak d))\<rparr>"

text \<open>The checks after the directory: names, files, services, timings and the hook.\<close>

definition validate_rest ::
  "host \<Rightarrow> config \<Rightarrow> bool \<Rightarrow> bool \<Rightarrow> target \<Rightarrow> config_error + target" where
  "validate_rest h c check_paths present t =
     (case validate_project_file h (t_name t) ''compose_file'' (t_dir t) (t_compose_file t)
             (check_paths \<and> present) of
        Some e \<Rightarrow> Inl e
      | None \<Rightarrow>
     (case validate_project_file h (t_name t) ''env_file'' (t_dir t) (t_env_file t)
             (check_paths \<and> present) of
        Some e \<Rightarrow> Inl e
      | None \<Rightarrow>
     (case find (\<lambda>s. \<not> service_name_re s) (t_services t) of
        Some s \<Rightarrow> Inl (BadService (t_name t) s)
      | None \<Rightarrow>
        if t_image_tag_env t \<noteq> [] \<and> \<not> env_name_re (t_image_tag_env t)
        then Inl (BadTagEnv (t_name t) (t_image_tag_env t))
        else
          (let t' = inherit (c_defaults c) t
           in if t_soak t' < 0 then Inl (SoakNegative (t_name t))
              else (case validate_hook h (t_name t) (t_pre_update t') check_paths of
                      Inl e \<Rightarrow> Inl e
                    | Inr hk \<Rightarrow>
                        if t_auto_update t' \<and> t_check_interval t' < min_check_interval
                        then Inl (IntervalTooShort (t_name t))
                        else if t_health_timeout t' \<le> t_stability_window t'
                        then Inl (StabilityTooLong (t_name t))
                        else Inr (t'\<lparr>t_pre_update := hk\<rparr>))))))"

definition validate_target ::
  "host \<Rightarrow> config \<Rightarrow> bool \<Rightarrow> nat \<Rightarrow> target option \<Rightarrow> string list \<Rightarrow>
   config_error + target \<times> string list" where
  "validate_target h c check_paths i ot seen =
     (case ot of
        None \<Rightarrow> Inl (EmptyEntry i)
      | Some t0 \<Rightarrow>
          if \<not> target_name_re (t_name t0) then Inl (BadName i (t_name t0))
          else if t_name t0 \<in> set seen then Inl (DuplicateName (t_name t0))
          else (case store_dir (c_docker_config_dir c) (t_name t0) of
                  Inl e \<Rightarrow> Inl (BadStoreDir (t_name t0) e)
                | Inr store \<Rightarrow>
                    if \<not> is_abs (t_dir t0) then Inl (DirRelative (t_name t0))
                    else
                      (let t = t0\<lparr>t_docker_cfg := store, t_dir := clean (t_dir t0)\<rparr>
                       in case (if check_paths then check_dir h t else Inr True) of
                            Inl e \<Rightarrow> Inl e
                          | Inr present \<Rightarrow>
                              (case validate_rest h c check_paths present t of
                                 Inl e \<Rightarrow> Inl e
                               | Inr t' \<Rightarrow> Inr (t', if present then [] else [missing_dir_warning t])))))"

fun validate_each ::
  "host \<Rightarrow> config \<Rightarrow> bool \<Rightarrow> nat \<Rightarrow> target option list \<Rightarrow> string list \<Rightarrow>
   config_error + target list \<times> string list" where
  "validate_each h c cp i [] seen = Inr ([], [])"
| "validate_each h c cp i (ot # ots) seen =
     (case validate_target h c cp i ot seen of
        Inl e \<Rightarrow> Inl e
      | Inr (t, ws) \<Rightarrow>
          (case validate_each h c cp (Suc i) ots (t_name t # seen) of
             Inl e \<Rightarrow> Inl e
           | Inr (ts, ws') \<Rightarrow> Inr (t # ts, ws @ ws')))"

text \<open>Two stacks in directories of the same name would be one compose project.\<close>

fun project_clash :: "(string \<times> string) list \<Rightarrow> target list \<Rightarrow> config_error option" where
  "project_clash projects [] = None"
| "project_clash projects (t # ts) =
     (case map_of projects (base (t_dir t)) of
        Some other \<Rightarrow> Some (ProjectClash other (t_name t) (base (t_dir t)))
      | None \<Rightarrow> project_clash (al_put (base (t_dir t)) (t_name t) projects) ts)"

definition validate_targets :: "host \<Rightarrow> config \<Rightarrow> bool \<Rightarrow> config_error + config" where
  "validate_targets h c check_paths =
     (case validate_each h c check_paths 0 (c_targets c) [] of
        Inl e \<Rightarrow> Inl e
      | Inr (ts, ws) \<Rightarrow>
          (case project_clash [] ts of
             Some e \<Rightarrow> Inl e
           | None \<Rightarrow> Inr (c\<lparr>c_targets := map Some ts, c_by_name := map (\<lambda>t. (t_name t, t)) ts,
                             c_warnings := c_warnings c @ ws\<rparr>)))"

text \<open>
  \<open>load\<close> after the file was read and decoded.  The decoder's record has empty private fields;
  \<open>fingerprint\<close> is the hash of the bytes.
\<close>

definition load_config :: "host \<Rightarrow> bool \<Rightarrow> bool \<Rightarrow> config \<Rightarrow> config_error + config" where
  "load_config h check_paths check_secrets c =
     (case apply_defaults c of
        Inl e \<Rightarrow> Inl e
      | Inr c1 \<Rightarrow>
     (case (if check_secrets then resolve_secrets h c1 else Inr c1) of
        Inl e \<Rightarrow> Inl e
      | Inr c2 \<Rightarrow>
     (case validate_notify h c2 of
        Inl e \<Rightarrow> Inl e
      | Inr c3 \<Rightarrow>
     (case validate_networks h c3 of
        Inl e \<Rightarrow> Inl e
      | Inr c4 \<Rightarrow> validate_targets h c4 check_paths))))"

section \<open>What a loaded configuration guarantees\<close>

text \<open>The conditions every later component relies on for one target.\<close>

definition target_ok :: "string \<Rightarrow> target \<Rightarrow> bool" where
  "target_ok store_base t \<longleftrightarrow>
     target_name_re (t_name t) \<and> is_abs (t_dir t) \<and> clean (t_dir t) = t_dir t
     \<and> list_all service_name_re (t_services t)
     \<and> (t_image_tag_env t = [] \<or> env_name_re (t_image_tag_env t))
     \<and> 0 < t_pull_timeout t \<and> 0 < t_job_timeout t \<and> 0 < t_check_interval t
     \<and> 0 < t_stability_window t \<and> t_stability_window t < t_health_timeout t
     \<and> 0 \<le> t_soak t \<and> (t_auto_update t \<longrightarrow> minute \<le> t_check_interval t)
     \<and> (\<forall>k. t_pre_update t = Some k \<longrightarrow> hk_command k \<noteq> [] \<longrightarrow> is_abs (hk_command k) \<and> 0 < hk_timeout k)
     \<and> store_dir store_base (t_name t) = Inr (t_docker_cfg t)"

definition defaults_ok :: "defaults \<Rightarrow> bool" where
  "defaults_ok d \<longleftrightarrow> 0 < df_pull_timeout d \<and> 0 < df_health_timeout d \<and> 0 < df_job_timeout d
     \<and> 0 < df_stability_window d \<and> 0 < df_check_interval d \<and> (\<exists>s. df_soak d = Some s \<and> 0 \<le> s)"

lemma if_nonpos_pos [simp]: "0 < d \<Longrightarrow> 0 < if_nonpos n d"
  by (simp add: if_nonpos_def)

lemma duration_pos [simp]:
  "0 < second" "0 < minute" "0 < hour" "0 < millisecond"
  by (simp_all add: hour_def minute_def second_def millisecond_def)

lemma apply_defaults_ok:
  assumes "apply_defaults c = Inr c'"
  shows "defaults_ok (c_defaults c')"
proof -
  have d: "c_defaults c' = default_durations (c_defaults c)"
    and s: "\<not> the (df_soak (c_defaults c')) < 0"
    using assms by (auto simp: apply_defaults_def Let_def split: if_splits)
  from s show ?thesis unfolding d
    by (auto simp: defaults_ok_def default_durations_def split: option.splits)
qed

lemma resolve_secrets_frame:
  "resolve_secrets h c = Inr c' \<Longrightarrow>
   c_defaults c' = c_defaults c \<and> c_docker_config_dir c' = c_docker_config_dir c"
  by (auto simp: resolve_secrets_def Let_def split: sum.splits if_splits)

lemma validate_notify_frame:
  "validate_notify h c = Inr c' \<Longrightarrow>
   c_defaults c' = c_defaults c \<and> c_docker_config_dir c' = c_docker_config_dir c"
  by (auto simp: validate_notify_def Let_def split: option.splits if_splits)

lemma validate_networks_frame:
  "validate_networks h c = Inr c' \<Longrightarrow>
   c_defaults c' = c_defaults c \<and> c_docker_config_dir c' = c_docker_config_dir c"
  by (auto simp: validate_networks_def split: option.splits sum.splits)

lemma inherit_frame [simp]:
  "t_name (inherit d t) = t_name t" "t_dir (inherit d t) = t_dir t"
  "t_services (inherit d t) = t_services t" "t_image_tag_env (inherit d t) = t_image_tag_env t"
  "t_docker_cfg (inherit d t) = t_docker_cfg t" "t_pre_update (inherit d t) = t_pre_update t"
  "t_auto_update (inherit d t) = t_auto_update t" "t_compose_file (inherit d t) = t_compose_file t"
  "t_env_file (inherit d t) = t_env_file t"
  by (simp_all add: inherit_def)

lemma inherit_pos:
  assumes "defaults_ok d"
  shows "0 < t_pull_timeout (inherit d t)" "0 < t_job_timeout (inherit d t)"
    "0 < t_check_interval (inherit d t)" "0 < t_stability_window (inherit d t)"
  using assms by (simp_all add: inherit_def defaults_ok_def)

lemma validate_hook_ok:
  "validate_hook h n hk cp = Inr hk' \<Longrightarrow> hk' = Some k \<Longrightarrow> hk_command k \<noteq> [] \<Longrightarrow>
   is_abs (hk_command k) \<and> 0 < hk_timeout k"
  by (auto simp: validate_hook_def hook_configured_def Let_def split: option.splits sum.splits if_splits)

lemma validate_rest_ok:
  assumes "validate_rest h c cp present t = Inr t'" and "defaults_ok (c_defaults c)"
    and "target_name_re (t_name t)" "is_abs (t_dir t)" "clean (t_dir t) = t_dir t"
    and "store_dir sb (t_name t) = Inr (t_docker_cfg t)"
  shows "target_ok sb t' \<and> t_name t' = t_name t \<and> t_dir t' = t_dir t"
proof -
  obtain hk where hk: "validate_hook h (t_name t) (t_pre_update t) cp = Inr hk"
    and t': "t' = (inherit (c_defaults c) t)\<lparr>t_pre_update := hk\<rparr>"
    and num: "0 \<le> t_soak (inherit (c_defaults c) t)"
      "t_stability_window (inherit (c_defaults c) t) < t_health_timeout (inherit (c_defaults c) t)"
      "t_auto_update t \<longrightarrow> minute \<le> t_check_interval (inherit (c_defaults c) t)"
    and sv: "find (\<lambda>s. \<not> service_name_re s) (t_services t) = None"
    and ev: "t_image_tag_env t = [] \<or> env_name_re (t_image_tag_env t)"
    using assms(1)
    by (auto simp: validate_rest_def Let_def min_check_interval_def
        split: option.splits sum.splits if_splits)
  have "list_all service_name_re (t_services t)"
    using sv by (auto simp: find_None_iff list_all_iff)
  with assms(2-) hk t' num ev inherit_pos [OF assms(2), of t] validate_hook_ok [OF hk]
  show ?thesis by (auto simp: target_ok_def)
qed

lemma validate_target_ok:
  assumes "validate_target h c cp i ot seen = Inr (t, ws)" and "defaults_ok (c_defaults c)"
  shows "target_ok (c_docker_config_dir c) t \<and> t_name t \<notin> set seen"
proof -
  obtain t0 store present where ot: "ot = Some t0" and n: "target_name_re (t_name t0)"
    and fresh: "t_name t0 \<notin> set seen" and st: "store_dir (c_docker_config_dir c) (t_name t0) = Inr store"
    and d: "is_abs (t_dir t0)"
    and r: "validate_rest h c cp present (t0\<lparr>t_docker_cfg := store, t_dir := clean (t_dir t0)\<rparr>) = Inr t"
    using assms(1)
    by (auto simp: validate_target_def Let_def split: option.splits sum.splits if_splits)
  have "is_abs (clean (t_dir t0))" using d by (metis clean_is_abs is_abs_abs_path)
  with validate_rest_ok [OF r assms(2)] n fresh st d show ?thesis
    by (simp add: clean_idem_abs)
qed

lemma validate_each_ok:
  assumes "validate_each h c cp i ots seen = Inr (ts, ws)" and "defaults_ok (c_defaults c)"
  shows "list_all (target_ok (c_docker_config_dir c)) ts \<and> distinct (map t_name ts)
    \<and> set (map t_name ts) \<inter> set seen = {} \<and> length ts = length ots"
  using assms
proof (induction ots arbitrary: i seen ts ws)
  case (Cons ot ots)
  obtain t w ts' w' where t: "validate_target h c cp i ot seen = Inr (t, w)"
    and r: "validate_each h c cp (Suc i) ots (t_name t # seen) = Inr (ts', w')" and ts: "ts = t # ts'"
    using Cons.prems(1) by (auto split: sum.splits)
  from Cons.IH [OF r Cons.prems(2)] validate_target_ok [OF t Cons.prems(2)] ts
  show ?case by auto
qed simp

lemma project_clash_distinct:
  assumes "project_clash ps ts = None"
  shows "distinct (map (\<lambda>t. base (t_dir t)) ts)
    \<and> (\<forall>t \<in> set ts. map_of ps (base (t_dir t)) = None)"
  using assms
proof (induction ps ts rule: project_clash.induct)
  case (2 ps t ts)
  then have n: "map_of ps (base (t_dir t)) = None"
    and r: "project_clash (al_put (base (t_dir t)) (t_name t) ps) ts = None"
    by (auto split: option.splits)
  from "2.IH" [OF n r] n show ?case by (auto split: if_splits)
qed simp

lemma validate_targets_ok:
  assumes "validate_targets h c cp = Inr c'" and "defaults_ok (c_defaults c)"
  shows "list_all (target_ok (c_docker_config_dir c)) (the_targets c')
    \<and> distinct (target_names c') \<and> distinct (map (\<lambda>t. base (t_dir t)) (the_targets c'))
    \<and> c_docker_config_dir c' = c_docker_config_dir c
    \<and> c_by_name c' = map (\<lambda>t. (t_name t, t)) (the_targets c')"
proof -
  obtain ts ws where e: "validate_each h c cp 0 (c_targets c) [] = Inr (ts, ws)"
    and p: "project_clash [] ts = None"
    and c': "c' = c\<lparr>c_targets := map Some ts, c_by_name := map (\<lambda>t. (t_name t, t)) ts,
                    c_warnings := c_warnings c @ ws\<rparr>"
    using assms(1) by (auto simp: validate_targets_def split: sum.splits option.splits)
  have "the_targets c' = ts"
    by (simp add: c' the_targets_def List.map_filter_def comp_def)
  with validate_each_ok [OF e assms(2)] project_clash_distinct [OF p] c' show ?thesis
    by (simp add: target_names_def)
qed

lemma load_config_steps:
  assumes "load_config h cp cs c = Inr c'"
  obtains c4 where "defaults_ok (c_defaults c4)" and "validate_targets h c4 cp = Inr c'"
proof -
  obtain c1 c2 c3 c4 where 1: "apply_defaults c = Inr c1"
    and 2: "(if cs then resolve_secrets h c1 else Inr c1) = Inr c2"
    and 3: "validate_notify h c2 = Inr c3" and 4: "validate_networks h c3 = Inr c4"
    and 5: "validate_targets h c4 cp = Inr c'"
    using assms by (auto simp: load_config_def split: sum.splits)
  have "c_defaults c4 = c_defaults c1"
    using 2 validate_notify_frame [OF 3] validate_networks_frame [OF 4] resolve_secrets_frame [of h c1 c2]
    by (auto split: if_splits)
  then show ?thesis using that [of c4] apply_defaults_ok [OF 1] 5 by simp
qed

lemma target_by_name_ok:
  assumes "load_config h cp cs c = Inr c'" and "target_by_name c' n = Some t"
  shows "t_name t = n \<and> t \<in> set (the_targets c') \<and> target_ok (c_docker_config_dir c') t"
proof -
  obtain c4 where d: "defaults_ok (c_defaults c4)" and v: "validate_targets h c4 cp = Inr c'"
    using assms(1) by (rule load_config_steps)
  note ok = validate_targets_ok [OF v d]
  have "(n, t) \<in> set (c_by_name c')"
    using assms(2) by (simp add: target_by_name_def map_of_SomeD)
  with ok show ?thesis by (auto simp: list_all_iff)
qed

end
