(* ===== verification/Access.thy ===== *)
theory Access
  imports Config
begin

text \<open>
  \<open>internal/server/access.go\<close> and \<open>auth.go\<close>: who a request comes from, whether that source is
  allowed, the throttle on failed authentication and the authentication itself.  The hash and
  the keyed hash of \<open>crypto\<close> are arguments; the throttle's clock readings are too.
\<close>

section \<open>Requests\<close>

record http_request =
  ht_method :: string
  ht_remote :: string
  ht_headers :: "(string \<times> string) list"
  ht_query :: "(string \<times> string) list"
  ht_body :: string

text \<open>\<open>Header.Get\<close> and \<open>Header.Values\<close>, the names being in canonical form; \<open>Query().Get\<close>.\<close>

definition header_get :: "http_request \<Rightarrow> string \<Rightarrow> string" where
  "header_get r k = (case map_of (ht_headers r) k of None \<Rightarrow> [] | Some v \<Rightarrow> v)"

definition header_values :: "http_request \<Rightarrow> string \<Rightarrow> string list" where
  "header_values r k = map snd [p \<leftarrow> ht_headers r. fst p = k]"

definition query_get :: "http_request \<Rightarrow> string \<Rightarrow> string" where
  "query_get r k = (case map_of (ht_query r) k of None \<Rightarrow> [] | Some v \<Rightarrow> v)"

text \<open>\<open>net.SplitHostPort\<close>.\<close>

definition split_host_port :: "string \<Rightarrow> (string \<times> string) option" where
  "split_host_port s =
     (case last_index (CHR '':'') s of
        None \<Rightarrow> None
      | Some i \<Rightarrow>
          if hd s = CHR ''['' then
            (case index_byte (CHR '']'') s of
               None \<Rightarrow> None
             | Some e \<Rightarrow>
                 if Suc e \<noteq> i then None
                 else if CHR ''['' \<in> set (drop 1 s) \<or> CHR '']'' \<in> set (drop (Suc e) s) then None
                 else Some (take (e - 1) (drop 1 s), drop (Suc i) s))
          else if CHR '':'' \<in> set (take i s) then None
          else if CHR ''['' \<in> set s \<or> CHR '']'' \<in> set s then None
          else Some (take i s, drop (Suc i) s))"

definition host_only :: "string \<Rightarrow> string" where
  "host_only v0 =
     (let v = trim_space v0 in
      case split_host_port v of
        Some (h, p) \<Rightarrow> h
      | None \<Rightarrow>
          if has_prefix v ''['' \<and> has_suffix v '']'' then take (length v - 2) (drop 1 v) else v)"

section \<open>The source of a request\<close>

definition normalise_addr :: "addr \<Rightarrow> addr" where
  "normalise_addr a = without_zone (unmap a)"

fun in_any :: "addr \<Rightarrow> prefix_net list \<Rightarrow> bool" where
  "in_any a [] = False"
| "in_any a (p # ps) =
     (if is4 (px_addr p) \<noteq> is4 a then in_any a ps
      else if prefix_contains p a then True
      else in_any a ps)"

definition forwarded_chain :: "string list \<Rightarrow> string list" where
  "forwarded_chain hs =
     concat (map (\<lambda>h. [p \<leftarrow> map trim_space (split_on (CHR '','') h). p \<noteq> []]) hs)"

text \<open>The loop from the right end of the chain; the list is the chain reversed.\<close>

fun nearest_hop :: "host \<Rightarrow> prefix_net list \<Rightarrow> string list \<Rightarrow> addr option" where
  "nearest_hop h trusted [] = None"
| "nearest_hop h trusted (v # vs) =
     (case hs_parse_addr h (host_only v) of
        None \<Rightarrow> nearest_hop h trusted vs
      | Some a \<Rightarrow>
          if in_any (normalise_addr a) trusted then nearest_hop h trusted vs
          else Some (normalise_addr a))"

definition client_ip :: "host \<Rightarrow> config \<Rightarrow> http_request \<Rightarrow> addr option" where
  "client_ip h c r =
     (case hs_parse_addr h (host_only (ht_remote r)) of
        None \<Rightarrow> None
      | Some p0 \<Rightarrow>
          (let peer = normalise_addr p0; trusted = c_trusted_proxies c in
           if trusted = [] \<or> \<not> in_any peer trusted then Some peer
           else if header_values r ''X-Forwarded-For'' = [] then Some peer
           else (case nearest_hop h trusted (rev (forwarded_chain (header_values r ''X-Forwarded-For''))) of
                   Some a \<Rightarrow> Some a
                 | None \<Rightarrow> Some peer)))"

definition allowed_source :: "host \<Rightarrow> config \<Rightarrow> http_request \<Rightarrow> bool" where
  "allowed_source h c r =
     (if c_allow_from c = [] then True
      else (case client_ip h c r of
              None \<Rightarrow> False
            | Some a \<Rightarrow> in_any a (c_allow_from c)))"

section \<open>Cross-origin requests\<close>

definition origin_allowed :: "string \<Rightarrow> string list \<Rightarrow> bool" where
  "origin_allowed origin allowed = list_ex (\<lambda>a. equal_fold a origin) allowed"

text \<open>
  What the \<open>cors\<close> layer does: a reply of its own (a status) or the next handler, and the
  headers it set.
\<close>

datatype cors_step = CorsRefused | CorsPreflight | CorsNext

definition cors_headers :: "string \<Rightarrow> (string \<times> string) list" where
  "cors_headers origin =
     [(''Vary'', ''Origin''), (''Access-Control-Allow-Origin'', origin),
      (''Access-Control-Allow-Headers'', ''Authorization, Content-Type''),
      (''Access-Control-Allow-Methods'', ''GET, POST, OPTIONS''),
      (''Access-Control-Max-Age'', ''600'')]"

definition cors :: "config \<Rightarrow> http_request \<Rightarrow> cors_step \<times> (string \<times> string) list" where
  "cors c r =
     (let origin = header_get r ''Origin''; options = (ht_method r = ''OPTIONS'') in
      if origin = [] then (CorsNext, [])
      else if \<not> origin_allowed origin (c_cors_origins c)
      then (if options then CorsRefused else CorsNext, [(''Vary'', ''Origin'')])
      else (if options then CorsPreflight else CorsNext, cors_headers origin))"

section \<open>The throttle\<close>

definition auth_window :: duration where "auth_window = minute"
definition max_auth_failures :: nat where "max_auth_failures = 20"
definition max_throttle_keys :: nat where "max_throttle_keys = 4096"

record throttle_entry =
  te_failures :: nat
  te_start :: time

text \<open>\<open>None\<close> is the key \<open>unknown\<close>; two addresses have the same text only when they are equal.\<close>

type_synonym throttle = "(addr option \<times> throttle_entry) list"

definition sweep :: "time \<Rightarrow> throttle \<Rightarrow> throttle" where
  "sweep now a = [p \<leftarrow> a. \<not> auth_window < time_sub now (te_start (snd p))]"

definition make_room :: "time \<Rightarrow> throttle \<Rightarrow> throttle" where
  "make_room now a =
     (let b = (if max_throttle_keys \<le> length a then sweep now a else a)
      in if max_throttle_keys \<le> length b then [] else b)"

definition refresh :: "time \<Rightarrow> throttle_entry \<Rightarrow> throttle_entry" where
  "refresh now e =
     (if auth_window < time_sub now (te_start e) then \<lparr>te_failures = 0, te_start = now\<rparr> else e)"

definition throttle_entry_for ::
  "addr option \<Rightarrow> time \<Rightarrow> throttle \<Rightarrow> throttle_entry \<times> throttle" where
  "throttle_entry_for key now a =
     (case map_of a key of
        Some e \<Rightarrow> (refresh now e, al_put key (refresh now e) a)
      | None \<Rightarrow>
          (let e = refresh now \<lparr>te_failures = 0, te_start = now\<rparr>
           in (e, al_put key e (make_room now a))))"

definition throttle_allow :: "addr option \<Rightarrow> time \<Rightarrow> throttle \<Rightarrow> bool \<times> throttle" where
  "throttle_allow key now a =
     (case throttle_entry_for key now a of (e, a') \<Rightarrow> (te_failures e < max_auth_failures, a'))"

definition throttle_fail :: "addr option \<Rightarrow> time \<Rightarrow> throttle \<Rightarrow> throttle" where
  "throttle_fail key now a =
     (case throttle_entry_for key now a of
        (e, a') \<Rightarrow> al_put key (e\<lparr>te_failures := Suc (te_failures e)\<rparr>) a')"

section \<open>Authentication\<close>

definition bearer_token :: "string \<Rightarrow> string" where
  "bearer_token header =
     (if length header \<le> 7 \<or> \<not> equal_fold (take 7 header) ''bearer '' then []
      else trim_space (drop 7 header))"

text \<open>\<open>hex.DecodeString\<close>.\<close>

definition hex_value :: "char \<Rightarrow> nat option" where
  "hex_value c =
     (if is_digit c then Some (byte c - 48)
      else if 97 \<le> byte c \<and> byte c \<le> 102 then Some (byte c - 87)
      else if 65 \<le> byte c \<and> byte c \<le> 70 then Some (byte c - 55)
      else None)"

fun hex_decode :: "string \<Rightarrow> string option" where
  "hex_decode [] = Some []"
| "hex_decode [c] = None"
| "hex_decode (c # d # s) =
     (case (hex_value c, hex_value d) of
        (Some m, Some n) \<Rightarrow> map_option (\<lambda>rest. chr (m * 16 + n) # rest) (hex_decode s)
      | _ \<Rightarrow> None)"

text \<open>The SHA-256 of a text and the HMAC of a body under a secret.\<close>

record crypto =
  cr_sha256 :: "string \<Rightarrow> string"
  cr_hmac :: "string \<Rightarrow> string \<Rightarrow> string"

definition secrets_equal :: "crypto \<Rightarrow> string \<Rightarrow> string \<Rightarrow> bool" where
  "secrets_equal k a b \<longleftrightarrow> cr_sha256 k a = cr_sha256 k b"

definition verify_signature :: "crypto \<Rightarrow> string \<Rightarrow> string \<Rightarrow> string \<Rightarrow> bool" where
  "verify_signature k secret body header =
     (if \<not> has_prefix header ''sha256='' then False
      else (case hex_decode (trim_space (drop 7 header)) of
              None \<Rightarrow> False
            | Some want \<Rightarrow>
                if length want \<noteq> 32 then False else cr_hmac k secret body = want))"

text \<open>The trigger of an authenticated request, and the throttle; \<open>now\<close> is the clock of \<open>fail\<close>.\<close>

definition authenticate ::
  "host \<Rightarrow> crypto \<Rightarrow> config \<Rightarrow> http_request \<Rightarrow> string \<Rightarrow> time \<Rightarrow> throttle \<Rightarrow> string option \<times> throttle" where
  "authenticate h k c r body now a =
     (let key = client_ip h c r;
          sig = header_get r ''X-Hub-Signature-256'';
          secret = au_gh_secret (c_auth c);
          token = au_bearer (c_auth c);
          presented = bearer_token (header_get r ''Authorization'')
      in if sig \<noteq> [] then
           (if secret = [] \<or> \<not> verify_signature k secret body sig then (None, throttle_fail key now a)
            else (Some ''github'', a))
         else if token = [] \<or> presented = [] \<or> \<not> secrets_equal k token presented
         then (None, throttle_fail key now a)
         else (Some ''api'', a))"

section \<open>The gate in front of the handlers\<close>

definition max_request_bytes :: nat where "max_request_bytes = 1024 * 1024"

datatype gate = GateReply nat "(string \<times> string) list" string | GateOpen string string

definition protected ::
  "host \<Rightarrow> crypto \<Rightarrow> config \<Rightarrow> http_request \<Rightarrow> time \<times> time \<Rightarrow> throttle \<Rightarrow> gate \<times> throttle" where
  "protected h k c r readings a =
     (case throttle_allow (client_ip h c r) (fst readings) a of
        (False, a1) \<Rightarrow>
          (GateReply 429 [(''Retry-After'', ''60'')]
             ''too many failed authentication attempts, try again shortly'', a1)
      | (True, a1) \<Rightarrow>
          if max_request_bytes < length (ht_body r)
          then (GateReply 413 [] ''request body too large'', a1)
          else
            (case authenticate h k c r (ht_body r) (snd readings) a1 of
               (None, a2) \<Rightarrow>
                 (GateReply 401 [(''WWW-Authenticate'', ''Bearer realm='' @ json_quote ''dup'')]
                    ''unauthorised'', a2)
             | (Some trigger, a2) \<Rightarrow> (GateOpen trigger (ht_body r), a2)))"

section \<open>Sources\<close>

text \<open>The headers of a peer that is not a trusted proxy never matter.\<close>

lemma client_ip_untrusted:
  assumes "hs_parse_addr h (host_only (ht_remote r)) = Some p"
    and "\<not> in_any (normalise_addr p) (c_trusted_proxies c)"
  shows "client_ip h c r = Some (normalise_addr p)"
  using assms by (simp add: client_ip_def)

lemma nearest_hop_untrusted: "nearest_hop h trusted vs = Some a \<Longrightarrow> \<not> in_any a trusted"
  by (induction h trusted vs rule: nearest_hop.induct) (auto split: option.splits if_splits)

text \<open>A source found is the peer itself, or a hop that is no proxy, vouched for by a proxy.\<close>

lemma client_ip_cases:
  assumes "client_ip h c r = Some a"
  obtains p where "hs_parse_addr h (host_only (ht_remote r)) = Some p"
    and "a = normalise_addr p
      \<or> in_any (normalise_addr p) (c_trusted_proxies c) \<and> \<not> in_any a (c_trusted_proxies c)"
proof -
  obtain p where p: "hs_parse_addr h (host_only (ht_remote r)) = Some p"
    using assms by (auto simp: client_ip_def split: option.splits)
  have "a = normalise_addr p
      \<or> in_any (normalise_addr p) (c_trusted_proxies c) \<and> \<not> in_any a (c_trusted_proxies c)"
    using assms p
    by (auto simp: client_ip_def Let_def split: option.splits if_splits dest: nearest_hop_untrusted)
  with p show thesis by (rule that)
qed

text \<open>A hop that does not parse is skipped, so the one to its left is believed.\<close>

lemma nearest_hop_skips:
  "hs_parse_addr h (host_only v) = None \<Longrightarrow> nearest_hop h trusted (v # vs) = nearest_hop h trusted vs"
  by simp

section \<open>The throttle, one source at a time\<close>

lemma al_put_length: "length (al_put k v ps) = (if k \<in> fst ` set ps then length ps else Suc (length ps))"
  by (induction ps) auto

lemma map_of_key: "map_of ps k = Some v \<Longrightarrow> k \<in> fst ` set ps"
  by (metis domI dom_map_of_conv_image_fst)

definition throttle_ok :: "throttle \<Rightarrow> bool" where
  "throttle_ok a \<longleftrightarrow> distinct (map fst a) \<and> length a \<le> max_throttle_keys"

lemma make_room_ok: "throttle_ok a \<Longrightarrow> distinct (map fst (make_room now a)) \<and> length (make_room now a) < max_throttle_keys"
  by (auto simp: throttle_ok_def make_room_def Let_def sweep_def distinct_map_filter max_throttle_keys_def)

lemma throttle_entry_ok: "throttle_ok a \<Longrightarrow> throttle_ok (snd (throttle_entry_for key now a))"
  using make_room_ok [of a now]
  by (auto simp: throttle_entry_for_def throttle_ok_def Let_def al_put_length map_of_eq_None_iff
      split: option.splits dest: map_of_key)

lemma throttle_entry_key: "map_of (snd (throttle_entry_for key now a)) key = Some (fst (throttle_entry_for key now a))"
  by (auto simp: throttle_entry_for_def Let_def split: option.splits)

lemma throttle_fail_ok: "throttle_ok a \<Longrightarrow> throttle_ok (throttle_fail key now a)"
  using throttle_entry_ok [of a key now] throttle_entry_key [of key now a]
  by (auto simp: throttle_fail_def throttle_ok_def al_put_length split: prod.splits dest: map_of_key)

text \<open>The operations as a list: the source, the clock, and whether it failed.\<close>

type_synonym throttle_op = "addr option \<times> time \<times> bool"

fun throttle_op :: "throttle_op \<Rightarrow> throttle \<Rightarrow> throttle" where
  "throttle_op (key, now, failed) a =
     (if failed then throttle_fail key now a else snd (throttle_allow key now a))"

definition throttle_run :: "throttle_op list \<Rightarrow> throttle" where
  "throttle_run ops = fold throttle_op ops []"

lemma throttle_op_ok: "throttle_ok a \<Longrightarrow> throttle_ok (throttle_op op a)"
  using throttle_entry_ok
  by (cases op) (auto simp: throttle_fail_ok throttle_allow_def split: prod.split, metis snd_conv)

lemma throttle_run_ok: "throttle_ok (throttle_run ops)"
proof -
  have "throttle_ok (fold throttle_op ops a)" if "throttle_ok a" for a
    using that by (induction ops arbitrary: a) (auto simp del: throttle_op.simps intro: throttle_op_ok)
  then show ?thesis by (simp add: throttle_run_def throttle_ok_def)
qed

text \<open>The reference: one counter per source, which knows of no other.\<close>

definition counter_op :: "time \<Rightarrow> bool \<Rightarrow> throttle_entry option \<Rightarrow> throttle_entry option" where
  "counter_op now failed e =
     (let e' = refresh now (case e of None \<Rightarrow> \<lparr>te_failures = 0, te_start = now\<rparr> | Some x \<Rightarrow> x)
      in Some (if failed then e'\<lparr>te_failures := Suc (te_failures e')\<rparr> else e'))"

definition counter_run :: "addr option \<Rightarrow> throttle_op list \<Rightarrow> throttle_entry option" where
  "counter_run key ops =
     fold (\<lambda>(k, now, failed) e. if k = key then counter_op now failed e else e) ops None"

lemma throttle_op_counter:
  assumes "length a < max_throttle_keys \<or> map_of a (fst op) \<noteq> None"
  shows "map_of (throttle_op op a) key =
    (if fst op = key then counter_op (fst (snd op)) (snd (snd op)) (map_of a key) else map_of a key)"
  using assms
  by (cases op; cases "map_of a (fst op)")
    (auto simp: throttle_fail_def throttle_allow_def throttle_entry_for_def counter_op_def make_room_def Let_def)

lemma throttle_op_keys:
  assumes "length a < max_throttle_keys \<or> map_of a (fst op) \<noteq> None"
  shows "fst ` set (throttle_op op a) = insert (fst op) (fst ` set a)"
proof -
  have "dom (map_of (throttle_op op a)) = insert (fst op) (dom (map_of a))"
    using throttle_op_counter [OF assms] by (auto simp: counter_op_def Let_def dom_def)
  then show ?thesis by (simp add: dom_map_of_conv_image_fst)
qed

lemma throttle_run_counter:
  assumes "card (fst ` set ops) \<le> max_throttle_keys"
  shows "map_of (throttle_run ops) key = counter_run key ops \<and> fst ` set (throttle_run ops) = fst ` set ops"
  using assms
proof (induction ops rule: rev_induct)
  case (snoc op ops)
  have "card (fst ` set ops) \<le> card (fst ` set (ops @ [op]))" by (rule card_mono) auto
  with snoc have IH: "map_of (throttle_run ops) key = counter_run key ops"
    "fst ` set (throttle_run ops) = fst ` set ops" by auto
  have d: "distinct (map fst (throttle_run ops))" using throttle_run_ok by (simp add: throttle_ok_def)
  have room: "length (throttle_run ops) < max_throttle_keys \<or> map_of (throttle_run ops) (fst op) \<noteq> None"
  proof (cases "fst op \<in> fst ` set ops")
    case True
    then show ?thesis using IH(2) by (simp add: map_of_eq_None_iff)
  next
    case False
    then have "card (fst ` set (ops @ [op])) = Suc (card (fst ` set ops))" by simp
    moreover have "card (fst ` set ops) = length (throttle_run ops)"
      using IH(2) d distinct_card [of "map fst (throttle_run ops)"] by simp
    ultimately show ?thesis using snoc.prems by simp
  qed
  show ?case
    using throttle_op_counter [OF room, of key] throttle_op_keys [OF room] IH
    by (cases op) (simp add: throttle_run_def counter_run_def)
qed (simp add: throttle_run_def counter_run_def)

text \<open>A full table of live entries is dropped whole for a new source, lockouts included.\<close>

lemma throttle_overflow:
  assumes "map_of a key = None" and "max_throttle_keys \<le> length a"
    and "list_all (\<lambda>p. time_sub now (te_start (snd p)) \<le> auth_window) a"
  shows "throttle_allow key now a = (True, [(key, \<lparr>te_failures = 0, te_start = now\<rparr>)])"
proof -
  have "sweep now a = a"
    using assms(3) by (auto simp: sweep_def list_all_iff intro!: filter_True)
  then show ?thesis
    using assms(1,2)
    by (simp add: throttle_allow_def throttle_entry_for_def make_room_def Let_def refresh_def
        max_auth_failures_def auth_window_def minute_def second_def)
qed

section \<open>What the gate lets through\<close>

definition authentic :: "crypto \<Rightarrow> config \<Rightarrow> http_request \<Rightarrow> string \<Rightarrow> bool" where
  "authentic k c r trigger \<longleftrightarrow>
     (trigger = ''github'' \<and> au_gh_secret (c_auth c) \<noteq> []
        \<and> verify_signature k (au_gh_secret (c_auth c)) (ht_body r) (header_get r ''X-Hub-Signature-256''))
     \<or> (trigger = ''api'' \<and> au_bearer (c_auth c) \<noteq> []
        \<and> bearer_token (header_get r ''Authorization'') \<noteq> []
        \<and> cr_sha256 k (bearer_token (header_get r ''Authorization'')) = cr_sha256 k (au_bearer (c_auth c)))"

definition gate_ok :: "crypto \<Rightarrow> config \<Rightarrow> http_request \<Rightarrow> gate \<Rightarrow> bool" where
  "gate_ok k c r g =
     (case g of
        GateReply n hs e \<Rightarrow> n \<in> {401, 413, 429}
      | GateOpen trigger body \<Rightarrow>
          body = ht_body r \<and> length body \<le> max_request_bytes \<and> authentic k c r trigger)"

lemma protected_gate: "gate_ok k c r (fst (protected h k c r readings a))"
  by (auto simp: protected_def gate_ok_def authentic_def authenticate_def secrets_equal_def Let_def
      split: prod.splits bool.splits option.splits if_splits)

text \<open>A source that used up its failures is refused before its credentials are looked at.\<close>

lemma protected_locked:
  assumes "map_of a (client_ip h c r) = Some e" and "max_auth_failures \<le> te_failures e"
    and "time_sub (fst readings) (te_start e) \<le> auth_window"
  shows "\<exists>hs m. fst (protected h k c r readings a) = GateReply 429 hs m"
  using assms by (simp add: protected_def throttle_allow_def throttle_entry_for_def refresh_def)

end
