(* ===== verification/Job.thy ===== *)
theory Job
  imports Go_Prelude
begin

text \<open>
  Package \<open>internal/job\<close>, first half of \<open>job.go\<close>: the state of an update job and the \<open>Sink\<close>
  operations a running pipeline reports through.  Closing a closed channel panics in Go, so
  \<open>finish\<close> returns \<open>None\<close> there.  The contract \<open>step_sink\<close> is what the pipeline's reporting
  relies on; it is interpreted on the job itself.
\<close>

section \<open>Job states\<close>

text \<open>
  \<open>State\<close> is a string in the source, and a value that came over the wire may be any string.
\<close>

datatype job_state =
    StateRunning | StateSucceeded | StateNoChange | StateDryRun | StateFailed
  | StateRolledBack | StateRollbackFailed | StateOther string

definition terminal :: "job_state \<Rightarrow> bool" where
  "terminal s \<longleftrightarrow> s \<noteq> StateRunning"

definition state_ok :: "job_state \<Rightarrow> bool" where
  "state_ok s \<longleftrightarrow> s = StateSucceeded \<or> s = StateNoChange \<or> s = StateDryRun"

lemma terminal_simps [simp]:
  "\<not> terminal StateRunning" "terminal StateSucceeded" "terminal StateNoChange"
  "terminal StateDryRun" "terminal StateFailed" "terminal StateRolledBack"
  "terminal StateRollbackFailed" "terminal (StateOther s)"
  by (simp_all add: terminal_def)

section \<open>Records\<close>

record job_request =
  rq_tag :: string
  rq_reason :: string
  rq_trigger :: string
  rq_dry_run :: bool
  rq_force :: bool

record step =
  st_name :: string
  st_command :: string
  st_started :: time
  st_duration :: int
  st_ok :: bool
  st_running :: bool
  st_error :: string
  st_output :: string

record service_state =
  sv_service :: string
  sv_container :: string
  sv_image :: string
  sv_image_id :: string
  sv_state :: string
  sv_health :: string

record snapshot =
  sn_id :: string
  sn_target :: string
  sn_state :: job_state
  sn_message :: string
  sn_trigger :: string
  sn_reason :: string
  sn_requested_tag :: string
  sn_dry_run :: bool
  sn_changed :: "string list"
  sn_before :: "service_state list"
  sn_after :: "service_state list"
  sn_steps :: "step list"
  sn_progress :: "service_state list"
  sn_started :: time
  sn_finished :: "time option"
  sn_duration :: int

record job =
  j_id :: string
  j_target :: string
  j_state :: job_state
  j_message :: string
  j_trigger :: string
  j_reason :: string
  j_requested_tag :: string
  j_dry_run :: bool
  j_changed :: "string list"
  j_before :: "service_state list"
  j_after :: "service_state list"
  j_steps :: "step list"
  j_progress :: "service_state list"
  j_log_bytes :: nat
  j_started :: time
  j_finished :: "time option"
  j_done :: bool

section \<open>Sanitising text\<close>

definition ellipsis :: string where
  "ellipsis = [chr 226, chr 128, chr 166]"

text \<open>One turn of the \<open>range\<close> loop of \<open>sanitise\<close>: what is written for a rune.\<close>

definition sanitise_chunk :: "nat \<times> string \<Rightarrow> string" where
  "sanitise_chunk p =
     (let r = fst p in
      if r = 10 \<or> r = 9 then snd p
      else if r = 13 then []
      else if r < 32 \<or> r = 127 then ufffd
      else if r = 65533 then ufffd
      else snd p)"

definition sanitise :: "string \<Rightarrow> nat \<Rightarrow> string" where
  "sanitise s mx =
     (if s = [] then []
      else (let out = concat (map sanitise_chunk (utf8_chunks s))
            in if 0 < mx \<and> mx < length out then take mx out @ ellipsis else out))"

lemma length_sanitise: "0 < mx \<Longrightarrow> length (sanitise s mx) \<le> mx + 3"
  by (auto simp: sanitise_def Let_def ellipsis_def)

text \<open>A byte a terminal may act on: a C0 control other than newline and tab, or DEL.\<close>

definition control_byte :: "char \<Rightarrow> bool" where
  "control_byte c \<longleftrightarrow> (byte c < 32 \<and> byte c \<noteq> 9 \<and> byte c \<noteq> 10) \<or> byte c = 127"

lemma rune_len_cont:
  "rune_len bs = n \<Longrightarrow> n \<le> length bs \<and> (1 < n \<longrightarrow> (\<forall>b \<in> set (take n bs). 128 \<le> b))"
  by (cases bs; cases "tl bs"; cases "tl (tl bs)"; cases "tl (tl (tl bs))")
    (auto simp: cont_def split: if_splits)

lemma first_len_le: "first_len s \<le> length s"
  using rune_len_cont [OF refl, of "map byte (take 4 s)"] by (simp add: first_len_def)

lemma first_len_le4: "first_len s \<le> 4"
  using rune_len_cont [OF refl, of "map byte (take 4 s)"] by (simp add: first_len_def)

lemma first_len_high:
  assumes "1 < first_len s" and "c \<in> set (take (first_len s) s)"
  shows "128 \<le> byte c"
proof -
  have "\<forall>b \<in> set (take (first_len s) (map byte (take 4 s))). 128 \<le> b"
    using rune_len_cont [OF refl, of "map byte (take 4 s)"] assms(1) by (simp add: first_len_def)
  moreover have "take (first_len s) (map byte (take 4 s)) = map byte (take (first_len s) s)"
    using first_len_le4 [of s] by (simp add: take_map min_def)
  ultimately show ?thesis using assms(2) by auto
qed

text \<open>A chunk is a single ASCII byte, a single byte above it, or bytes above it only.\<close>

lemma utf8_chunk_shape:
  "(r, bs) \<in> set (utf8_chunks s) \<Longrightarrow>
   (\<exists>c. bs = [c] \<and> r = (if byte c < 128 then byte c else 65533)) \<or> (\<forall>c \<in> set bs. 128 \<le> byte c)"
proof (induction s rule: utf8_chunks.induct)
  case (2 c s)
  let ?n = "first_len (c # s)"
  consider "r = rune_value (map byte (take ?n (c # s)))" "bs = take ?n (c # s)"
    | "(r, bs) \<in> set (utf8_chunks (drop (?n - 1) s))"
    using "2.prems" by (auto simp: utf8_chunks.simps(2))
  then show ?case
  proof cases
    case 1
    show ?thesis
    proof (cases "?n = 1")
      case True
      then show ?thesis using 1 by simp
    next
      case False
      with first_len_pos [of c s] have "1 < ?n" by simp
      then show ?thesis using 1 first_len_high [of "c # s"] by blast
    qed
  next
    case 2
    then show ?thesis by (rule "2.IH")
  qed
qed simp

lemma ufffd_clean: "c \<in> set ufffd \<Longrightarrow> \<not> control_byte c"
  by (auto simp: ufffd_def control_byte_def)

lemma ellipsis_clean: "c \<in> set ellipsis \<Longrightarrow> \<not> control_byte c"
  by (auto simp: ellipsis_def control_byte_def)

lemma sanitise_chunk_clean:
  assumes "p \<in> set (utf8_chunks s)" and "c \<in> set (sanitise_chunk p)"
  shows "\<not> control_byte c"
proof -
  obtain r bs where p: "p = (r, bs)" by fastforce
  from utf8_chunk_shape assms(1) p
  have "(\<exists>c. bs = [c] \<and> r = (if byte c < 128 then byte c else 65533)) \<or> (\<forall>c \<in> set bs. 128 \<le> byte c)"
    by blast
  then show ?thesis
    using assms(2) p ufffd_clean
    by (auto simp: sanitise_chunk_def control_byte_def Let_def split: if_splits)
qed

lemma sanitise_clean: "c \<in> set (sanitise s mx) \<Longrightarrow> \<not> control_byte c"
  by (auto simp: sanitise_def Let_def ellipsis_clean dest!: in_set_takeD
      dest: sanitise_chunk_clean split: if_splits)

section \<open>The operations of a job\<close>

definition max_job_log_bytes :: nat where "max_job_log_bytes = 96 * 1024"

definition new_job :: "string \<Rightarrow> time \<Rightarrow> string \<Rightarrow> job_request \<Rightarrow> job" where
  "new_job ident now target req =
     \<lparr>j_id = ident, j_target = target, j_state = StateRunning, j_message = [],
      j_trigger = rq_trigger req, j_reason = sanitise (rq_reason req) 200,
      j_requested_tag = rq_tag req, j_dry_run = rq_dry_run req, j_changed = [],
      j_before = [], j_after = [], j_steps = [], j_progress = [], j_log_bytes = 0,
      j_started = now, j_finished = None, j_done = False\<rparr>"

text \<open>The calls a pipeline makes on its \<open>Sink\<close>.\<close>

datatype sink_call =
    StartStep string
  | SetProgress "service_state list"
  | AddStep step
  | SetBefore "service_state list"
  | SetAfter "service_state list"
  | SetChanged "string list"

definition placeholder :: "string \<Rightarrow> time \<Rightarrow> step" where
  "placeholder name now =
     \<lparr>st_name = name, st_command = [], st_started = now, st_duration = 0, st_ok = False,
      st_running = True, st_error = [], st_output = []\<rparr>"

definition start_step :: "time \<Rightarrow> string \<Rightarrow> job \<Rightarrow> job" where
  "start_step now name j = j\<lparr>j_steps := j_steps j @ [placeholder name now]\<rparr>"

definition log_marker :: string where
  "log_marker = chr 10 # ellipsis @ ''[job log truncated]'' @ ellipsis"

text \<open>The output kept for a step, given the bytes already kept.\<close>

definition clip_output :: "nat \<Rightarrow> string \<Rightarrow> string" where
  "clip_output logged out0 =
     (let out = sanitise out0 max_job_log_bytes in
      if max_job_log_bytes < logged + length out then
        (let remaining = max_job_log_bytes - logged in
         if remaining < length out then take remaining out @ log_marker else out)
      else out)"

definition trailing_running :: "step list \<Rightarrow> bool" where
  "trailing_running ss \<longleftrightarrow> ss \<noteq> [] \<and> st_running (last ss)"

definition add_step :: "step \<Rightarrow> job \<Rightarrow> job" where
  "add_step s0 j =
     (let s = s0\<lparr>st_output := clip_output (j_log_bytes j) (st_output s0)\<rparr>;
          j' = j\<lparr>j_log_bytes := j_log_bytes j + length (st_output s)\<rparr>
      in if trailing_running (j_steps j)
         then j'\<lparr>j_steps := butlast (j_steps j) @ [s]\<rparr>
         else j'\<lparr>j_steps := j_steps j @ [s]\<rparr>)"

fun apply_call :: "time \<Rightarrow> sink_call \<Rightarrow> job \<Rightarrow> job" where
  "apply_call now (StartStep n) j = start_step now n j"
| "apply_call now (SetProgress ss) j = j\<lparr>j_progress := ss\<rparr>"
| "apply_call now (AddStep s) j = add_step s j"
| "apply_call now (SetBefore ss) j = j\<lparr>j_before := ss\<rparr>"
| "apply_call now (SetAfter ss) j = j\<lparr>j_after := ss\<rparr>"
| "apply_call now (SetChanged ss) j = j\<lparr>j_changed := ss\<rparr>"

text \<open>What \<open>finish\<close> does to a step that never reported back.\<close>

definition settle_step :: "time \<Rightarrow> step \<Rightarrow> step" where
  "settle_step now s =
     s\<lparr>st_running := False,
       st_duration := milliseconds (time_sub now (st_started s)),
       st_error := (if st_error s = [] then ''did not complete'' else st_error s)\<rparr>"

definition finish :: "time \<Rightarrow> job_state \<Rightarrow> string \<Rightarrow> job \<Rightarrow> job option" where
  "finish now state message j =
     (if terminal (j_state j) then Some j
      else if j_done j then None
      else Some (j\<lparr>j_progress := [], j_state := state, j_message := sanitise message 1000,
                   j_finished := Some now,
                   j_steps := (if trailing_running (j_steps j)
                               then butlast (j_steps j) @ [settle_step now (last (j_steps j))]
                               else j_steps j),
                   j_done := True\<rparr>))"

definition snapshot_of :: "time \<Rightarrow> job \<Rightarrow> snapshot" where
  "snapshot_of now j =
     \<lparr>sn_id = j_id j, sn_target = j_target j, sn_state = j_state j, sn_message = j_message j,
      sn_trigger = j_trigger j, sn_reason = j_reason j, sn_requested_tag = j_requested_tag j,
      sn_dry_run = j_dry_run j, sn_changed = j_changed j, sn_before = j_before j,
      sn_after = j_after j, sn_steps = j_steps j, sn_progress = j_progress j,
      sn_started = j_started j, sn_finished = j_finished j,
      sn_duration = milliseconds (time_sub (case j_finished j of Some e \<Rightarrow> e | None \<Rightarrow> now)
                                           (j_started j))\<rparr>"

section \<open>Reporting steps\<close>

fun apply_calls :: "(time \<times> sink_call) list \<Rightarrow> job \<Rightarrow> job" where
  "apply_calls [] j = j"
| "apply_calls (c # cs) j = apply_calls cs (apply_call (fst c) (snd c) j)"

lemma apply_calls_append [simp]: "apply_calls (xs @ ys) j = apply_calls ys (apply_calls xs j)"
  by (induction xs arbitrary: j) auto

text \<open>
  \<open>pair_run\<close> reads a sequence of sink calls with the name of the step in progress, if any;
  it fails on a second start, and on a completion whose name is not the one started.
\<close>

fun pair_run :: "string option \<Rightarrow> sink_call list \<Rightarrow> string option option" where
  "pair_run p [] = Some p"
| "pair_run None (StartStep n # cs) = pair_run (Some n) cs"
| "pair_run (Some m) (StartStep n # cs) = None"
| "pair_run (Some n) (AddStep s # cs) =
     (if st_name s = n \<and> \<not> st_running s then pair_run None cs else None)"
| "pair_run None (AddStep s # cs) = None"
| "pair_run p (c # cs) = pair_run p cs"

definition paired :: "sink_call list \<Rightarrow> bool" where
  "paired cs \<longleftrightarrow> pair_run None cs = Some None"

lemma pair_run_append:
  "pair_run p (xs @ ys) = Option.bind (pair_run p xs) (\<lambda>q. pair_run q ys)"
  by (induction p xs rule: pair_run.induct) auto

interpretation paired_log: log_property paired
  by unfold_locales (simp_all add: paired_def pair_run_append)

fun completed :: "sink_call list \<Rightarrow> string list" where
  "completed [] = []"
| "completed (AddStep s # cs) = st_name s # completed cs"
| "completed (c # cs) = completed cs"

text \<open>
  What a consumer of the \<open>Sink\<close> interface may rely on: a start appends a placeholder, a
  completion takes its place, and no other call touches the steps.
\<close>

locale step_sink =
  fixes apply1 :: "time \<Rightarrow> sink_call \<Rightarrow> 's \<Rightarrow> 's"
    and steps :: "'s \<Rightarrow> step list"
  assumes start: "steps (apply1 t (StartStep n) x) = steps x @ [placeholder n t]"
    and complete: "steps x = ss @ [p] \<Longrightarrow> st_running p \<Longrightarrow>
      \<exists>s'. steps (apply1 t (AddStep s) x) = ss @ [s'] \<and> st_name s' = st_name s
            \<and> st_running s' = st_running s"
    and other: "(\<And>n. c \<noteq> StartStep n) \<Longrightarrow> (\<And>s. c \<noteq> AddStep s) \<Longrightarrow> steps (apply1 t c x) = steps x"
begin

lemma pair_run_steps:
  assumes "pair_run p (map snd tcs) = Some None"
    and "p = None \<and> steps x = ss \<or> (\<exists>n t. p = Some n \<and> steps x = ss @ [placeholder n t])"
  shows "\<exists>new. steps (fold (\<lambda>(t, c). apply1 t c) tcs x) = ss @ new
           \<and> map st_name new = completed (map snd tcs) \<and> (\<forall>s \<in> set new. \<not> st_running s)"
  using assms
proof (induction tcs arbitrary: p x ss)
  case (Cons tc tcs)
  obtain t c where tc: "tc = (t, c)" by fastforce
  show ?case
  proof (cases c)
    case (StartStep n)
    with Cons.prems tc have "p = None" "steps x = ss" by (cases p; auto)+
    with Cons.prems tc StartStep show ?thesis
      using Cons.IH [of "Some n" "apply1 t c x" ss] by (auto simp: start)
  next
    case (AddStep s)
    with Cons.prems(1) tc have p: "p = Some (st_name s)" "\<not> st_running s"
      and rest: "pair_run None (map snd tcs) = Some None"
      by (cases p; auto split: if_splits)+
    then obtain t' where "steps x = ss @ [placeholder (st_name s) t']"
      using Cons.prems(2) by auto
    then obtain s' where s': "steps (apply1 t c x) = ss @ [s']"
        "st_name s' = st_name s" "\<not> st_running s'"
      using complete [of x ss "placeholder (st_name s) t'" t s] AddStep p
      by (auto simp: placeholder_def)
    from Cons.IH [OF rest, of "apply1 t c x" "ss @ [s']"] s'(1)
    obtain new where "steps (fold (\<lambda>(t, c). apply1 t c) tcs (apply1 t c x)) = (ss @ [s']) @ new"
        "map st_name new = completed (map snd tcs)" "\<forall>s \<in> set new. \<not> st_running s"
      by auto
    then have "steps (fold (\<lambda>(t, c). apply1 t c) (tc # tcs) x) = ss @ (s' # new)
        \<and> map st_name (s' # new) = completed (map snd (tc # tcs))
        \<and> (\<forall>s \<in> set (s' # new). \<not> st_running s)"
      using s' tc AddStep by simp
    then show ?thesis by blast
  qed (use Cons tc in \<open>cases p; auto simp: other\<close>)+
qed auto

end

lemma trailing_running_snoc [simp]: "trailing_running (ss @ [p]) = st_running p"
  by (simp add: trailing_running_def)

interpretation job_sink: step_sink apply_call j_steps
proof
  show "j_steps (apply_call t (StartStep n) x) = j_steps x @ [placeholder n t]" for t n x
    by (simp add: start_step_def)
next
  fix x :: job and ss p t s
  assume "j_steps x = ss @ [p]" "st_running p"
  then show "\<exists>s'. j_steps (apply_call t (AddStep s) x) = ss @ [s'] \<and> st_name s' = st_name s
      \<and> st_running s' = st_running s"
    by (simp add: add_step_def Let_def)
next
  fix c t and x :: job
  assume "\<And>n. c \<noteq> StartStep n" "\<And>s. c \<noteq> AddStep s"
  then show "j_steps (apply_call t c x) = j_steps x" by (cases c) auto
qed

lemma apply_calls_fold: "apply_calls tcs j = fold (\<lambda>(t, c). apply_call t c) tcs j"
  by (induction tcs arbitrary: j) auto

lemma paired_steps:
  assumes "paired (map snd tcs)"
  shows "\<exists>new. j_steps (apply_calls tcs j) = j_steps j @ new
           \<and> map st_name new = completed (map snd tcs) \<and> (\<forall>s \<in> set new. \<not> st_running s)"
  using job_sink.pair_run_steps [of None tcs j "j_steps j"] assms
  by (simp add: paired_def apply_calls_fold)

lemma length_log_marker [simp]: "length log_marker = 26"
  by (simp add: log_marker_def ellipsis_def)

lemma clip_output_bound:
  "logged + length (clip_output logged out) \<le> max max_job_log_bytes logged + 26"
  by (auto simp: clip_output_def Let_def)

lemma clip_output_clean: "c \<in> set (clip_output n out) \<Longrightarrow> \<not> control_byte c"
proof -
  assume "c \<in> set (clip_output n out)"
  then have "c \<in> set (sanitise out max_job_log_bytes) \<or> c \<in> set log_marker"
    by (auto simp: clip_output_def Let_def dest: in_set_takeD split: if_splits)
  moreover have "\<forall>c \<in> set log_marker. \<not> control_byte c"
    by (simp add: log_marker_def ellipsis_def control_byte_def byte_def chr_def)
  ultimately show ?thesis using sanitise_clean by blast
qed

fun count_adds :: "sink_call list \<Rightarrow> nat" where
  "count_adds [] = 0"
| "count_adds (AddStep s # cs) = Suc (count_adds cs)"
| "count_adds (c # cs) = count_adds cs"

lemma add_step_log_bytes:
  "j_log_bytes (add_step s j) = j_log_bytes j + length (clip_output (j_log_bytes j) (st_output s))"
  by (simp add: add_step_def Let_def)

lemma apply_calls_log_bound:
  "j_log_bytes j \<le> max_job_log_bytes + 26 * k \<Longrightarrow>
   j_log_bytes (apply_calls tcs j) \<le> max_job_log_bytes + 26 * (k + count_adds (map snd tcs))"
proof (induction tcs arbitrary: j k)
  case (Cons tc tcs)
  obtain t c where tc: "tc = (t, c)" by fastforce
  show ?case
  proof (cases c)
    case (AddStep s)
    have "j_log_bytes (add_step s j) \<le> max_job_log_bytes + 26 * Suc k"
      using clip_output_bound [of "j_log_bytes j" "st_output s"] Cons.prems
      by (auto simp: add_step_log_bytes)
    from Cons.IH [OF this] show ?thesis using tc AddStep by simp
  qed (use Cons tc in \<open>auto simp: start_step_def\<close>)
qed simp

section \<open>What a call leaves alone\<close>

lemma apply_call_frame [simp]:
  "j_id (apply_call t c j) = j_id j" "j_target (apply_call t c j) = j_target j"
  "j_state (apply_call t c j) = j_state j" "j_done (apply_call t c j) = j_done j"
  by (cases c; simp add: start_step_def add_step_def Let_def)+

lemma apply_calls_frame [simp]:
  "j_id (apply_calls cs j) = j_id j" "j_target (apply_calls cs j) = j_target j"
  "j_state (apply_calls cs j) = j_state j" "j_done (apply_calls cs j) = j_done j"
  by (induction cs arbitrary: j) auto

lemma finish_frame:
  "finish now st msg j = Some j' \<Longrightarrow> j_id j' = j_id j \<and> j_target j' = j_target j"
  by (auto simp: finish_def split: if_splits)

lemma finish_terminal:
  "finish now st msg j = Some j' \<Longrightarrow> terminal st \<Longrightarrow> terminal (j_state j')"
  by (auto simp: finish_def split: if_splits)

lemma finish_done:
  "finish now st msg j = Some j' \<Longrightarrow> terminal st \<Longrightarrow> j_done j = terminal (j_state j) \<Longrightarrow>
   j_done j' = terminal (j_state j')"
  by (auto simp: finish_def split: if_splits)

lemma finish_idempotent: "terminal (j_state j) \<Longrightarrow> finish now st msg j = Some j"
  by (simp add: finish_def)

lemma new_job_simps [simp]:
  "j_id (new_job i t g q) = i" "j_target (new_job i t g q) = g"
  "j_state (new_job i t g q) = StateRunning" "j_done (new_job i t g q) = False"
  "j_steps (new_job i t g q) = []" "j_log_bytes (new_job i t g q) = 0"
  by (simp_all add: new_job_def)

section \<open>What a job stores\<close>

definition stored_output :: "job \<Rightarrow> nat" where
  "stored_output j = sum_list (map (length \<circ> st_output) (j_steps j))"

lemma stored_output_call:
  "stored_output j \<le> j_log_bytes j \<Longrightarrow> stored_output (apply_call now c j) \<le> j_log_bytes (apply_call now c j)"
proof (cases c)
  case (AddStep s)
  assume le: "stored_output j \<le> j_log_bytes j"
  show ?thesis
  proof (cases "trailing_running (j_steps j)")
    case True
    then obtain ss p where "j_steps j = ss @ [p]"
      by (metis trailing_running_def append_butlast_last_id)
    with True le AddStep show ?thesis by (simp add: stored_output_def add_step_def Let_def)
  qed (use le AddStep in \<open>simp add: stored_output_def add_step_def Let_def\<close>)
qed (simp_all add: stored_output_def start_step_def placeholder_def)

lemma stored_output_calls:
  "stored_output j \<le> j_log_bytes j \<Longrightarrow> stored_output (apply_calls cs j) \<le> j_log_bytes (apply_calls cs j)"
  by (induction cs arbitrary: j) (simp_all add: stored_output_call)

definition clean_text :: "string \<Rightarrow> bool" where
  "clean_text s \<longleftrightarrow> list_all (\<lambda>c. \<not> control_byte c) s"

definition clean_job :: "job \<Rightarrow> bool" where
  "clean_job j \<longleftrightarrow> clean_text (j_message j) \<and> clean_text (j_reason j)
     \<and> list_all (\<lambda>s. clean_text (st_output s)) (j_steps j)"

lemma clean_sanitise [simp]: "clean_text (sanitise s n)"
  unfolding clean_text_def list_all_iff using sanitise_clean by blast

lemma clean_clip [simp]: "clean_text (clip_output n s)"
  unfolding clean_text_def list_all_iff using clip_output_clean by blast

lemma clean_new_job: "clean_job (new_job i now g q)"
  by (simp add: clean_job_def new_job_def) (simp add: clean_text_def)

lemma clean_call: "clean_job j \<Longrightarrow> clean_job (apply_call now c j)"
  by (cases c)
    (auto simp: clean_job_def start_step_def placeholder_def add_step_def Let_def list_all_iff
      dest: in_set_butlastD, simp_all add: clean_text_def)

lemma clean_calls: "clean_job j \<Longrightarrow> clean_job (apply_calls cs j)"
  by (induction cs arbitrary: j) (simp_all add: clean_call)

lemma clean_finish:
  assumes "clean_job j" and "finish now st msg j = Some j'"
  shows "clean_job j'"
proof (cases "trailing_running (j_steps j)")
  case True
  then obtain ss p where "j_steps j = ss @ [p]"
    by (metis trailing_running_def append_butlast_last_id)
  with True assms show ?thesis
    by (auto simp: finish_def clean_job_def settle_step_def split: if_splits)
qed (use assms in \<open>auto simp: finish_def clean_job_def split: if_splits\<close>)

end
