(* ===== verification/Json.thy ===== *)
theory Json
  imports Job
begin

text \<open>
  JSON values as the program's structs and maps encode into them: the tags of the fields, and
  which fields are left out when empty.  An instant is a leaf of its own; its text is RFC 3339.
\<close>

datatype json =
    JNull
  | JBool bool
  | JInt int
  | JStr string
  | JTime time
  | JList "json list"
  | JObj "(string \<times> json) list"

section \<open>Fields\<close>

text \<open>A field, and a field under \<open>omitempty\<close>.\<close>

definition field :: "string \<Rightarrow> json \<Rightarrow> (string \<times> json) list" where
  "field k v = [(k, v)]"

definition opt_str :: "string \<Rightarrow> string \<Rightarrow> (string \<times> json) list" where
  "opt_str k s = (if s = [] then [] else [(k, JStr s)])"

definition opt_bool :: "string \<Rightarrow> bool \<Rightarrow> (string \<times> json) list" where
  "opt_bool k b = (if b then [(k, JBool True)] else [])"

definition opt_list :: "string \<Rightarrow> ('a \<Rightarrow> json) \<Rightarrow> 'a list \<Rightarrow> (string \<times> json) list" where
  "opt_list k f xs = (if xs = [] then [] else [(k, JList (map f xs))])"

definition opt_time :: "string \<Rightarrow> time option \<Rightarrow> (string \<times> json) list" where
  "opt_time k t = (case t of None \<Rightarrow> [] | Some x \<Rightarrow> [(k, JTime x)])"

lemmas field_defs = field_def opt_str_def opt_bool_def opt_list_def opt_time_def

section \<open>The structs of package job\<close>

definition state_text :: "job_state \<Rightarrow> string" where
  "state_text s =
     (case s of
        StateRunning \<Rightarrow> ''running'' | StateSucceeded \<Rightarrow> ''succeeded'' | StateNoChange \<Rightarrow> ''no_change''
      | StateDryRun \<Rightarrow> ''dry_run'' | StateFailed \<Rightarrow> ''failed'' | StateRolledBack \<Rightarrow> ''rolled_back''
      | StateRollbackFailed \<Rightarrow> ''rollback_failed'' | StateOther x \<Rightarrow> x)"

definition json_of_step :: "step \<Rightarrow> json" where
  "json_of_step s = JObj
     (field ''name'' (JStr (st_name s)) @ opt_str ''command'' (st_command s)
      @ field ''started_at'' (JTime (st_started s)) @ field ''duration_ms'' (JInt (st_duration s))
      @ field ''ok'' (JBool (st_ok s)) @ opt_bool ''running'' (st_running s)
      @ opt_str ''error'' (st_error s) @ opt_str ''output'' (st_output s))"

definition json_of_service :: "service_state \<Rightarrow> json" where
  "json_of_service s = JObj
     (field ''service'' (JStr (sv_service s)) @ opt_str ''container'' (sv_container s)
      @ opt_str ''image'' (sv_image s) @ opt_str ''image_id'' (sv_image_id s)
      @ opt_str ''state'' (sv_state s) @ opt_str ''health'' (sv_health s))"

definition json_of_snapshot :: "snapshot \<Rightarrow> json" where
  "json_of_snapshot s = JObj
     (field ''id'' (JStr (sn_id s)) @ field ''target'' (JStr (sn_target s))
      @ field ''state'' (JStr (state_text (sn_state s))) @ opt_str ''message'' (sn_message s)
      @ opt_str ''trigger'' (sn_trigger s) @ opt_str ''reason'' (sn_reason s)
      @ opt_str ''requested_tag'' (sn_requested_tag s) @ opt_bool ''dry_run'' (sn_dry_run s)
      @ opt_list ''changed_services'' JStr (sn_changed s)
      @ opt_list ''before'' json_of_service (sn_before s) @ opt_list ''after'' json_of_service (sn_after s)
      @ opt_list ''steps'' json_of_step (sn_steps s)
      @ opt_list ''progress'' json_of_service (sn_progress s)
      @ field ''started_at'' (JTime (sn_started s)) @ opt_time ''finished_at'' (sn_finished s)
      @ field ''duration_ms'' (JInt (sn_duration s)))"

section \<open>Reading fields back\<close>

fun json_field :: "string \<Rightarrow> json \<Rightarrow> json option" where
  "json_field k (JObj fs) = map_of fs k"
| "json_field k v = None"

definition get_str :: "string \<Rightarrow> json \<Rightarrow> string option" where
  "get_str k v =
     (case json_field k v of
        None \<Rightarrow> Some []
      | Some JNull \<Rightarrow> Some []
      | Some (JStr s) \<Rightarrow> Some s
      | _ \<Rightarrow> None)"

definition get_bool :: "string \<Rightarrow> json \<Rightarrow> bool option" where
  "get_bool k v =
     (case json_field k v of
        None \<Rightarrow> Some False
      | Some JNull \<Rightarrow> Some False
      | Some (JBool b) \<Rightarrow> Some b
      | _ \<Rightarrow> None)"

text \<open>\<open>DisallowUnknownFields\<close>: every name of the object is a field of the struct.\<close>

fun only_fields :: "string list \<Rightarrow> json \<Rightarrow> bool" where
  "only_fields ks (JObj fs) = list_all (\<lambda>f. fst f \<in> set ks) fs"
| "only_fields ks JNull = True"
| "only_fields ks v = False"

end
