(* ===== verification/Go_Order.thy ===== *)
theory Go_Order
  imports Go_Prelude
begin

text \<open>
  Three-way comparisons as Go code writes them, giving -1, 0 or 1.  \<open>comparator\<close> is what a
  caller may assume of one; comparing lists element by element keeps it, and \<open>strings.Compare\<close>
  is the instance for bytes.  The decimal digits of a number are here too.
\<close>

section \<open>Comparators\<close>

definition cmp_int :: "int \<Rightarrow> int \<Rightarrow> int" where
  "cmp_int a b = (if a < b then - 1 else if b < a then 1 else 0)"

text \<open>A shared prefix decides nothing: then the shorter list comes first.\<close>

fun lex_cmp :: "('a \<Rightarrow> 'a \<Rightarrow> int) \<Rightarrow> 'a list \<Rightarrow> 'a list \<Rightarrow> int" where
  "lex_cmp cmp (x # xs) (y # ys) = (if cmp x y \<noteq> 0 then cmp x y else lex_cmp cmp xs ys)"
| "lex_cmp cmp xs ys = cmp_int (int (length xs)) (int (length ys))"

definition byte_cmp :: "char \<Rightarrow> char \<Rightarrow> int" where
  "byte_cmp c d = cmp_int (int (byte c)) (int (byte d))"

text \<open>\<open>strings.Compare\<close>.\<close>

definition str_cmp :: "string \<Rightarrow> string \<Rightarrow> int" where
  "str_cmp s t = lex_cmp byte_cmp s t"

locale comparator =
  fixes cmp :: "'a \<Rightarrow> 'a \<Rightarrow> int"
  assumes zero: "cmp a b = 0 \<longleftrightarrow> a = b"
    and flip: "cmp b a = - cmp a b"
    and trans: "cmp a b < 0 \<Longrightarrow> cmp b c < 0 \<Longrightarrow> cmp a c < 0"
    and unit: "cmp a b \<in> {- 1, 0, 1}"
begin

lemma same [simp]: "cmp a a = 0"
  by (simp add: zero)

lemma less_asym: "cmp a b < 0 \<longleftrightarrow> 0 < cmp b a"
  using flip [of b a] by simp

lemma le_trans: "cmp a b \<le> 0 \<Longrightarrow> cmp b c \<le> 0 \<Longrightarrow> cmp a c \<le> 0"
  using trans [of a b c] zero [of a b] zero [of b c] by (cases "cmp a b = 0"; cases "cmp b c = 0") auto

lemma le_antisym: "cmp a b \<le> 0 \<Longrightarrow> cmp b a \<le> 0 \<Longrightarrow> a = b"
  using flip [of b a] zero [of a b] by simp

lemma le_linear: "cmp a b \<le> 0 \<or> cmp b a \<le> 0"
  using flip [of b a] by linarith

text \<open>Comparing through an injection.\<close>

lemma comparator_inj: "inj f \<Longrightarrow> comparator (\<lambda>a b. cmp (f a) (f b))"
  by (rule comparator.intro, simp add: zero inj_eq, rule flip, rule trans, assumption+, rule unit)

text \<open>The value is decided by the order.\<close>

lemma value_cases: "cmp a b = (if cmp a b < 0 then - 1 else if a = b then 0 else 1)"
  using unit [of a b] zero [of a b] by auto

lemma lex_zero: "lex_cmp cmp xs ys = 0 \<longleftrightarrow> xs = ys"
proof (induction xs arbitrary: ys)
  case (Cons x xs)
  then show ?case by (cases ys) (auto simp: cmp_int_def zero)
qed (cases ys; simp add: cmp_int_def)

lemma lex_flip: "lex_cmp cmp ys xs = - lex_cmp cmp xs ys"
proof (induction xs arbitrary: ys)
  case (Cons x xs)
  show ?case using flip [of _ x] Cons by (cases ys) (auto simp: cmp_int_def zero)
qed (cases ys; simp add: cmp_int_def)

lemma lex_trans: "lex_cmp cmp xs ys < 0 \<Longrightarrow> lex_cmp cmp ys zs < 0 \<Longrightarrow> lex_cmp cmp xs zs < 0"
proof (induction xs arbitrary: ys zs)
  case (Cons x xs)
  obtain y ys' z zs' where l: "ys = y # ys'" "zs = z # zs'"
    using Cons.prems by (cases ys; cases zs) (auto simp: cmp_int_def split: if_splits)
  show ?case
    using Cons.prems Cons.IH [of ys' zs'] trans [of x y z] zero
    unfolding l by (auto split: if_splits)
next
  case Nil
  then show ?case by (cases ys; cases zs) (auto simp: cmp_int_def split: if_splits)
qed

lemma lex_unit: "lex_cmp cmp xs ys \<in> {- 1, 0, 1}"
proof (induction xs arbitrary: ys)
  case (Cons x xs)
  then show ?case using unit by (cases ys) (auto simp: cmp_int_def)
qed (cases ys; simp add: cmp_int_def)

lemma comparator_lex: "comparator (lex_cmp cmp)"
  using lex_unit by unfold_locales (auto simp: lex_zero intro: lex_flip lex_trans)

end

interpretation int_cmp: comparator cmp_int
  by unfold_locales (auto simp: cmp_int_def split: if_splits)

interpretation byte_order: comparator byte_cmp
  by unfold_locales (auto simp: byte_cmp_def cmp_int_def split: if_splits)

interpretation str_order: comparator str_cmp
  unfolding str_cmp_def [abs_def] by (rule byte_order.comparator_lex)

text \<open>A first comparison that decides, and a second for its ties.\<close>

definition then_cmp :: "int \<Rightarrow> int \<Rightarrow> int" where
  "then_cmp a b = (if a \<noteq> 0 then a else b)"

lemma then_cmp_comparator:
  assumes "comparator f" and "comparator g"
  shows "comparator (\<lambda>a b. then_cmp (f (fst a) (fst b)) (g (snd a) (snd b)))"
proof
  note f = comparator.zero [OF assms(1)] comparator.flip [OF assms(1)] comparator.trans [OF assms(1)]
  note g = comparator.zero [OF assms(2)] comparator.flip [OF assms(2)] comparator.trans [OF assms(2)]
  fix a b c :: "'a \<times> 'b"
  let ?h = "\<lambda>a b. then_cmp (f (fst a) (fst b)) (g (snd a) (snd b))"
  show "?h a b = 0 \<longleftrightarrow> a = b" by (auto simp: then_cmp_def f(1) g(1) prod_eq_iff)
  show "?h b a = - ?h a b"
    using f(2) [of "fst b" "fst a"] g(2) [of "snd b" "snd a"] by (auto simp: then_cmp_def)
  show "?h a c < 0" if "?h a b < 0" "?h b c < 0"
    using that f(3) [of "fst a" "fst b" "fst c"] g(3) [of "snd a" "snd b" "snd c"]
      f(1) [of "fst a" "fst b"] f(1) [of "fst b" "fst c"]
    by (auto simp: then_cmp_def split: if_splits)
  show "?h a b \<in> {- 1, 0, 1}"
    using comparator.unit [OF assms(1)] comparator.unit [OF assms(2)] by (auto simp: then_cmp_def)
qed

section \<open>Decimal digits\<close>

lemma nat_digits_step: "nat_digits n = (if n < 10 then [] else nat_digits (n div 10)) @ [chr (48 + n mod 10)]"
  by (subst nat_digits.simps) simp

lemma nat_digits_nonempty [simp]: "nat_digits n \<noteq> []"
  by (subst nat_digits_step) simp

lemma nat_digits_digits: "list_all is_digit (nat_digits n)"
proof (induction n rule: nat_digits.induct)
  case (1 n)
  have "is_digit (chr (48 + n mod 10))" by (simp add: is_digit_def)
  with 1 show ?case by (subst nat_digits_step) simp
qed

lemma digits_value_append:
  "digits_value acc (xs @ ys) = Option.bind (digits_value acc xs) (\<lambda>a. digits_value a ys)"
  by (induction acc xs rule: digits_value.induct) auto

lemma digits_value_nat_digits: "digits_value 0 (nat_digits n) = Some (int n)"
proof (induction n rule: nat_digits.induct)
  case (1 n)
  have d: "is_digit (chr (48 + n mod 10))" "byte (chr (48 + n mod 10)) = 48 + n mod 10"
    by (simp_all add: is_digit_def)
  show ?case
    by (subst nat_digits_step) (use 1 d in \<open>simp add: digits_value_append zdiv_int zmod_int\<close>)
qed

lemma nat_digits_leading: "0 < n \<Longrightarrow> hd (nat_digits n) \<noteq> CHR ''0''"
proof (induction n rule: nat_digits.induct)
  case (1 n)
  have "chr (48 + n) \<noteq> CHR ''0''" if "n < 10"
    using that \<open>0 < n\<close> unfolding byte_inject [symmetric] by (simp add: byte_def [of "CHR ''0''"] del: byte_inject)
  then show ?case using 1 by (subst nat_digits_step) auto
qed

lemma digits_value_ge: "digits_value acc ds = Some v \<Longrightarrow> 0 \<le> acc \<Longrightarrow> acc \<le> v"
proof (induction acc ds arbitrary: v rule: digits_value.induct)
  case (2 acc c cs)
  then have "is_digit c" "digits_value (acc * 10 + int (byte c) - 48) cs = Some v" by (auto split: if_splits)
  with 2 have "acc * 10 + int (byte c) - 48 \<le> v" by (simp add: is_digit_def)
  with 2 \<open>is_digit c\<close> show ?case by (simp add: is_digit_def)
qed simp

text \<open>Digits without a leading zero are the digits of their value.\<close>

lemma canonical_digits:
  assumes "digits_value 0 ds = Some v" and "ds \<noteq> []" and "length ds = 1 \<or> hd ds \<noteq> CHR ''0''"
  shows "ds = nat_digits (nat v)"
  using assms
proof (induction ds arbitrary: v rule: rev_induct)
  case (snoc c ds)
  obtain a where a: "digits_value 0 ds = Some a" "is_digit c" "v = a * 10 + int (byte c) - 48"
    using snoc.prems(1) by (auto simp: digits_value_append split: bind_splits if_splits)
  have c: "48 \<le> byte c" "byte c < 58" using a(2) by (auto simp: is_digit_def)
  show ?case
  proof (cases "ds = []")
    case True
    with a c have "nat v = byte c - 48" by auto
    with True c show ?thesis by (subst nat_digits_step) auto
  next
    case False
    then have hd: "hd ds \<noteq> CHR ''0''" using snoc.prems(3) by auto
    with snoc.IH [OF a(1) False] have ds: "ds = nat_digits (nat a)" by simp
    have "0 \<le> a" using digits_value_ge [OF a(1)] by simp
    moreover have "a \<noteq> 0"
    proof
      assume "a = 0"
      with ds have "ds = [chr 48]" by (simp add: nat_digits_step [of 0])
      moreover have "chr 48 = CHR ''0''"
        unfolding byte_inject [symmetric] by (simp add: byte_def [of "CHR ''0''"] del: byte_inject)
      ultimately show False using hd by simp
    qed
    ultimately have "0 < a" by simp
    obtain k where k: "byte c = 48 + k" "k < 10" using c by (auto simp: le_iff_add)
    have v: "nat v = nat a * 10 + k" using a(3) k \<open>0 < a\<close> by auto
    have "10 \<le> nat v" "nat v div 10 = nat a" "48 + nat v mod 10 = byte c"
      unfolding v using k \<open>0 < a\<close> by auto
    with ds show ?thesis by (subst nat_digits_step) auto
  qed
qed simp

section \<open>Trimming text with ASCII ends\<close>

lemma utf8_chunks_append:
  "list_all (\<lambda>c. byte c < 128) p \<Longrightarrow> utf8_chunks (p @ x) = map (\<lambda>c. (byte c, [c])) p @ utf8_chunks x"
  by (induction p) (auto simp: utf8_chunks_ascii)

lemma trim_space_prefix:
  assumes "list_all (\<lambda>c. byte c < 128) p" and "p \<noteq> []"
    and "\<not> is_space (byte (hd p))" and "\<not> is_space (byte (last p))"
  shows "\<exists>y. trim_space (p @ x) = p @ y" and "trim_space p = p"
proof -
  let ?f = "\<lambda>c. (byte c, [c])"
  obtain p' where p: "p = p' @ [last p]" using assms(2) by (metis append_butlast_last_id)
  have l: "dropWhile (\<lambda>q. is_space (fst q)) (map ?f p @ qs) = map ?f p @ qs" for qs
    using assms(2,3) by (cases p) auto
  have "dropWhile (\<lambda>q. is_space (fst q)) (rev (map ?f p)) = rev (map ?f p)"
    by (subst (1 2) p) (simp add: assms(4))
  then have r: "dropWhile (\<lambda>q. is_space (fst q)) (rev qs @ rev (map ?f p))
      = dropWhile (\<lambda>q. is_space (fst q)) (rev qs) @ rev (map ?f p)" for qs
    by (simp add: dropWhile_append3 dropWhile_append)
  have c: "concat (map snd (map ?f p)) = p" by (induction p) auto
  show "\<exists>y. trim_space (p @ x) = p @ y"
    using c by (simp add: trim_space_def Let_def utf8_chunks_append [OF assms(1)] l r)
  show "trim_space p = p"
    using c utf8_chunks_append [OF assms(1), of "[]"] l [of "[]"] r [of "[]"]
    by (simp add: trim_space_def Let_def)
qed

end
