(* ===== verification/Durations.thy ===== *)
theory Durations
  imports Go_Order
begin

text \<open>
  \<open>time.ParseDuration\<close>.  Amounts are \<open>uint64\<close> values below the overflow checks, so they are
  natural numbers here; the fraction of a unit is computed in \<open>float64\<close> by the library and is
  the argument \<open>frac\<close> (digits after the point, their scale, the unit).
\<close>

definition two63 :: nat where "two63 = 9223372036854775808"

text \<open>\<open>leadingInt\<close>: \<open>None\<close> on overflow.\<close>

fun leading_int :: "nat \<Rightarrow> string \<Rightarrow> (nat \<times> string) option" where
  "leading_int x [] = Some (x, [])"
| "leading_int x (c # s) =
     (if \<not> is_digit c then Some (x, c # s)
      else if two63 div 10 < x then None
      else (let y = x * 10 + (byte c - 48) in if two63 < y then None else leading_int y s))"

text \<open>\<open>leadingFraction\<close>: digits past the range of \<open>int64\<close> are dropped.\<close>

fun leading_fraction :: "nat \<Rightarrow> nat \<Rightarrow> bool \<Rightarrow> string \<Rightarrow> nat \<times> nat \<times> string" where
  "leading_fraction x scale over [] = (x, scale, [])"
| "leading_fraction x scale over (c # s) =
     (if \<not> is_digit c then (x, scale, c # s)
      else if over then leading_fraction x scale True s
      else if (two63 - 1) div 10 < x then leading_fraction x scale True s
      else (let y = x * 10 + (byte c - 48)
            in if two63 < y then leading_fraction x scale True s
               else leading_fraction y (scale * 10) False s))"

definition unit_value :: "string \<Rightarrow> nat option" where
  "unit_value u = map_of
     [(''ns'', 1), (''us'', 1000), ([chr 194, chr 181, CHR ''s''], 1000),
      ([chr 206, chr 188, CHR ''s''], 1000), (''ms'', 1000000), (''s'', 1000000000),
      (''m'', 60000000000), (''h'', 3600000000000)] u"

definition number_char :: "char \<Rightarrow> bool" where
  "number_char c \<longleftrightarrow> c = CHR ''.'' \<or> is_digit c"

text \<open>One number and its unit: the nanoseconds and the rest.\<close>

definition duration_item :: "(nat \<Rightarrow> nat \<Rightarrow> nat \<Rightarrow> nat) \<Rightarrow> string \<Rightarrow> (nat \<times> string) option" where
  "duration_item frac s0 =
     (if s0 = [] \<or> \<not> number_char (hd s0) then None
      else
        (case leading_int 0 s0 of
           None \<Rightarrow> None
         | Some (v, s1) \<Rightarrow>
             (let (f, scale, s2) = (if has_prefix s1 ''.'' then leading_fraction 0 1 False (drop 1 s1) else (0, 1, s1));
                  digits = (length s1 \<noteq> length s0 \<or> length s2 + 1 < length s1);
                  u = takeWhile (\<lambda>c. \<not> number_char c) s2
              in if \<not> digits then None
                 else (case unit_value u of
                         None \<Rightarrow> None
                       | Some unit \<Rightarrow>
                           if two63 div unit < v then None
                           else (let w = v * unit + (if 0 < f then frac f scale unit else 0)
                                 in if two63 < w then None else Some (w, dropWhile (\<lambda>c. \<not> number_char c) s2))))))"

lemma leading_int_shorter: "leading_int x s = Some (v, r) \<Longrightarrow> length r \<le> length s"
  by (induction x s rule: leading_int.induct) (auto simp: Let_def split: if_splits)

lemma leading_fraction_shorter: "leading_fraction x k b s = (f, sc, r) \<Longrightarrow> length r \<le> length s"
proof (induction x k b s rule: leading_fraction.induct)
  case (2 x scale over c s)
  define y where "y = x * 10 + (byte c - 48)"
  from 2 show ?case
    unfolding leading_fraction.simps Let_def y_def [symmetric]
    by (auto split: if_splits)
qed simp

lemma duration_item_shorter:
  assumes "duration_item frac s0 = Some (w, r)"
  shows "length r < length s0"
proof -
  obtain v s1 where 1: "leading_int 0 s0 = Some (v, s1)"
    using assms by (auto simp: duration_item_def split: if_splits option.splits)
  obtain f sc s2 where 2: "(if has_prefix s1 ''.'' then leading_fraction 0 1 False (drop 1 s1) else (0, 1, s1)) = (f, sc, s2)"
    by (metis surj_pair)
  have "length s2 \<le> length s1"
    using 2 leading_fraction_shorter [of 0 1 False "drop 1 s1" f sc s2] by (auto split: if_splits)
  moreover have "length s1 \<le> length s0" using 1 by (rule leading_int_shorter)
  moreover have u: "unit_value (takeWhile (\<lambda>c. \<not> number_char c) s2) \<noteq> None"
    and r: "r = dropWhile (\<lambda>c. \<not> number_char c) s2"
    using assms 1 2 by (auto simp: duration_item_def Let_def split: if_splits option.splits)
  moreover have "takeWhile (\<lambda>c. \<not> number_char c) s2 \<noteq> []"
    using u by (auto simp: unit_value_def)
  then have "length r < length s2"
    using r by (cases s2) (auto split: if_splits intro: le_imp_less_Suc length_dropWhile_le)
  ultimately show ?thesis by linarith
qed

function duration_items :: "(nat \<Rightarrow> nat \<Rightarrow> nat \<Rightarrow> nat) \<Rightarrow> nat \<Rightarrow> string \<Rightarrow> nat option" where
  "duration_items frac d s =
     (if s = [] then Some d
      else (case duration_item frac s of
              None \<Rightarrow> None
            | Some (w, r) \<Rightarrow> if two63 < d + w then None else duration_items frac (d + w) r))"
  by pat_completeness auto
termination
  by (relation "measure (\<lambda>(_, _, s). length s)") (auto intro: duration_item_shorter)

declare duration_items.simps [simp del]

definition parse_duration :: "(nat \<Rightarrow> nat \<Rightarrow> nat \<Rightarrow> nat) \<Rightarrow> string \<Rightarrow> duration option" where
  "parse_duration frac s0 =
     (let neg = has_prefix s0 ''-'';
          s = (if neg \<or> has_prefix s0 ''+'' then drop 1 s0 else s0)
      in if s = ''0'' then Some 0
         else if s = [] then None
         else (case duration_items frac 0 s of
                 None \<Rightarrow> None
               | Some d \<Rightarrow>
                   if neg then Some (- int d)
                   else if two63 - 1 < d then None else Some (int d)))"

lemma duration_items_bound: "duration_items frac d s = Some n \<Longrightarrow> d \<le> two63 \<Longrightarrow> n \<le> two63"
proof (induction frac d s rule: duration_items.induct)
  case (1 frac d s)
  then show ?case by (subst (asm) duration_items.simps) (auto split: if_splits option.splits)
qed

lemma parse_duration_range:
  "parse_duration frac s = Some d \<Longrightarrow> - max_int64 - 1 \<le> d \<and> d \<le> max_int64"
proof -
  assume "parse_duration frac s = Some d"
  then have "d = 0 \<or> (\<exists>r n. duration_items frac 0 r = Some n \<and> (d = - int n \<or> d = int n \<and> n \<le> two63 - 1))"
    by (auto simp: parse_duration_def Let_def split: if_splits option.splits)
  then show ?thesis
    using duration_items_bound [of frac 0] by (auto simp: max_int64_def two63_def)
qed

end
