(* ===== verification/Job_Store.thy ===== *)
theory Job_Store
  imports Job
begin

text \<open>
  Package \<open>internal/job\<close>, second half of \<open>job.go\<close>: the bounded in-memory \<open>Store\<close>.

  A \<open>*Job\<close> is an address into a heap, because the store holds the same job in its \<open>jobs\<close>
  and \<open>running\<close> maps and a pipeline keeps writing to it.  What a mutex makes atomic is one
  function here; \<open>store_step\<close> interleaves them, and \<open>store_inv\<close> holds in every state it
  reaches.  Identifiers come from \<open>crypto/rand\<close>: a new one is assumed to be unused.
\<close>

section \<open>The store\<close>

definition default_history :: nat where "default_history = 200"

record store =
  s_heap :: "nat \<Rightarrow> job option"
  s_next :: nat
  s_jobs :: "(string \<times> nat) list"
  s_order :: "string list"
  s_running :: "(string \<times> nat) list"
  s_history :: nat

definition new_store :: store where
  "new_store = \<lparr>s_heap = Map.empty, s_next = 0, s_jobs = [], s_order = [], s_running = [],
                s_history = default_history\<rparr>"

text \<open>The eviction loop of \<open>Begin\<close>.\<close>

fun evict :: "nat \<Rightarrow> string list \<Rightarrow> (string \<times> nat) list \<Rightarrow> string list \<times> (string \<times> nat) list" where
  "evict keep [] js = ([], js)"
| "evict keep (oldest # rest) js =
     (if keep < length (oldest # rest) then evict keep rest (al_del oldest js)
      else (oldest # rest, js))"

datatype begin_error = ErrBusy

text \<open>
  \<open>Begin\<close>; the identifier and the clock are what \<open>newID\<close> and \<open>time.Now\<close> returned.  The
  address is that of the job the call returns, the running one when the target is busy.
\<close>

definition store_begin ::
  "string \<Rightarrow> time \<Rightarrow> string \<Rightarrow> job_request \<Rightarrow> store \<Rightarrow> store \<times> nat \<times> begin_error option" where
  "store_begin ident now target req s =
     (case map_of (s_running s) target of
        Some r \<Rightarrow> (s, r, Some ErrBusy)
      | None \<Rightarrow>
          (let r = s_next s;
               (ord, js) = evict (s_history s) (s_order s @ [ident]) (al_put ident r (s_jobs s))
           in (s\<lparr>s_heap := (s_heap s)(r \<mapsto> new_job ident now target req), s_next := Suc r,
                 s_running := al_put target r (s_running s), s_jobs := js, s_order := ord\<rparr>,
               r, None)))"

text \<open>A sink call of the pipeline that holds the job at address \<open>r\<close>.\<close>

definition store_call :: "time \<Rightarrow> nat \<Rightarrow> sink_call \<Rightarrow> store \<Rightarrow> store" where
  "store_call now r c s = s\<lparr>s_heap := (s_heap s)(r := map_option (apply_call now c) (s_heap s r))\<rparr>"

text \<open>The two critical sections of \<open>Complete\<close>: \<open>j.finish\<close>, then the removal under \<open>s.mu\<close>.\<close>

definition store_finish :: "time \<Rightarrow> nat \<Rightarrow> job_state \<Rightarrow> string \<Rightarrow> store \<Rightarrow> store option" where
  "store_finish now r state message s =
     (case s_heap s r of
        None \<Rightarrow> None
      | Some j \<Rightarrow> map_option (\<lambda>j'. s\<lparr>s_heap := (s_heap s)(r \<mapsto> j')\<rparr>) (finish now state message j))"

definition store_unregister :: "nat \<Rightarrow> store \<Rightarrow> store" where
  "store_unregister r s =
     (case s_heap s r of
        None \<Rightarrow> s
      | Some j \<Rightarrow>
          (case map_of (s_running s) (j_target j) of
             Some cur \<Rightarrow> (if map_option j_id (s_heap s cur) = Some (j_id j)
                          then s\<lparr>s_running := al_del (j_target j) (s_running s)\<rparr> else s)
           | None \<Rightarrow> s))"

definition store_complete :: "time \<Rightarrow> nat \<Rightarrow> job_state \<Rightarrow> string \<Rightarrow> store \<Rightarrow> store option" where
  "store_complete now r state message s =
     map_option (store_unregister r) (store_finish now r state message s)"

definition store_get :: "string \<Rightarrow> store \<Rightarrow> nat option" where
  "store_get ident s = map_of (s_jobs s) ident"

definition store_running :: "string \<Rightarrow> store \<Rightarrow> nat option" where
  "store_running target s = map_of (s_running s) target"

text \<open>The loop of \<open>List\<close> over the order reversed; \<open>acc\<close> is the slice built so far.\<close>

fun collect :: "store \<Rightarrow> string \<Rightarrow> nat \<Rightarrow> job list \<Rightarrow> string list \<Rightarrow> job list" where
  "collect s target limit acc [] = acc"
| "collect s target limit acc (i # is) =
     (case Option.bind (map_of (s_jobs s) i) (s_heap s) of
        None \<Rightarrow> collect s target limit acc is
      | Some j \<Rightarrow>
          if target \<noteq> [] \<and> j_target j \<noteq> target then collect s target limit acc is
          else if 0 < limit \<and> limit \<le> length (acc @ [j]) then acc @ [j]
          else collect s target limit (acc @ [j]) is)"

definition strip_snapshot :: "snapshot \<Rightarrow> snapshot" where
  "strip_snapshot sn = sn\<lparr>sn_steps := [], sn_before := [], sn_after := []\<rparr>"

definition store_list :: "time \<Rightarrow> string \<Rightarrow> nat \<Rightarrow> store \<Rightarrow> snapshot list" where
  "store_list now target limit s =
     map (\<lambda>j. strip_snapshot (snapshot_of now j)) (collect s target limit [] (rev (s_order s)))"

text \<open>
  \<open>DrainRunning\<close> picks some running job and waits for its channel; it returns when there
  is none.  \<open>drain_pick\<close> is the selection under the lock.
\<close>

definition drain_pick :: "store \<Rightarrow> nat option" where
  "drain_pick s = (case s_running s of [] \<Rightarrow> None | (t, r) # _ \<Rightarrow> Some r)"

section \<open>Interleavings\<close>

text \<open>
  \<open>Complete\<close> removes a job only after \<open>finish\<close>, so the removal of \<open>r\<close> needs a terminal job.
\<close>

inductive store_step :: "store \<Rightarrow> store \<Rightarrow> bool" where
  begin_job: "\<forall>r j. s_heap s r = Some j \<longrightarrow> j_id j \<noteq> ident \<Longrightarrow>
     store_step s (fst (store_begin ident now target req s))"
| report: "store_step s (store_call now r c s)"
| finish_job: "store_finish now r st msg s = Some s' \<Longrightarrow> terminal st \<Longrightarrow> store_step s s'"
| unregister: "s_heap s r = Some j \<Longrightarrow> terminal (j_state j) \<Longrightarrow>
     store_step s (store_unregister r s)"

inductive store_reachable :: "store \<Rightarrow> bool" where
  start: "store_reachable new_store"
| step: "store_reachable s \<Longrightarrow> store_step s s' \<Longrightarrow> store_reachable s'"

inductive_simps store_step_simps: "store_step s s'"

section \<open>The invariant\<close>

definition heap_inv :: "store \<Rightarrow> bool" where
  "heap_inv s \<longleftrightarrow> (\<forall>r \<ge> s_next s. s_heap s r = None)
     \<and> (\<forall>r j. s_heap s r = Some j \<longrightarrow> j_done j = terminal (j_state j))
     \<and> (\<forall>r r' j j'. s_heap s r = Some j \<longrightarrow> s_heap s r' = Some j' \<longrightarrow> j_id j = j_id j' \<longrightarrow> r = r')"

definition running_inv :: "store \<Rightarrow> bool" where
  "running_inv s \<longleftrightarrow> distinct (map fst (s_running s))
     \<and> (\<forall>t r. map_of (s_running s) t = Some r \<longrightarrow> (\<exists>j. s_heap s r = Some j \<and> j_target j = t))
     \<and> (\<forall>r j. s_heap s r = Some j \<longrightarrow> \<not> terminal (j_state j) \<longrightarrow>
              map_of (s_running s) (j_target j) = Some r)"

definition jobs_inv :: "store \<Rightarrow> bool" where
  "jobs_inv s \<longleftrightarrow> distinct (map fst (s_jobs s)) \<and> distinct (s_order s)
     \<and> fst ` set (s_jobs s) = set (s_order s) \<and> length (s_order s) \<le> s_history s
     \<and> (\<forall>i r. map_of (s_jobs s) i = Some r \<longrightarrow> (\<exists>j. s_heap s r = Some j \<and> j_id j = i))"

definition store_inv :: "store \<Rightarrow> bool" where
  "store_inv s \<longleftrightarrow> heap_inv s \<and> running_inv s \<and> jobs_inv s"

lemmas store_inv_defs = store_inv_def heap_inv_def running_inv_def jobs_inv_def

lemma jobs_entry:
  "store_inv s \<Longrightarrow> map_of (s_jobs s) i = Some r \<Longrightarrow> \<exists>j. s_heap s r = Some j \<and> j_id j = i"
  by (simp add: store_inv_defs)

lemma running_entry:
  "store_inv s \<Longrightarrow> map_of (s_running s) t = Some r \<Longrightarrow> \<exists>j. s_heap s r = Some j \<and> j_target j = t"
  by (simp add: store_inv_defs)

lemma running_registered:
  "store_inv s \<Longrightarrow> s_heap s r = Some j \<Longrightarrow> \<not> terminal (j_state j) \<Longrightarrow>
   map_of (s_running s) (j_target j) = Some r"
  by (simp add: store_inv_defs)

lemma store_inv_new: "store_inv new_store"
  by (simp add: store_inv_defs new_store_def)

text \<open>The eviction loop keeps the newest identifiers, at most \<open>keep\<close> of them.\<close>

lemma evict_order: "fst (evict keep ord js) = drop (length ord - keep) ord"
  by (induction keep ord js rule: evict.induct) (auto simp: Suc_diff_le)

lemma evict_keys:
  assumes "distinct ord" and "distinct (map fst js)" and "fst ` set js = set ord"
    and "evict keep ord js = (ord', js')"
  shows "distinct (map fst js') \<and> fst ` set js' = set ord'"
  using assms
proof (induction keep ord js rule: evict.induct)
  case (2 keep oldest rest js)
  show ?case
  proof (cases "keep < length (oldest # rest)")
    case True
    have "fst ` set (al_del oldest js) = set rest" using 2 by auto
    with True 2 show ?thesis by auto
  qed (use 2 in auto)
qed auto

lemma evict_lookup:
  "evict keep ord js = (ord', js') \<Longrightarrow> map_of js' i = Some r \<Longrightarrow> map_of js i = Some r"
  by (induction keep ord js rule: evict.induct) (auto split: if_splits)

lemma evict_length: "evict keep ord js = (ord', js') \<Longrightarrow> length ord' \<le> keep"
  using evict_order [of keep ord js] by simp

section \<open>Every operation keeps it\<close>

lemma store_begin_busy:
  "map_of (s_running s) target = Some r \<Longrightarrow>
   store_begin ident now target req s = (s, r, Some ErrBusy)"
  by (simp add: store_begin_def)

lemma store_begin_free:
  assumes "map_of (s_running s) target = None"
    and "store_begin ident now target req s = (s', r, e)"
  shows "e = None \<and> r = s_next s \<and> s_next s' = Suc r
    \<and> s_heap s' = (s_heap s)(r \<mapsto> new_job ident now target req)
    \<and> s_running s' = al_put target r (s_running s) \<and> s_history s' = s_history s
    \<and> evict (s_history s) (s_order s @ [ident]) (al_put ident r (s_jobs s)) = (s_order s', s_jobs s')"
  using assms by (auto simp: store_begin_def Let_def split: prod.splits)

lemma store_begin_inv:
  assumes inv: "store_inv s" and fresh: "\<forall>r j. s_heap s r = Some j \<longrightarrow> j_id j \<noteq> ident"
  shows "store_inv (fst (store_begin ident now target req s))"
proof (cases "map_of (s_running s) target")
  case None
  obtain s' r e where b: "store_begin ident now target req s = (s', r, e)"
    using prod_cases3 by blast
  note n = store_begin_free [OF None b]
  from inv have free: "s_heap s r = None" using n by (simp add: store_inv_defs)
  have unlisted: "ident \<notin> set (s_order s)"
  proof
    assume "ident \<in> set (s_order s)"
    with inv have "ident \<in> fst ` set (s_jobs s)" by (simp add: store_inv_defs)
    then obtain r' where "map_of (s_jobs s) ident = Some r'"
      by (metis map_of_eq_None_iff not_None_eq)
    with jobs_entry [OF inv this] fresh show False by blast
  qed
  have "heap_inv s'"
    using inv n fresh by (auto simp: store_inv_defs)
  moreover have "running_inv s'"
  proof -
    have "map_of (s_running s) t \<noteq> Some r" for t
      using running_entry [OF inv, of t r] free by auto
    moreover have "terminal (j_state j)" if "s_heap s ra = Some j" "j_target j = target" for ra j
      using running_registered [OF inv that(1)] None that(2) by auto
    ultimately show ?thesis using inv n by (auto simp: store_inv_defs)
  qed
  moreover have "jobs_inv s'"
    unfolding jobs_inv_def
  proof (intro conjI allI impI)
    have js: "distinct (map fst (al_put ident r (s_jobs s)))"
      "distinct (s_order s @ [ident])"
      "fst ` set (al_put ident r (s_jobs s)) = set (s_order s @ [ident])"
      using inv unlisted by (auto simp: store_inv_defs)
    note k = evict_keys [OF js(2,1,3) conjunct2 [OF conjunct2 [OF conjunct2 [OF conjunct2
        [OF conjunct2 [OF conjunct2 [OF n]]]]]]]
    show "distinct (map fst (s_jobs s'))" "fst ` set (s_jobs s') = set (s_order s')"
      using k by simp_all
    show "distinct (s_order s')"
      using n evict_order [of "s_history s" "s_order s @ [ident]" "al_put ident r (s_jobs s)"] js(2)
      by (metis distinct_drop fst_conv)
    show "length (s_order s') \<le> s_history s'"
      using n evict_length by metis
    fix i ra
    assume "map_of (s_jobs s') i = Some ra"
    then have "map_of (al_put ident r (s_jobs s)) i = Some ra"
      using n evict_lookup by metis
    then show "\<exists>j. s_heap s' ra = Some j \<and> j_id j = i"
      using n free jobs_entry [OF inv, of i ra] by (cases "i = ident") auto
  qed
  ultimately show ?thesis using b by (simp add: store_inv_def)
qed (use inv in \<open>simp add: store_begin_def\<close>)

text \<open>An update of one job that keeps its identity keeps the invariant when it is monotone.\<close>

lemma heap_update_inv:
  assumes inv: "store_inv s" and j: "s_heap s r = Some j"
    and id: "j_id j' = j_id j" "j_target j' = j_target j"
    and dn: "j_done j' = terminal (j_state j')"
    and mono: "terminal (j_state j) \<Longrightarrow> terminal (j_state j')"
  shows "store_inv (s\<lparr>s_heap := (s_heap s)(r \<mapsto> j')\<rparr>)"
proof -
  have "heap_inv (s\<lparr>s_heap := (s_heap s)(r \<mapsto> j')\<rparr>)"
    using inv j id dn by (auto simp: store_inv_defs)
  moreover have "running_inv (s\<lparr>s_heap := (s_heap s)(r \<mapsto> j')\<rparr>)"
    using inv j id mono by (auto simp: store_inv_defs) (metis option.inject)+
  moreover have "jobs_inv (s\<lparr>s_heap := (s_heap s)(r \<mapsto> j')\<rparr>)"
    using inv j id by (auto simp: store_inv_defs) (metis option.inject)+
  ultimately show ?thesis by (simp add: store_inv_def)
qed

lemma store_call_inv: "store_inv s \<Longrightarrow> store_inv (store_call now r c s)"
proof (cases "s_heap s r")
  case None
  assume "store_inv s"
  with None show ?thesis by (simp add: store_call_def fun_upd_idem)
next
  case (Some j)
  assume inv: "store_inv s"
  then have "j_done j = terminal (j_state j)" using Some by (simp add: store_inv_defs)
  with heap_update_inv [OF inv Some, of "apply_call now c j"] Some show ?thesis
    by (simp add: store_call_def)
qed

lemma store_finish_inv:
  assumes "store_inv s" and "store_finish now r st msg s = Some s'" and "terminal st"
  shows "store_inv s'"
proof -
  obtain j j' where j: "s_heap s r = Some j" and f: "finish now st msg j = Some j'"
    and s': "s' = s\<lparr>s_heap := (s_heap s)(r \<mapsto> j')\<rparr>"
    using assms(2) by (auto simp: store_finish_def split: option.splits)
  have "j_done j = terminal (j_state j)" using assms(1) j by (simp add: store_inv_defs)
  with finish_done [OF f assms(3)] have "j_done j' = terminal (j_state j')" by simp
  with heap_update_inv [OF assms(1) j, of j'] finish_frame [OF f] finish_terminal [OF f assms(3)] s'
  show ?thesis by simp
qed

text \<open>The entry removed is the job's own: no other job has its identifier.\<close>

lemma store_unregister_running:
  assumes inv: "store_inv s" and j: "s_heap s r = Some j"
  shows "s_running (store_unregister r s) =
    (if map_of (s_running s) (j_target j) = Some r then al_del (j_target j) (s_running s)
     else s_running s)"
proof (cases "map_of (s_running s) (j_target j)")
  case (Some cur)
  with inv obtain jc where jc: "s_heap s cur = Some jc" by (fastforce simp: store_inv_defs)
  then have "j_id jc = j_id j \<longleftrightarrow> cur = r"
    using inv j by (auto simp: store_inv_defs)
  with Some j jc show ?thesis by (auto simp: store_unregister_def)
qed (use j in \<open>simp add: store_unregister_def\<close>)

lemma store_unregister_frame [simp]:
  "s_heap (store_unregister r s) = s_heap s" "s_next (store_unregister r s) = s_next s"
  "s_jobs (store_unregister r s) = s_jobs s" "s_order (store_unregister r s) = s_order s"
  "s_history (store_unregister r s) = s_history s"
  by (auto simp: store_unregister_def split: option.splits)

lemma store_unregister_inv:
  assumes inv: "store_inv s" and j: "s_heap s r = Some j" and t: "terminal (j_state j)"
  shows "store_inv (store_unregister r s)"
proof -
  have "running_inv (store_unregister r s)"
    unfolding running_inv_def store_unregister_frame store_unregister_running [OF inv j]
    using inv j t by (auto simp: store_inv_defs) (metis option.inject)
  moreover have "heap_inv (store_unregister r s)" "jobs_inv (store_unregister r s)"
    using inv by (simp_all add: store_inv_def heap_inv_def jobs_inv_def)
  ultimately show ?thesis by (simp add: store_inv_def)
qed

lemma store_step_inv: "store_step s s' \<Longrightarrow> store_inv s \<Longrightarrow> store_inv s'"
  by (induction rule: store_step.induct)
    (auto intro: store_begin_inv store_call_inv store_finish_inv store_unregister_inv)

lemma store_reachable_inv: "store_reachable s \<Longrightarrow> store_inv s"
  by (induction rule: store_reachable.induct) (auto intro: store_inv_new store_step_inv)

lemma store_step_history: "store_step s s' \<Longrightarrow> s_history s' = s_history s"
  by (induction rule: store_step.induct)
    (auto simp: store_begin_def store_call_def store_finish_def Let_def split: option.splits prod.splits)

lemma store_reachable_history: "store_reachable s \<Longrightarrow> s_history s = default_history"
  by (induction rule: store_reachable.induct) (auto simp: new_store_def dest: store_step_history)

end
