(* ===== verification/Manager.thy ===== *)
theory Manager
  imports Job_Store Config
begin

text \<open>
  \<open>internal/job/manager.go\<close>: starting an update, and what happens when it is over.  The
  goroutines it spawns and the calls it makes on its collaborators are a list of actions, in
  the order of the source; \<open>update_starter\<close> is what the scheduler relies on.
\<close>

section \<open>The manager\<close>

record manager =
  mg_notifier :: bool
  mg_recorder :: bool
  mg_on_done :: bool

datatype manager_action =
    NotifyStarted snapshot
  | SpawnRun nat
  | OnDone string snapshot
  | RecordJob snapshot
  | NotifyDone snapshot

definition manager_busy :: "string \<Rightarrow> store \<Rightarrow> bool" where
  "manager_busy target s = (store_running target s \<noteq> None)"

definition job_at :: "store \<Rightarrow> nat \<Rightarrow> job" where
  "job_at s r = the (s_heap s r)"

definition manager_start ::
  "manager \<Rightarrow> string \<Rightarrow> time \<Rightarrow> target \<Rightarrow> job_request \<Rightarrow> store
   \<Rightarrow> (begin_error option \<times> nat \<times> manager_action list) \<times> store" where
  "manager_start m ident now t req s =
     (case store_begin ident now (t_name t) req s of
        (s', r, Some e) \<Rightarrow> ((Some e, r, []), s')
      | (s', r, None) \<Rightarrow>
          ((None, r,
            (if mg_notifier m then [NotifyStarted (snapshot_of now (job_at s' r))] else [])
            @ [SpawnRun r]), s'))"

text \<open>\<open>run\<close> from the return of \<open>Backend.Update\<close> on; \<open>None\<close> is the panic of a second close.\<close>

definition run_result :: "string + job_state \<times> string \<Rightarrow> job_state \<times> string" where
  "run_result res =
     (case res of
        Inl e \<Rightarrow> (StateFailed, ''lost contact with the update agent, the stack may be mid-update: '' @ e)
      | Inr r \<Rightarrow> r)"

definition manager_done ::
  "manager \<Rightarrow> time \<Rightarrow> nat \<Rightarrow> string + job_state \<times> string \<Rightarrow> store
   \<Rightarrow> (manager_action list \<times> store) option" where
  "manager_done m now r res s =
     (case store_complete now r (fst (run_result res)) (snd (run_result res)) s of
        None \<Rightarrow> None
      | Some s' \<Rightarrow>
          (let snap = snapshot_of now (job_at s' r) in
           Some ((if mg_on_done m then [OnDone (sn_target snap) snap] else [])
                 @ (if mg_recorder m then [RecordJob snap] else [])
                 @ (if mg_notifier m then [NotifyDone snap] else []), s')))"

section \<open>The contract of a starter\<close>

text \<open>
  What a client that starts updates on its own may assume: a start is refused exactly while
  the target is busy, a refusal changes nothing, a start makes its target busy and no other.
\<close>

locale update_starter =
  fixes busy :: "string \<Rightarrow> 's \<Rightarrow> bool"
    and start :: "target \<Rightarrow> job_request \<Rightarrow> 's \<Rightarrow> bool \<times> 's"
  assumes starts: "fst (start t req s) \<longleftrightarrow> \<not> busy (t_name t) s"
    and started: "fst (start t req s) \<Longrightarrow> busy (t_name t) (snd (start t req s))"
    and refused: "\<not> fst (start t req s) \<Longrightarrow> snd (start t req s) = s"
    and others: "n \<noteq> t_name t \<Longrightarrow> busy n (snd (start t req s)) = busy n s"
begin

lemma start_twice:
  "fst (start t req s) \<Longrightarrow> t_name t' = t_name t \<Longrightarrow> \<not> fst (start t' req' (snd (start t req s)))"
  by (simp add: starts started)

lemma busy_mono: "busy n s \<Longrightarrow> busy n (snd (start t req s))"
  using starts started refused others by metis

text \<open>A list of start requests: every target is started at most once.\<close>

fun start_all :: "(target \<times> job_request) list \<Rightarrow> 's \<Rightarrow> string list \<times> 's" where
  "start_all [] s = ([], s)"
| "start_all ((t, q) # rest) s =
     (let (ok, s1) = start t q s; (ns, s2) = start_all rest s1
      in (if ok then t_name t # ns else ns, s2))"

lemma start_all_distinct:
  "distinct (fst (start_all ts s)) \<and> (\<forall>n \<in> set (fst (start_all ts s)). \<not> busy n s)"
proof (induction ts arbitrary: s)
  case (Cons tq ts)
  obtain t q where tq: "tq = (t, q)" by (cases tq)
  have step: "distinct (fst (start_all ts (snd (start t q s))))"
      "\<forall>n \<in> set (fst (start_all ts (snd (start t q s)))). \<not> busy n (snd (start t q s))"
    using Cons.IH by blast+
  moreover have "\<not> busy n s" if "\<not> busy n (snd (start t q s))" for n
    using that busy_mono by blast
  ultimately show ?case
    using tq starts [of t q s] started [of t q s]
    by (auto simp: Let_def split: prod.split)
qed simp

end

definition manager_starts ::
  "manager \<Rightarrow> string \<Rightarrow> time \<Rightarrow> target \<Rightarrow> job_request \<Rightarrow> store \<Rightarrow> bool \<times> store" where
  "manager_starts m ident now t req s =
     (case manager_start m ident now t req s of ((e, r, as), s') \<Rightarrow> (e = None, s'))"

lemma manager_starts_eq:
  "manager_starts m ident now t req s =
     (\<not> manager_busy (t_name t) s, fst (store_begin ident now (t_name t) req s))"
  by (auto simp: manager_starts_def manager_start_def manager_busy_def store_running_def store_begin_def Let_def
      split: option.splits prod.splits)

lemma running_after_begin:
  "s_running (fst (store_begin ident now n req s)) =
     (if manager_busy n s then s_running s else al_put n (s_next s) (s_running s))"
  by (auto simp: manager_busy_def store_running_def store_begin_def Let_def split: option.splits prod.splits)

lemma store_begin_refused: "manager_busy n s \<Longrightarrow> fst (store_begin ident now n req s) = s"
  by (auto simp: manager_busy_def store_running_def store_begin_def)

interpretation mgr: update_starter manager_busy "manager_starts m ident now" for m ident now
proof
  show "fst (manager_starts m ident now t req s) \<longleftrightarrow> \<not> manager_busy (t_name t) s" for t req s
    by (simp add: manager_starts_eq)
  show "manager_busy (t_name t) (snd (manager_starts m ident now t req s))"
    if "fst (manager_starts m ident now t req s)" for t req s
    using that running_after_begin [of ident now "t_name t" req s]
    by (simp add: manager_starts_eq manager_busy_def store_running_def)
  show "snd (manager_starts m ident now t req s) = s"
    if "\<not> fst (manager_starts m ident now t req s)" for t req s
    using that by (simp add: manager_starts_eq store_begin_refused)
  show "manager_busy n (snd (manager_starts m ident now t req s)) = manager_busy n s"
    if "n \<noteq> t_name t" for n t req s
    using that running_after_begin [of ident now "t_name t" req s]
    by (simp add: manager_starts_eq manager_busy_def store_running_def)
qed

section \<open>Completion\<close>

lemma finish_some:
  "j_done j = terminal (j_state j) \<Longrightarrow> \<exists>j'. finish now st msg j = Some j'"
  by (auto simp: finish_def)

text \<open>Completing a job in a reachable store never panics and frees the target.\<close>

lemma complete_frees:
  assumes "store_inv s" and "s_heap s r = Some j" and "\<not> terminal (j_state j)"
  shows "\<exists>s' j'. store_complete now r st msg s = Some s' \<and> s_heap s' r = Some j'
    \<and> finish now st msg j = Some j' \<and> map_of (s_running s') (j_target j) = None"
proof -
  have "j_done j = terminal (j_state j)" using assms(1,2) by (simp add: store_inv_defs)
  then obtain j' where j': "finish now st msg j = Some j'" using finish_some by blast
  have frame: "j_id j' = j_id j" "j_target j' = j_target j" using finish_frame [OF j'] by auto
  have "map_of (s_running s) (j_target j) = Some r" using running_registered [OF assms] .
  with j' frame assms(2) show ?thesis
    by (auto simp: store_complete_def store_finish_def store_unregister_def)
qed

lemma manager_done_actions:
  assumes "store_inv s" and "s_heap s r = Some j" and "\<not> terminal (j_state j)"
  shows "\<exists>as s' j'. manager_done m now r res s = Some (as, s')
    \<and> finish now (fst (run_result res)) (snd (run_result res)) j = Some j'
    \<and> \<not> manager_busy (j_target j) s'
    \<and> (mg_on_done m \<longrightarrow> OnDone (j_target j) (snapshot_of now j') \<in> set as)"
proof -
  obtain s' j' where c: "store_complete now r (fst (run_result res)) (snd (run_result res)) s = Some s'"
      "s_heap s' r = Some j'" "finish now (fst (run_result res)) (snd (run_result res)) j = Some j'"
      "map_of (s_running s') (j_target j) = None"
    using complete_frees [OF assms] by blast
  have "j_target j' = j_target j" using finish_frame [OF c(3)] by simp
  with c show ?thesis
    by (auto simp: manager_done_def job_at_def manager_busy_def store_running_def Let_def snapshot_of_def)
qed

end
