(* ===== verification/Compose.thy ===== *)
theory Compose
  imports Config Job
begin

text \<open>
  Package \<open>internal/compose\<close>: running docker and reading what it prints.

  Everything outside the program (the docker CLI, the clock, the host, the text that the
  JSON decoder reads) is a field of the record \<open>docker\<close>, an argument of every definition, and
  acts on an abstract world \<open>'w\<close>.  The effects of a run are a computation over the state
  \<open>run\<close>: the world, and the trace of what was done to it, i.e. the processes run and the
  calls made on the job's sink, in order, each with the time at which it was made.  The
  program never reads the trace.
\<close>

section \<open>Contexts\<close>

text \<open>
  A context is the caller's, or one derived from it.  \<open>ctx_done_at\<close> is the instant at which it
  is done and why: the earlier of the parent's and its own deadline.
\<close>

datatype ctx_error = Canceled | DeadlineExceeded

datatype ctx = CallerCtx | WithDeadline ctx time | WithoutCancel ctx

fun ctx_done_at :: "(time \<times> ctx_error) option \<Rightarrow> ctx \<Rightarrow> (time \<times> ctx_error) option" where
  "ctx_done_at root CallerCtx = root"
| "ctx_done_at root (WithoutCancel c) = None"
| "ctx_done_at root (WithDeadline c d) =
     (case ctx_done_at root c of
        Some (t, e) \<Rightarrow> if t \<le> d then Some (t, e) else Some (d, DeadlineExceeded)
      | None \<Rightarrow> Some (d, DeadlineExceeded))"

definition ctx_error_text :: "ctx_error \<Rightarrow> string" where
  "ctx_error_text e =
     (case e of Canceled \<Rightarrow> ''context canceled'' | DeadlineExceeded \<Rightarrow> ''context deadline exceeded'')"

section \<open>Containers and the entries docker prints\<close>

record container =
  ct_service :: string
  ct_name :: string
  ct_state :: string
  ct_health :: string
  ct_image :: string
  ct_image_id :: string

record ps_entry =
  pe_name :: string
  pe_service :: string
  pe_state :: string
  pe_status :: string
  pe_health :: string
  pe_image :: string

record cmd_result =
  rs_args :: "string list"
  rs_output :: string
  rs_err :: "string option"

definition running :: "container \<Rightarrow> bool" where
  "running c = equal_fold (ct_state c) ''running''"

definition healthy :: "container \<Rightarrow> bool" where
  "healthy c = (to_lower (ct_health c) = [] \<or> to_lower (ct_health c) = ''healthy'')"

definition terminal_container :: "container \<Rightarrow> bool" where
  "terminal_container c =
     (let s = to_lower (ct_state c) in s = ''exited'' \<or> s = ''dead'' \<or> s = ''removing'')"

section \<open>The world\<close>

record 'w docker =
  dk_bin :: string
  dk_host :: "'w \<Rightarrow> host"
  dk_clock :: "'w \<Rightarrow> time \<times> 'w"
  dk_caller_done :: "'w \<Rightarrow> (time \<times> ctx_error) option"
  dk_run :: "string \<Rightarrow> string list \<Rightarrow> string \<Rightarrow> string list \<Rightarrow> ctx \<Rightarrow> 'w \<Rightarrow> (string \<times> string option) \<times> 'w"
  dk_wait :: "ctx \<Rightarrow> time \<Rightarrow> 'w \<Rightarrow> bool \<times> 'w"
  dk_look_path :: "string \<Rightarrow> 'w \<Rightarrow> string option"
  dk_services :: "string \<Rightarrow> string + (string \<times> string) list"
  dk_ps_array :: "string \<Rightarrow> string + ps_entry list"
  dk_ps_entry :: "string \<Rightarrow> string + ps_entry"

datatype event =
    Ran string "string list" cmd_result
  | RanHook string "string list" "string option"
  | Called sink_call

record 'w run =
  r_world :: 'w
  r_trace :: "event list"
  r_stamps :: "time list"

type_synonym ('w, 'a) act = "('w run, 'a) state"

text \<open>\<open>compose.New\<close>.\<close>

definition runner_bin :: "string \<Rightarrow> string" where
  "runner_bin bin = (if bin = [] then ''docker'' else bin)"

section \<open>Elementary effects\<close>

definition world_get :: "('w \<Rightarrow> 'a) \<Rightarrow> ('w, 'a) act" where
  "world_get f = State (\<lambda>s. (f (r_world s), s))"

definition world_do :: "('w \<Rightarrow> 'a \<times> 'w) \<Rightarrow> ('w, 'a) act" where
  "world_do f = State (\<lambda>s. (fst (f (r_world s)), s\<lparr>r_world := snd (f (r_world s))\<rparr>))"

definition emit :: "'w docker \<Rightarrow> event \<Rightarrow> ('w, unit) act" where
  "emit d e = State (\<lambda>s. ((), s\<lparr>r_trace := r_trace s @ [e],
     r_stamps := r_stamps s @ [fst (dk_clock d (r_world s))]\<rparr>))"

definition clock :: "'w docker \<Rightarrow> ('w, time) act" where
  "clock d = world_do (dk_clock d)"

definition ctx_err :: "'w docker \<Rightarrow> ctx \<Rightarrow> ('w, ctx_error option) act" where
  "ctx_err d c = do {
     n \<leftarrow> clock d;
     root \<leftarrow> world_get (dk_caller_done d);
     State_Monad.return (case ctx_done_at root c of
         Some (t, e) \<Rightarrow> if t \<le> n then Some e else None
       | None \<Rightarrow> None)
   }"

definition with_timeout :: "'w docker \<Rightarrow> ctx \<Rightarrow> duration \<Rightarrow> ('w, ctx) act" where
  "with_timeout d c dur = do {
     n \<leftarrow> clock d;
     State_Monad.return (WithDeadline c (n + dur))
   }"

section \<open>Running docker\<close>

definition max_output_bytes :: nat where "max_output_bytes = 64 * 1024"

definition truncated_mark :: string where
  "truncated_mark = ellipsis @ ''[truncated]'' @ ellipsis @ [chr 10]"

text \<open>\<open>truncate\<close> of this package and \<open>truncateOutput\<close> of the pipeline differ in the limit only.\<close>

definition truncate_to :: "nat \<Rightarrow> string \<Rightarrow> string" where
  "truncate_to mx s = (if length s \<le> mx then s else truncated_mark @ drop (length s - mx) s)"

definition truncate :: "string \<Rightarrow> string" where
  "truncate s = truncate_to max_output_bytes s"

definition passthrough_env :: "string list" where
  "passthrough_env =
     [''PATH'', ''HOME'', ''USER'', ''LANG'', ''TZ'',
      ''DOCKER_CONFIG'', ''DOCKER_CERT_PATH'', ''DOCKER_TLS_VERIFY'',
      ''SSL_CERT_FILE'', ''SSL_CERT_DIR'',
      ''HTTP_PROXY'', ''HTTPS_PROXY'', ''NO_PROXY'',
      ''http_proxy'', ''https_proxy'', ''no_proxy'']"

definition overridden :: "string list \<Rightarrow> string list" where
  "overridden extra =
     map (\<lambda>kv. fst (cut (CHR ''='') kv)) [kv \<leftarrow> extra. snd (snd (cut (CHR ''='') kv))]"

definition child_env :: "host \<Rightarrow> string list \<Rightarrow> string list" where
  "child_env h extra =
     concat (map (\<lambda>key.
        if key \<in> set (overridden extra) then []
        else (case hs_getenv h key of
                Some v \<Rightarrow> [key @ ''='' @ v]
              | None \<Rightarrow> [])) passthrough_env)
     @ extra"

definition exec_docker ::
  "'w docker \<Rightarrow> ctx \<Rightarrow> string \<Rightarrow> string list \<Rightarrow> string list \<Rightarrow> ('w, cmd_result) act" where
  "exec_docker d c wd env args = do {
     h \<leftarrow> world_get (dk_host d);
     r \<leftarrow> world_do (dk_run d (dk_bin d) args wd (child_env h env) c);
     ce \<leftarrow> ctx_err d c;
     let res = \<lparr>rs_args = args, rs_output = truncate (fst r),
                rs_err = (if ce = Some DeadlineExceeded
                          then Some (''timed out: '' @ ctx_error_text DeadlineExceeded)
                          else snd r)\<rparr>;
     emit d (Ran wd env res);
     State_Monad.return res
   }"

definition base_args :: "target \<Rightarrow> string list" where
  "base_args t =
     [''compose'']
     @ (if t_compose_file t \<noteq> [] then [''-f'', t_compose_file t] else [])
     @ (if t_env_file t \<noteq> [] then [''--env-file'', t_env_file t] else [])"

definition append_services :: "string list \<Rightarrow> string list \<Rightarrow> string list" where
  "append_services args services = (if services = [] then args else args @ [''--''] @ services)"

definition wrap_output :: "string \<Rightarrow> string \<Rightarrow> string \<Rightarrow> string" where
  "wrap_output pre err out = pre @ '': '' @ err @ '' ('' @ trim_space out @ '')''"

definition verify :: "'w docker \<Rightarrow> ctx \<Rightarrow> ('w, string option) act" where
  "verify d c = do {
     miss \<leftarrow> world_get (dk_look_path d (dk_bin d));
     case miss of
       Some e \<Rightarrow> State_Monad.return
           (Some (''docker binary '' @ quote (dk_bin d) @ '' not found in PATH: '' @ e))
     | None \<Rightarrow> do {
         res \<leftarrow> exec_docker d c [] [] [''compose'', ''version'', ''--short''];
         State_Monad.return
           (map_option (\<lambda>e. wrap_output ''docker compose unavailable'' e (rs_output res)) (rs_err res))
       }
   }"

definition validate :: "'w docker \<Rightarrow> ctx \<Rightarrow> target \<Rightarrow> string list \<Rightarrow> ('w, cmd_result) act" where
  "validate d c t env = exec_docker d c (t_dir t) env (base_args t @ [''config'', ''--quiet''])"

definition desired_images ::
  "'w docker \<Rightarrow> ctx \<Rightarrow> target \<Rightarrow> string list \<Rightarrow> ('w, (string \<times> string) list \<times> cmd_result) act" where
  "desired_images d c t env = do {
     res \<leftarrow> exec_docker d c (t_dir t) env (base_args t @ [''config'', ''--format'', ''json'']);
     State_Monad.return
       (if rs_err res \<noteq> None then ([], res)
        else (case dk_services d (rs_output res) of
                Inl e \<Rightarrow> ([], res\<lparr>rs_err := Some (''parse compose config: '' @ e)\<rparr>)
              | Inr svcs \<Rightarrow> ([p \<leftarrow> svcs. snd p \<noteq> []], res)))
   }"

definition pull ::
  "'w docker \<Rightarrow> ctx \<Rightarrow> target \<Rightarrow> string list \<Rightarrow> string list \<Rightarrow> ('w, cmd_result) act" where
  "pull d c t env services =
     exec_docker d c (t_dir t) env (append_services (base_args t @ [''pull'']) services)"

definition up_args :: "target \<Rightarrow> string list \<Rightarrow> bool \<Rightarrow> string list" where
  "up_args t services force_recreate =
     append_services (base_args t @ [''up'', ''-d'', ''--no-build'']
                      @ (if force_recreate then [''--force-recreate''] else [])) services"

definition up ::
  "'w docker \<Rightarrow> ctx \<Rightarrow> target \<Rightarrow> string list \<Rightarrow> string list \<Rightarrow> bool \<Rightarrow> ('w, cmd_result) act" where
  "up d c t env services force_recreate =
     exec_docker d c (t_dir t) env (up_args t services force_recreate)"

definition tag_image :: "'w docker \<Rightarrow> ctx \<Rightarrow> string \<Rightarrow> string \<Rightarrow> ('w, cmd_result) act" where
  "tag_image d c image_id ref = exec_docker d c [] [] [''tag'', ''--'', image_id, ref]"

definition image_exists :: "'w docker \<Rightarrow> ctx \<Rightarrow> string \<Rightarrow> ('w, bool) act" where
  "image_exists d c image_id = do {
     res \<leftarrow> exec_docker d c [] [] [''image'', ''inspect'', ''--format'', ''{{.Id}}'', image_id];
     State_Monad.return (rs_err res = None)
   }"

definition image_id :: "'w docker \<Rightarrow> ctx \<Rightarrow> string \<Rightarrow> ('w, string + string) act" where
  "image_id d c ref = do {
     res \<leftarrow> exec_docker d c [] [] [''image'', ''inspect'', ''--format'', ''{{.Id}}'', ref];
     State_Monad.return
       (case rs_err res of
          Some e \<Rightarrow> Inl (wrap_output (''inspect image '' @ ref) e (rs_output res))
        | None \<Rightarrow> Inr (trim_space (rs_output res)))
   }"

definition docker_output :: "'w docker \<Rightarrow> ctx \<Rightarrow> string list \<Rightarrow> ('w, string + string) act" where
  "docker_output d c args = do {
     res \<leftarrow> exec_docker d c [] [] args;
     State_Monad.return
       (case rs_err res of
          Some e \<Rightarrow> Inl (wrap_output (dk_bin d @ '' '' @ join '' '' args) e (rs_output res))
        | None \<Rightarrow> Inr (rs_output res))
   }"

section \<open>Listing containers\<close>

definition health_from_status :: "string \<Rightarrow> string" where
  "health_from_status status =
     (let s = to_lower status in
      if contains s ''(healthy)'' then ''healthy''
      else if contains s ''(unhealthy)'' then ''unhealthy''
      else if contains s ''health: starting'' then ''starting''
      else [])"

definition container_of :: "ps_entry \<Rightarrow> container" where
  "container_of e =
     \<lparr>ct_service = pe_service e, ct_name = pe_name e, ct_state = pe_state e,
      ct_health = (if pe_health e = [] then health_from_status (pe_status e) else pe_health e),
      ct_image = pe_image e, ct_image_id = []\<rparr>"

fun parse_ps_lines :: "(string \<Rightarrow> string + ps_entry) \<Rightarrow> string list \<Rightarrow> string + ps_entry list" where
  "parse_ps_lines dec [] = Inr []"
| "parse_ps_lines dec (l # ls) =
     (let line = trim_space l in
      if line = [] then parse_ps_lines dec ls
      else (case dec line of
              Inl e \<Rightarrow> Inl (''parse compose ps line: '' @ e)
            | Inr p \<Rightarrow> (case parse_ps_lines dec ls of Inl e \<Rightarrow> Inl e | Inr ps \<Rightarrow> Inr (p # ps))))"

definition parse_ps :: "'w docker \<Rightarrow> string \<Rightarrow> string + container list" where
  "parse_ps d out0 =
     (let out = trim_space out0 in
      if out = [] then Inr []
      else (case (if has_prefix out ''['' then
                    (case dk_ps_array d out of
                       Inl e \<Rightarrow> Inl (''parse compose ps: '' @ e)
                     | Inr es \<Rightarrow> Inr es)
                  else parse_ps_lines (dk_ps_entry d) (split_on (chr 10) out)) of
              Inl e \<Rightarrow> Inl e
            | Inr es \<Rightarrow> Inr (map container_of [e \<leftarrow> es. pe_name e \<noteq> []])))"

text \<open>The map \<open>byName\<close>: the image ID and the image reference of every inspected container.\<close>

definition inspect_lines :: "string \<Rightarrow> (string \<times> string \<times> string) list" where
  "inspect_lines out =
     List.map_filter (\<lambda>line.
        case split_on (chr 9) (trim_space line) of
          [n, i, r] \<Rightarrow> Some (trim_prefix n ''/'', i, r)
        | _ \<Rightarrow> None) (split_on (chr 10) out)"

definition attach_one :: "(string \<rightharpoonup> string \<times> string) \<Rightarrow> container \<Rightarrow> container" where
  "attach_one by_name c =
     (case by_name (ct_name c) of
        None \<Rightarrow> c
      | Some (i, r) \<Rightarrow> c\<lparr>ct_image_id := i, ct_image := (if r \<noteq> [] then r else ct_image c)\<rparr>)"

definition attach_image_ids ::
  "'w docker \<Rightarrow> ctx \<Rightarrow> container list \<Rightarrow> ('w, string option \<times> container list) act" where
  "attach_image_ids d c cs =
     (if cs = [] then State_Monad.return (None, cs)
      else do {
        res \<leftarrow> exec_docker d c [] []
          ([''inspect'', ''--type'', ''container'', ''--format'',
            ''{{.Name}}'' @ [chr 9] @ ''{{.Image}}'' @ [chr 9] @ ''{{.Config.Image}}'']
           @ map ct_name cs);
        State_Monad.return
          (case rs_err res of
             Some e \<Rightarrow> (Some (wrap_output ''docker inspect'' e (rs_output res)), cs)
           | None \<Rightarrow> (None, map (attach_one (map_of (rev (inspect_lines (rs_output res))))) cs))
      })"

definition containers ::
  "'w docker \<Rightarrow> ctx \<Rightarrow> target \<Rightarrow> string list \<Rightarrow> ('w, container list \<times> cmd_result) act" where
  "containers d c t env = do {
     res \<leftarrow> exec_docker d c (t_dir t) env (base_args t @ [''ps'', ''--all'', ''--format'', ''json'']);
     if rs_err res \<noteq> None then State_Monad.return ([], res)
     else (case parse_ps d (rs_output res) of
             Inl e \<Rightarrow> State_Monad.return ([], res\<lparr>rs_err := Some e\<rparr>)
           | Inr cs \<Rightarrow> do {
               r \<leftarrow> attach_image_ids d c cs;
               State_Monad.return (snd r, (case fst r of
                   Some e \<Rightarrow> res\<lparr>rs_err := Some e\<rparr>
                 | None \<Rightarrow> res))
             })
   }"

definition project_name :: "string \<Rightarrow> string" where
  "project_name d = base d"

section \<open>The environment of a child\<close>

text \<open>An entry that assigns the variable \<open>k\<close>.\<close>

definition assigns :: "string \<Rightarrow> string \<Rightarrow> bool" where
  "assigns k kv \<longleftrightarrow> fst (cut (CHR ''='') kv) = k \<and> snd (snd (cut (CHR ''='') kv))"

lemma passthrough_plain: "k \<in> set passthrough_env \<Longrightarrow> CHR ''='' \<notin> set k"
  by (auto simp: passthrough_env_def)

lemma assigns_entry [simp]: "CHR ''='' \<notin> set k \<Longrightarrow> assigns j (k @ CHR ''='' # v) \<longleftrightarrow> j = k"
  by (auto simp: assigns_def)

text \<open>A variable the caller sets has the caller's entries and no inherited one.\<close>

lemma child_env_override:
  assumes "k \<in> set (overridden extra)"
  shows "filter (assigns k) (child_env h extra) = filter (assigns k) extra"
proof -
  have "filter (assigns k) (if key \<in> set (overridden extra) then []
      else case hs_getenv h key of Some v \<Rightarrow> [key @ ''='' @ v] | None \<Rightarrow> []) = []"
    if "key \<in> set passthrough_env" for key
    using assms passthrough_plain [OF that] by (auto split: option.split)
  then show ?thesis by (simp add: child_env_def filter_concat)
qed

text \<open>Nothing is inherited but the variables of the list.\<close>

lemma child_env_closed:
  assumes "kv \<in> set (child_env h extra)"
  shows "kv \<in> set extra \<or> (\<exists>k v. k \<in> set passthrough_env \<and> k \<notin> set (overridden extra)
    \<and> hs_getenv h k = Some v \<and> kv = k @ ''='' @ v)"
  using assms by (auto simp: child_env_def split: if_splits option.splits)

end
