(* ===== verification/Pipeline.thy ===== *)
theory Pipeline
  imports Compose
begin

text \<open>
  Package \<open>internal/pipeline\<close>: one update of one stack, from validation to the health check and
  the rollback, as a computation over the state \<open>run\<close> of theory \<open>Compose\<close>.

  The health loop polls until a deadline of the wall clock, so it is given fuel: a result
  \<open>None\<close> means that the fuel ran out, and \<open>wait_loop_returns\<close> shows how much is enough under the
  laws of the clock and the ticker.
\<close>

section \<open>Constants\<close>

definition health_poll_interval :: duration where "health_poll_interval = 3 * second"
definition fail_fast_grace :: duration where "fail_fast_grace = 20 * second"
definition rollback_slack :: duration where "rollback_slack = 5 * minute"

section \<open>Results of a check\<close>

record check_result =
  cr_available :: bool
  cr_changed :: "string list"
  cr_message :: string

record images_result =
  ir_images :: "(string \<times> string) list"
  ir_registries :: "string list"

section \<open>Image references\<close>

definition tagged_ref :: "string \<Rightarrow> string" where
  "tagged_ref ref = (if ref = [] \<or> has_prefix ref ''sha256:'' then [] else ref)"

definition lookup_image :: "(string \<times> string) list \<Rightarrow> string \<Rightarrow> string" where
  "lookup_image desired s = (case map_of desired s of None \<Rightarrow> [] | Some r \<Rightarrow> r)"

definition image_ref :: "(string \<times> string) list \<Rightarrow> container \<Rightarrow> string" where
  "image_ref desired c =
     (let ref = tagged_ref (lookup_image desired (ct_service c))
      in if ref \<noteq> [] then ref else tagged_ref (ct_image c))"

definition repository :: "string \<Rightarrow> string" where
  "repository ref0 =
     (let ref = (case last_index (CHR ''@'') ref0 of Some i \<Rightarrow> take i ref0 | None \<Rightarrow> ref0)
      in case last_index (CHR '':'') ref of
           None \<Rightarrow> ref
         | Some i \<Rightarrow>
             (case last_index (CHR ''/'') ref of
                None \<Rightarrow> take i ref
              | Some k \<Rightarrow> if k < i then take i ref else ref))"

definition ref_tag :: "string \<Rightarrow> string" where
  "ref_tag ref =
     (if ref = [] \<or> contains ref ''@'' \<or> has_prefix ref ''sha256:'' then []
      else
        (let name = (case last_index (CHR ''/'') ref of Some i \<Rightarrow> drop (Suc i) ref | None \<Rightarrow> ref)
         in case last_index (CHR '':'') name of
              None \<Rightarrow> []
            | Some i \<Rightarrow> if valid_image_tag (drop (Suc i) name) then drop (Suc i) name else []))"

definition registry_host :: "string \<Rightarrow> string" where
  "registry_host ref =
     (case cut (CHR ''/'') ref of
        (head, _, ok) \<Rightarrow>
          if \<not> ok then []
          else if head = ''localhost'' \<or> contains_any head ''.:'' then head
          else [])"

section \<open>Services\<close>

definition wanted :: "target \<Rightarrow> string \<Rightarrow> bool" where
  "wanted t service \<longleftrightarrow> t_services t = [] \<or> service \<in> set (t_services t)"

definition watched_only :: "container list \<Rightarrow> string list \<Rightarrow> container list" where
  "watched_only cs hs = (if hs = [] then cs else [c \<leftarrow> cs. ct_service c \<in> set hs])"

definition health_targets :: "target \<Rightarrow> container list \<Rightarrow> string list" where
  "health_targets t prior =
     (if t_services t \<noteq> [] then t_services t else map ct_service [c \<leftarrow> prior. running c])"

text \<open>The last container of a service wins, as in the map the source builds.\<close>

definition index_by_service :: "container list \<Rightarrow> string \<rightharpoonup> container" where
  "index_by_service cs = map_of (rev (map (\<lambda>c. (ct_service c, c)) cs))"

fun settled_services :: "(string \<rightharpoonup> container) \<Rightarrow> string list \<Rightarrow> bool \<times> string" where
  "settled_services m [] = (True, [])"
| "settled_services m (s # ss) =
     (case m s of
        None \<Rightarrow> (False, s @ '' has no container'')
      | Some c \<Rightarrow>
          if \<not> running c then (False, s @ '' is '' @ ct_state c)
          else if \<not> healthy c then (False, s @ '' is '' @ ct_health c)
          else settled_services m ss)"

definition settled :: "container list \<Rightarrow> string list \<Rightarrow> bool \<times> string" where
  "settled cs services =
     (if services = [] then
        (if list_ex (\<lambda>c. running c \<and> healthy c) cs then (True, [])
         else (False, ''no container is running''))
      else settled_services (index_by_service cs) services)"

definition all_settled :: "container list \<Rightarrow> string list \<Rightarrow> bool" where
  "all_settled cs services = fst (settled cs services)"

fun crashed_service :: "(string \<rightharpoonup> container) \<Rightarrow> string list \<Rightarrow> string option" where
  "crashed_service m [] = None"
| "crashed_service m (s # ss) =
     (case m s of
        None \<Rightarrow> Some s
      | Some c \<Rightarrow> if terminal_container c then Some s else crashed_service m ss)"

definition crashed :: "container list \<Rightarrow> string list \<Rightarrow> string option" where
  "crashed cs services = crashed_service (index_by_service cs) services"

definition previous_tag :: "target \<Rightarrow> container list \<Rightarrow> string" where
  "previous_tag t prior =
     (if t_image_tag_env t = [] then []
      else (case [c \<leftarrow> prior. wanted t (ct_service c) \<and> ref_tag (ct_image c) \<noteq> []] of
              [] \<Rightarrow> []
            | c # _ \<Rightarrow> ref_tag (ct_image c)))"

definition target_env :: "host \<Rightarrow> target \<Rightarrow> string \<Rightarrow> string list" where
  "target_env h t tag =
     (if has_docker_config h t then [''DOCKER_CONFIG='' @ t_docker_cfg t] else [])
     @ (if t_image_tag_env t \<noteq> [] \<and> tag \<noteq> [] then [t_image_tag_env t @ ''='' @ tag] else [])"

section \<open>Texts\<close>

definition to_service_states :: "container list \<Rightarrow> service_state list" where
  "to_service_states cs =
     map (\<lambda>c. \<lparr>sv_service = ct_service c, sv_container = ct_name c, sv_image = ct_image c,
               sv_image_id = ct_image_id c, sv_state = ct_state c, sv_health = ct_health c\<rparr>) cs"

definition tab :: string where "tab = [chr 9]"
definition newline :: string where "newline = [chr 10]"

definition describe :: "container list \<Rightarrow> string" where
  "describe cs =
     (if cs = [] then ''no containers''
      else concat (map (\<lambda>c.
             ct_service c @ tab @ ct_state c @ tab
             @ (if ct_health c = [] then ''-'' else ct_health c) @ tab @ ct_image c @ newline) cs))"

definition summarise_images :: "(string \<times> string) list \<Rightarrow> string" where
  "summarise_images desired =
     (if desired = [] then ''no images resolved''
      else concat (map (\<lambda>svc. svc @ tab @ lookup_image desired svc @ newline)
                       (sort_strings (map fst desired))))"

definition cmd_string :: "string \<Rightarrow> string list \<Rightarrow> string" where
  "cmd_string bin args = (if args = [] then [] else bin @ '' '' @ join '' '' args)"

definition truncate_output :: "string \<Rightarrow> string" where
  "truncate_output s = truncate_to (32 * 1024) s"

definition dry_run_message ::
  "target \<Rightarrow> container list \<Rightarrow> string list \<Rightarrow> string list \<Rightarrow> string \<Rightarrow> string" where
  "dry_run_message t prior changed services tag =
     (let scope = (if services \<noteq> [] then join '', '' services else ''the whole stack'');
          count = '' ('' @ itoa (int (length prior)) @ '' container(s) running)'';
          msg = (if changed = []
                 then ''dry run: nothing to do, '' @ scope @ '' in '' @ t_dir t
                      @ '' is already on the latest images'' @ count
                 else ''dry run: would recreate '' @ scope @ '' in '' @ t_dir t
                      @ '' to pick up a new image for '' @ join '', '' changed @ count)
      in msg
         @ (if tag \<noteq> [] \<and> t_image_tag_env t \<noteq> [] then '' with '' @ t_image_tag_env t @ ''='' @ tag
            else [])
         @ ''. Images were pulled so the comparison is real; nothing was recreated'')"

section \<open>Reading the output of a failed pull\<close>

definition auth_markers :: "string list" where
  "auth_markers =
     [''unauthorized'', ''authentication required'', ''pull access denied'',
      ''no basic auth credentials'', ''denied: requested access to the resource is denied'']"

definition pull_progress :: "string list" where
  "pull_progress =
     [''Pulling'', ''Pulled'', ''Interrupted'', ''Waiting'', ''Downloading'', ''Extracting'',
      ''Verifying'', ''Skipped'', ''Already'', ''Download'', ''Error'']"

text \<open>
  The classes \<open>\s\<close> and the word characters of package \<open>regexp\<close>.  In \<open>pull_entry\<close> a run of
  non-spaces is followed by spaces, so both are maximal; the progress word ends at a word
  boundary, so it is the maximal run of word characters.
\<close>

definition re_space :: "char \<Rightarrow> bool" where
  "re_space c \<longleftrightarrow> byte c \<in> {9, 10, 12, 13, 32}"

definition word_char :: "char \<Rightarrow> bool" where
  "word_char c \<longleftrightarrow> is_alnum c \<or> c = CHR ''_''"

definition pull_entry :: "string \<Rightarrow> (string \<times> string \<times> string) option" where
  "pull_entry s =
     (let ref = takeWhile (\<lambda>c. \<not> re_space c) s;
          r = dropWhile re_space (dropWhile (\<lambda>c. \<not> re_space c) s);
          w = takeWhile word_char r
      in if ref \<noteq> [] \<and> w \<in> set pull_progress
         then Some (ref, w, dropWhile re_space (dropWhile word_char r))
         else None)"

definition pull_line_re :: "string \<Rightarrow> (string \<times> string \<times> string) option" where
  "pull_line_re s =
     (let r = drop 5 s in
      if has_prefix s ''Image'' \<and> r \<noteq> [] \<and> re_space (hd r) then
        (case pull_entry (dropWhile re_space r) of
           Some m \<Rightarrow> Some m
         | None \<Rightarrow> pull_entry s)
      else pull_entry s)"

text \<open>\<open>httpCodeRe\<close>: the leftmost three digits, spaces and a phrase that reach the end.\<close>

definition http_code_at :: "string \<Rightarrow> string option" where
  "http_code_at s =
     (let ds = take 3 s;
          sp = takeWhile re_space (drop 3 s);
          body = rev (dropWhile re_space (rev (dropWhile re_space (drop 3 s))))
      in if length ds = 3 \<and> list_all is_digit ds \<and> sp \<noteq> [] \<and> body \<noteq> []
            \<and> (is_lower (hd body) \<or> is_upper (hd body))
            \<and> list_all (\<lambda>c. is_lower c \<or> is_upper c \<or> c = CHR '' '') body
         then Some (ds @ sp @ body) else None)"

fun http_code :: "string \<Rightarrow> string option" where
  "http_code [] = None"
| "http_code (c # cs) =
     (case http_code_at (c # cs) of Some m \<Rightarrow> Some m | None \<Rightarrow> http_code cs)"

definition clip_reason :: "string \<Rightarrow> string" where
  "clip_reason s = (if length s \<le> 160 then s else take 160 s @ ''...'')"

definition tidy_reason :: "string \<Rightarrow> string" where
  "tidy_reason detail0 =
     (let detail = trim_space detail0 in
      if detail = [] then []
      else (case http_code detail of Some m \<Rightarrow> trim_space m | None \<Rightarrow> clip_reason detail))"

record pull_failure =
  pf_refs :: "string list"
  pf_reason :: string
  pf_hosts :: "string list"
  pf_cancelled :: nat
  pf_auth :: bool
  pf_parsed :: bool

definition pull_line :: "string \<Rightarrow> pull_failure \<Rightarrow> pull_failure" where
  "pull_line line0 f =
     (let line = trim_space line0 in
      if line = [] \<or> has_prefix line ''[+]'' \<or> has_prefix line ''Error response from daemon:'' then f
      else (case pull_line_re line of
              None \<Rightarrow> f
            | Some (ref, w, det) \<Rightarrow>
                if w \<noteq> ''Error'' then f\<lparr>pf_parsed := True, pf_cancelled := Suc (pf_cancelled f)\<rparr>
                else f\<lparr>pf_parsed := True,
                       pf_refs := pf_refs f @ [ref],
                       pf_hosts := (if registry_host ref \<noteq> []
                                    then add_absent (registry_host ref) (pf_hosts f)
                                    else pf_hosts f),
                       pf_reason := (if pf_reason f = [] then tidy_reason det else pf_reason f)\<rparr>))"

definition parse_pull :: "string \<Rightarrow> pull_failure" where
  "parse_pull output =
     (let f = fold pull_line (split_on (chr 10) output)
                \<lparr>pf_refs = [], pf_reason = [], pf_hosts = [], pf_cancelled = 0,
                 pf_auth = False, pf_parsed = False\<rparr>;
          lower = to_lower output
      in f\<lparr>pf_auth := list_ex (contains lower) auth_markers\<rparr>)"

definition pull_summary :: "pull_failure \<Rightarrow> target \<Rightarrow> string" where
  "pull_summary f t =
     (case pf_refs f of
        [] \<Rightarrow> ''docker compose pull failed''
      | ref # _ \<Rightarrow>
          if \<not> pf_parsed f then ''docker compose pull failed''
          else ''pull failed: '' @ ref
               @ (if pf_reason f \<noteq> [] then '' returned '' @ pf_reason f else [])
               @ (if pf_auth f then ''. Run: sudo dup auth '' @ t_name t else []))"

definition plural :: "nat \<Rightarrow> string \<Rightarrow> string \<Rightarrow> string" where
  "plural n one many = (if n = 1 then one else many)"

definition pull_where :: "pull_failure \<Rightarrow> string" where
  "pull_where f = (if pf_hosts f \<noteq> [] then join '', '' (pf_hosts f) else ''the registry'')"

definition pull_detail :: "pull_failure \<Rightarrow> target \<Rightarrow> string \<Rightarrow> string" where
  "pull_detail f t output =
     (if \<not> pf_parsed f \<or> pf_refs f = []
      then ''docker compose pull failed: '' @ trim_space output
      else trim_right {chr 10}
        (''docker compose pull failed'' @ newline
         @ concat (map (\<lambda>ref. newline @ ''  '' @ ref @ newline
              @ (if pf_reason f \<noteq> [] then ''    '' @ pf_reason f @ newline else [])) (pf_refs f))
         @ (if pf_auth f then
              newline @ ''  '' @ pull_where f
              @ '' rejected the credentials. dup runs docker as root, so a docker login'' @ newline
              @ ''  you ran as your own user does not apply to it. Give this stack its own'' @ newline
              @ ''  registry credentials with:'' @ newline @ newline
              @ ''    sudo dup auth '' @ t_name t @ newline
            else [])
         @ (if 0 < pf_cancelled f then
              newline @ ''  The other '' @ itoa (int (pf_cancelled f)) @ '' ''
              @ plural (pf_cancelled f) ''image'' ''images''
              @ '' pulled or were cancelled, and are not the problem.'' @ newline
            else [])))"

definition registry_hosts :: "target \<Rightarrow> (string \<times> string) list \<Rightarrow> string list" where
  "registry_hosts t desired =
     sort_strings (fold (\<lambda>p hosts.
        if wanted t (fst p) \<and> registry_host (snd p) \<noteq> []
        then add_absent (registry_host (snd p)) hosts else hosts) desired [])"

section \<open>Reporting steps\<close>

text \<open>\<open>discardSink\<close> drops every call; any other sink is the job's, whose calls are traced.\<close>

datatype sink = JobSink | DiscardSink

definition call :: "'w docker \<Rightarrow> sink \<Rightarrow> sink_call \<Rightarrow> ('w, unit) act" where
  "call d k c = (case k of JobSink \<Rightarrow> emit d (Called c) | DiscardSink \<Rightarrow> State_Monad.return ())"

definition make_step ::
  "string \<Rightarrow> string \<Rightarrow> time \<Rightarrow> time \<Rightarrow> string option \<Rightarrow> string \<Rightarrow> step" where
  "make_step name cmd start now err out =
     \<lparr>st_name = name, st_command = cmd, st_started = start,
      st_duration = milliseconds (time_sub now start), st_ok = (err = None), st_running = False,
      st_error = (case err of None \<Rightarrow> [] | Some e \<Rightarrow> e), st_output = out\<rparr>"

definition run_step ::
  "'w docker \<Rightarrow> sink \<Rightarrow> string \<Rightarrow> ('w, cmd_result) act \<Rightarrow> ('w, cmd_result) act" where
  "run_step d k name fn = do {
     call d k (StartStep name);
     start \<leftarrow> clock d;
     res \<leftarrow> fn;
     now \<leftarrow> clock d;
     call d k (AddStep (make_step name (cmd_string (dk_bin d) (rs_args res)) start now
                        (rs_err res) (rs_output res)));
     State_Monad.return res
   }"

text \<open>\<open>begin\<close> and the closure it returns, which has captured the name and the start.\<close>

definition begin_step :: "'w docker \<Rightarrow> sink \<Rightarrow> string \<Rightarrow> ('w, time) act" where
  "begin_step d k name = do {
     call d k (StartStep name);
     clock d
   }"

definition done_step ::
  "'w docker \<Rightarrow> sink \<Rightarrow> string \<Rightarrow> time \<Rightarrow> string option \<Rightarrow> string \<Rightarrow> ('w, unit) act" where
  "done_step d k name start err out = do {
     now \<leftarrow> clock d;
     call d k (AddStep (make_step name [] start now err out))
   }"

definition snapshot_containers ::
  "'w docker \<Rightarrow> ctx \<Rightarrow> sink \<Rightarrow> string \<Rightarrow> target \<Rightarrow> string list
   \<Rightarrow> ('w, container list \<times> cmd_result) act" where
  "snapshot_containers d c k name t env = do {
     start \<leftarrow> begin_step d k name;
     r \<leftarrow> containers d c t env;
     done_step d k name start (rs_err (snd r)) (describe (fst r));
     State_Monad.return r
   }"

definition resolve_images ::
  "'w docker \<Rightarrow> ctx \<Rightarrow> sink \<Rightarrow> target \<Rightarrow> string list \<Rightarrow> container list
   \<Rightarrow> ('w, (string \<times> string) list) act" where
  "resolve_images d c k t env prior = do {
     start \<leftarrow> begin_step d k ''resolve-images'';
     r \<leftarrow> desired_images d c t env;
     let desired = (if rs_err (snd r) \<noteq> None
                    then fold (\<lambda>x m. if tagged_ref (ct_image x) \<noteq> []
                                     then al_put (ct_service x) (tagged_ref (ct_image x)) m
                                     else m) prior []
                    else fst r);
     done_step d k ''resolve-images'' start (rs_err (snd r)) (summarise_images desired);
     State_Monad.return desired
   }"

section \<open>What changed\<close>

fun changed_services ::
  "'w docker \<Rightarrow> ctx \<Rightarrow> container list \<Rightarrow> (string \<times> string) list \<Rightarrow> target \<Rightarrow> ('w, string list) act"
where
  "changed_services d c [] desired t = State_Monad.return []"
| "changed_services d c (x # xs) desired t =
     (let ref = image_ref desired x in
      if \<not> wanted t (ct_service x) \<or> ref = [] then changed_services d c xs desired t
      else if tagged_ref (ct_image x) \<noteq> [] \<and> tagged_ref (ct_image x) \<noteq> ref then do {
        rest \<leftarrow> changed_services d c xs desired t;
        State_Monad.return (ct_service x # rest)
      }
      else do {
        new_id \<leftarrow> image_id d c ref;
        rest \<leftarrow> changed_services d c xs desired t;
        State_Monad.return (if new_id \<noteq> Inr (ct_image_id x) then ct_service x # rest else rest)
      })"

text \<open>The first service, in the order of the map, whose image moved by more than its version.\<close>

fun tag_moves ::
  "target \<Rightarrow> string \<Rightarrow> (string \<times> string) list \<Rightarrow> (string \<times> string) list \<Rightarrow> string option" where
  "tag_moves t tag bases [] = None"
| "tag_moves t tag bases ((svc, ref) # rest) =
     (if \<not> wanted t svc then tag_moves t tag bases rest
      else (case map_of bases svc of
              None \<Rightarrow> Some (''refusing to apply tag '' @ quote tag @ '': service '' @ quote svc
                 @ '' has no image without it, so the tag would choose the image itself rather than its version'')
            | Some b \<Rightarrow>
                if repository b \<noteq> repository ref
                then Some (''refusing to apply tag '' @ quote tag @ '': it moves service '' @ quote svc
                   @ '' from repository '' @ quote (repository b) @ '' to '' @ quote (repository ref)
                   @ '', which is more than a version change'')
                else tag_moves t tag bases rest))"

definition tag_changes_more_than_the_tag ::
  "'w docker \<Rightarrow> ctx \<Rightarrow> target \<Rightarrow> job_request \<Rightarrow> (string \<times> string) list \<Rightarrow> ('w, string option) act"
where
  "tag_changes_more_than_the_tag d c t req desired =
     (if t_image_tag_env t = [] \<or> rq_tag req = [] then State_Monad.return None
      else do {
        h \<leftarrow> world_get (dk_host d);
        r \<leftarrow> desired_images d c t (target_env h t []);
        State_Monad.return
          (if rs_err (snd r) \<noteq> None
           then Some (''refusing to apply a tag: this stack does not resolve without one, so the tag would be choosing the image itself rather than its version; pin the repository in the compose file as image: repo:${''
                  @ t_image_tag_env t @ ''} instead of image: ${'' @ t_image_tag_env t @ ''}'')
           else tag_moves t (rq_tag req) (fst r) desired)
      })"

section \<open>The pre-update hook\<close>

text \<open>\<open>None\<close> lets the update go on; \<open>Some msg\<close> stops it.\<close>

definition run_pre_update ::
  "'w docker \<Rightarrow> ctx \<Rightarrow> target \<Rightarrow> sink \<Rightarrow> job_request \<Rightarrow> string list \<Rightarrow> ('w, string option) act"
where
  "run_pre_update d c t k req changed =
     (if \<not> hook_configured (t_pre_update t) then State_Monad.return None
      else let hk = the (t_pre_update t) in do {
        call d k (StartStep ''pre-update'');
        start \<leftarrow> clock d;
        hc \<leftarrow> with_timeout d c (hk_timeout hk);
        h \<leftarrow> world_get (dk_host d);
        r \<leftarrow> world_do (dk_run d (hk_command hk) (hk_args hk) (t_dir t)
               (hs_environ h @ [''DUP_STACK='' @ t_name t, ''DUP_DIR='' @ t_dir t,
                  ''DUP_TAG='' @ rq_tag req, ''DUP_SERVICES='' @ join '','' changed]) hc);
        ce \<leftarrow> ctx_err d hc;
        let err = (if ce = Some DeadlineExceeded
                   then Some (''timed out after '' @ duration_string (hk_timeout hk) @ '': ''
                              @ ctx_error_text DeadlineExceeded)
                   else snd r);
        emit d (RanHook (hk_command hk) (hk_args hk) err);
        now \<leftarrow> clock d;
        call d k (AddStep (make_step ''pre-update'' (cmd_string (hk_command hk) (hk_args hk)) start now
                           err (truncate_output (fst r))));
        State_Monad.return
          (case err of
             None \<Rightarrow> None
           | Some e \<Rightarrow>
               if \<not> hook_is_required (t_pre_update t) then None
               else Some (''pre-update hook failed, nothing was changed: '' @ e))
      })"

section \<open>Waiting for health\<close>

text \<open>
  One poll that docker answered.  The first component is the result of \<open>waitHealthy\<close> when the
  poll decides it (\<open>Some None\<close> is success), the second is \<open>settledSince\<close>, with \<open>None\<close> for the
  zero time.
\<close>

definition judge_poll ::
  "'w docker \<Rightarrow> target \<Rightarrow> sink \<Rightarrow> string list \<Rightarrow> string \<Rightarrow> time \<Rightarrow> time \<Rightarrow> container list
   \<Rightarrow> time option \<Rightarrow> ('w, string option option \<times> time option) act" where
  "judge_poll d t k hs name begun start cs since =
     (if fst (settled cs hs) then do {
       since' \<leftarrow> (case since of Some x \<Rightarrow> State_Monad.return x | None \<Rightarrow> clock d);
       now \<leftarrow> clock d;
       if t_stability_window t \<le> time_sub now since' then do {
         done_step d k name begun None (describe cs);
         State_Monad.return (Some None, Some since')
       }
       else State_Monad.return (None, Some since')
     }
     else do {
       now \<leftarrow> clock d;
       (case (if fail_fast_grace < time_sub now start then crashed cs hs else None) of
          None \<Rightarrow> State_Monad.return (None, None)
        | Some svc \<Rightarrow> do {
            let err = ''service '' @ quote svc @ '' is not running after update'';
            done_step d k name begun (Some err) (describe cs);
            State_Monad.return (Some (Some err), None)
          })
     })"

definition poll_health ::
  "'w docker \<Rightarrow> target \<Rightarrow> sink \<Rightarrow> string list \<Rightarrow> string \<Rightarrow> time \<Rightarrow> time \<Rightarrow> container list
   \<Rightarrow> time option \<Rightarrow> ('w, string option option \<times> time option) act" where
  "poll_health d t k hs name begun start cs since = do {
     call d k (SetProgress (to_service_states (watched_only cs hs)));
     judge_poll d t k hs name begun start cs since
   }"

primrec wait_loop ::
  "nat \<Rightarrow> 'w docker \<Rightarrow> ctx \<Rightarrow> target \<Rightarrow> sink \<Rightarrow> string list \<Rightarrow> string list \<Rightarrow> string \<Rightarrow> time \<Rightarrow> time \<Rightarrow> time
   \<Rightarrow> nat \<Rightarrow> container list \<Rightarrow> time option \<Rightarrow> ('w, string option option) act" where
  "wait_loop 0 d c t k env hs name begun start t0 i prev since = State_Monad.return None"
| "wait_loop (Suc fuel) d c t k env hs name begun start t0 i prev since = do {
     r \<leftarrow> containers d c t env;
     let cur = (if rs_err (snd r) = None then fst r else prev);
     p \<leftarrow> (if rs_err (snd r) = None then poll_health d t k hs name begun start (fst r) since
           else State_Monad.return (None, since));
     case fst p of
       Some v \<Rightarrow> State_Monad.return (Some v)
     | None \<Rightarrow> do {
         now \<leftarrow> clock d;
         if start + t_health_timeout t < now then do {
           let err = ''timed out after '' @ duration_string (t_health_timeout t)
                     @ '' waiting for services to become healthy'';
           done_step d k name begun (Some err) (describe cur);
           State_Monad.return (Some (Some err))
         }
         else do {
           tick \<leftarrow> world_do (dk_wait d c (t0 + int (Suc i) * health_poll_interval));
           if tick then wait_loop fuel d c t k env hs name begun start t0 (Suc i) cur (snd p)
           else do {
             ce \<leftarrow> ctx_err d c;
             let err = ''cancelled while waiting for services to become healthy: ''
                       @ (case ce of None \<Rightarrow> [] | Some e \<Rightarrow> ctx_error_text e);
             done_step d k name begun (Some err) (describe cur);
             State_Monad.return (Some (Some err))
           }
         }
       }
   }"

definition wait_healthy ::
  "nat \<Rightarrow> 'w docker \<Rightarrow> ctx \<Rightarrow> target \<Rightarrow> sink \<Rightarrow> string list \<Rightarrow> string list \<Rightarrow> string
   \<Rightarrow> ('w, string option option) act" where
  "wait_healthy fuel d c t k env hs name = do {
     begun \<leftarrow> begin_step d k name;
     start \<leftarrow> clock d;
     t0 \<leftarrow> clock d;
     wait_loop fuel d c t k env hs name begun start t0 0 [] None
   }"

section \<open>Rolling back\<close>

text \<open>The services whose old image is gone, and those whose reference could not be restored.\<close>

fun restore_tags ::
  "'w docker \<Rightarrow> ctx \<Rightarrow> sink \<Rightarrow> (string \<times> string) list \<Rightarrow> container list
   \<Rightarrow> ('w, string list \<times> string list) act" where
  "restore_tags d c k desired [] = State_Monad.return ([], [])"
| "restore_tags d c k desired (x # xs) =
     (let ref = image_ref desired x in
      if ct_image_id x = [] \<or> ref = [] then restore_tags d c k desired xs
      else do {
        present \<leftarrow> image_exists d c (ct_image_id x);
        if \<not> present then do {
          mr \<leftarrow> restore_tags d c k desired xs;
          State_Monad.return (ct_service x # fst mr, snd mr)
        }
        else do {
          cur \<leftarrow> image_id d c ref;
          if cur = Inr (ct_image_id x) then restore_tags d c k desired xs
          else do {
            res \<leftarrow> run_step d k (''rollback-tag:'' @ ct_service x)
                     (tag_image d c (ct_image_id x) ref);
            mr \<leftarrow> restore_tags d c k desired xs;
            State_Monad.return
              (fst mr, if rs_err res \<noteq> None then ct_service x # snd mr else snd mr)
          }
        }
      })"

definition rollback_detail :: "string \<Rightarrow> string list \<Rightarrow> string list \<Rightarrow> string" where
  "rollback_detail cause missing failed =
     cause
     @ (if missing \<noteq> [] then ''; previous image no longer present locally for '' @ join '', '' missing
        else [])
     @ (if failed \<noteq> [] then ''; could not restore the previous image for '' @ join '', '' failed
             @ '', so the new image may still be running''
        else [])"

definition rollback ::
  "nat \<Rightarrow> 'w docker \<Rightarrow> ctx \<Rightarrow> target \<Rightarrow> sink \<Rightarrow> container list \<Rightarrow> string list \<Rightarrow> string list \<Rightarrow> string
   \<Rightarrow> ('w, (job_state \<times> string) option) act" where
  "rollback fuel d c t k prior services hs cause =
     (if \<not> rollback_enabled t then do {
        h \<leftarrow> world_get (dk_host d);
        r \<leftarrow> snapshot_containers d c k ''inspect-after'' t (target_env h t []);
        call d k (SetAfter (to_service_states (fst r)));
        State_Monad.return (Some (StateFailed, cause @ '' (rollback disabled)''))
      }
      else do {
        rc \<leftarrow> with_timeout d (WithoutCancel c) (t_health_timeout t + rollback_slack);
        h \<leftarrow> world_get (dk_host d);
        let env = target_env h t (previous_tag t prior);
        desired \<leftarrow> resolve_images d rc k t env prior;
        mr \<leftarrow> restore_tags d rc k desired prior;
        res \<leftarrow> run_step d k ''rollback-up'' (up d rc t env services True);
        r \<leftarrow> snapshot_containers d rc k ''inspect-after'' t env;
        call d k (SetAfter (to_service_states (fst r)));
        let detail = rollback_detail cause (fst mr) (snd mr);
        if snd mr \<noteq> [] then State_Monad.return (Some (StateRollbackFailed,
            ''update failed and the previous images could not be restored: '' @ detail))
        else if rs_err res \<noteq> None then State_Monad.return (Some (StateRollbackFailed,
            ''update failed and rollback failed: '' @ detail))
        else do {
          w \<leftarrow> wait_healthy fuel d rc t k env hs ''rollback-health'';
          case w of
            None \<Rightarrow> State_Monad.return None
          | Some (Some e) \<Rightarrow> State_Monad.return (Some (StateRollbackFailed,
              ''update failed and rollback did not come healthy: '' @ detail))
          | Some None \<Rightarrow> do {
              r2 \<leftarrow> snapshot_containers d rc k ''inspect-after'' t env;
              call d k (SetAfter (to_service_states (fst r2)));
              State_Monad.return (Some (StateRolledBack,
                ''update failed, rolled back to the previous images: '' @ detail))
            }
        }
      })"

section \<open>The pipeline\<close>

text \<open>\<open>apply_update\<close> is the part of \<open>pipeline\<close> that changes the stack, from the up on.\<close>

definition apply_update ::
  "nat \<Rightarrow> 'w docker \<Rightarrow> ctx \<Rightarrow> target \<Rightarrow> sink \<Rightarrow> string list \<Rightarrow> container list \<Rightarrow> string list
   \<Rightarrow> ('w, (job_state \<times> string) option) act" where
  "apply_update fuel d c t k env prior changed = do {
     let services = t_services t;
     let hs = health_targets t prior;
     res \<leftarrow> run_step d k ''up'' (up d c t env services False);
     if rs_err res \<noteq> None then rollback fuel d c t k prior services hs ''docker compose up failed''
     else do {
       w \<leftarrow> wait_healthy fuel d c t k env hs ''health'';
       case w of
         None \<Rightarrow> State_Monad.return None
       | Some (Some e) \<Rightarrow> rollback fuel d c t k prior services hs e
       | Some None \<Rightarrow> do {
           r \<leftarrow> snapshot_containers d c k ''inspect-after'' t env;
           call d k (SetAfter (to_service_states (fst r)));
           State_Monad.return (Some (StateSucceeded,
             if changed = [] then ''stack recreated, images unchanged''
             else ''updated '' @ join '', '' changed))
         }
     }
   }"

text \<open>
  \<open>plan_update\<close> is the part before it.  It either decides the job (\<open>Inl\<close>) or hands over what
  the up needs: the environment, the containers before, the changed services.
\<close>

definition plan_update ::
  "'w docker \<Rightarrow> ctx \<Rightarrow> target \<Rightarrow> sink \<Rightarrow> job_request
   \<Rightarrow> ('w, (job_state \<times> string) + (string list \<times> container list \<times> string list)) act" where
  "plan_update d c t k req = do {
     h \<leftarrow> world_get (dk_host d);
     let env = target_env h t (rq_tag req);
     v \<leftarrow> run_step d k ''validate'' (validate d c t env);
     if rs_err v \<noteq> None
     then State_Monad.return (Inl (StateFailed, ''compose file validation failed''))
     else do {
       b \<leftarrow> snapshot_containers d c k ''inspect-before'' t env;
       case rs_err (snd b) of
         Some e \<Rightarrow> State_Monad.return
             (Inl (StateFailed, ''could not inspect current containers: '' @ e))
       | None \<Rightarrow> do {
           let prior = fst b;
           call d k (SetBefore (to_service_states prior));
           desired \<leftarrow> resolve_images d c k t env prior;
           refusal \<leftarrow> tag_changes_more_than_the_tag d c t req desired;
           case refusal of
             Some msg \<Rightarrow> State_Monad.return (Inl (StateFailed, msg))
           | None \<Rightarrow> do {
               pc \<leftarrow> with_timeout d c (t_pull_timeout t);
               p \<leftarrow> run_step d k ''pull'' (pull d pc t env (t_services t));
               if rs_err p \<noteq> None
               then State_Monad.return
                      (Inl (StateFailed, pull_summary (parse_pull (rs_output p)) t))
               else do {
                 changed \<leftarrow> changed_services d c prior desired t;
                 call d k (SetChanged changed);
                 if rq_dry_run req then do {
                   call d k (SetAfter (to_service_states prior));
                   State_Monad.return (Inl (StateDryRun,
                     dry_run_message t prior changed (t_services t) (rq_tag req)))
                 }
                 else if changed = [] \<and> \<not> rq_force req
                         \<and> all_settled prior (health_targets t prior) then do {
                   call d k (SetAfter (to_service_states prior));
                   State_Monad.return (Inl (StateNoChange,
                     ''already running the latest images, nothing to do''))
                 }
                 else do {
                   hook \<leftarrow> run_pre_update d c t k req changed;
                   case hook of
                     Some msg \<Rightarrow> do {
                       call d k (SetAfter (to_service_states prior));
                       State_Monad.return (Inl (StateFailed, msg))
                     }
                   | None \<Rightarrow> State_Monad.return (Inr (env, prior, changed))
                 }
               }
             }
         }
     }
   }"

definition pipeline ::
  "nat \<Rightarrow> 'w docker \<Rightarrow> ctx \<Rightarrow> target \<Rightarrow> sink \<Rightarrow> job_request
   \<Rightarrow> ('w, (job_state \<times> string) option) act" where
  "pipeline fuel d c t k req = do {
     plan \<leftarrow> plan_update d c t k req;
     case plan of
       Inl result \<Rightarrow> State_Monad.return (Some result)
     | Inr (env, prior, changed) \<Rightarrow> apply_update fuel d c t k env prior changed
   }"

section \<open>Check and images\<close>

definition check ::
  "'w docker \<Rightarrow> ctx \<Rightarrow> target \<Rightarrow> ('w, string + check_result) act" where
  "check d c t = do {
     h \<leftarrow> world_get (dk_host d);
     let env = target_env h t [];
     v \<leftarrow> validate d c t env;
     case rs_err v of
       Some e \<Rightarrow> State_Monad.return (Inl (''compose file validation failed: '' @ e))
     | None \<Rightarrow> do {
         b \<leftarrow> containers d c t env;
         case rs_err (snd b) of
           Some e \<Rightarrow> State_Monad.return (Inl (''could not inspect current containers: '' @ e))
         | None \<Rightarrow> do {
             desired \<leftarrow> resolve_images d c DiscardSink t env (fst b);
             pc \<leftarrow> with_timeout d c (t_pull_timeout t);
             p \<leftarrow> pull d pc t env (t_services t);
             if rs_err p \<noteq> None
             then State_Monad.return (Inl (pull_detail (parse_pull (rs_output p)) t (rs_output p)))
             else do {
               changed \<leftarrow> changed_services d c (fst b) desired t;
               State_Monad.return (Inr
                 (if changed = []
                  then \<lparr>cr_available = False, cr_changed = [],
                        cr_message = ''already running the latest images''\<rparr>
                  else \<lparr>cr_available = True, cr_changed = changed,
                        cr_message = ''new image for '' @ join '', '' changed\<rparr>))
             }
           }
       }
   }"

definition images ::
  "'w docker \<Rightarrow> ctx \<Rightarrow> target \<Rightarrow> ('w, string + images_result) act" where
  "images d c t = do {
     h \<leftarrow> world_get (dk_host d);
     r \<leftarrow> desired_images d c t (target_env h t []);
     State_Monad.return
       (case rs_err (snd r) of
          Some e \<Rightarrow> Inl (wrap_output (''could not resolve the images for '' @ t_name t) e
                             (rs_output (snd r)))
        | None \<Rightarrow> (let imgs = [p \<leftarrow> fst r. wanted t (fst p)]
                   in Inr \<lparr>ir_images = imgs, ir_registries = registry_hosts t imgs\<rparr>))
   }"

section \<open>A tag changes the tag only\<close>

lemma tag_moves_None:
  "tag_moves t tag bases desired = None \<Longrightarrow> (svc, ref) \<in> set desired \<Longrightarrow> wanted t svc \<Longrightarrow>
   \<exists>b. map_of bases svc = Some b \<and> repository b = repository ref"
  by (induction t tag bases desired rule: tag_moves.induct) (auto split: if_splits option.splits)

end
