(* ===== verification/Pipeline_Trace.thy ===== *)
theory Pipeline_Trace
  imports Pipeline
begin

text \<open>
  What a run of the pipeline leaves in the trace: which docker commands it ran, in which
  order, and what it reported on the sink.  The first section is the calculus, one rule per
  elementary effect and one per operation of \<open>Compose\<close>; the properties follow.
\<close>

section \<open>The calls of a trace\<close>

fun calls :: "event list \<Rightarrow> sink_call list" where
  "calls [] = []"
| "calls (Called c # es) = c # calls es"
| "calls (e # es) = calls es"

lemma calls_append [simp]: "calls (es @ fs) = calls es @ calls fs"
  by (induction es rule: calls.induct) auto

text \<open>\<open>moves p m q\<close>: run in the middle of step \<open>p\<close>, \<open>m\<close> reports properly and leaves step \<open>q\<close>.\<close>

definition moves :: "string option \<Rightarrow> ('w, 'a) act \<Rightarrow> string option \<Rightarrow> bool" where
  "moves p m q \<longleftrightarrow> (\<forall>s. \<exists>es. r_trace (snd (run_state m s)) = r_trace s @ es
     \<and> pair_run p (calls es) = Some q)"

lemma movesI:
  "(\<And>s. \<exists>es. r_trace (snd (run_state m s)) = r_trace s @ es \<and> pair_run p (calls es) = Some q)
   \<Longrightarrow> moves p m q"
  by (simp add: moves_def)

lemma movesE:
  assumes "moves p m q" and "run_state m s = (a, s')"
  obtains es where "r_trace s' = r_trace s @ es" and "pair_run p (calls es) = Some q"
  using assms by (metis moves_def snd_conv)

named_theorems moves_intros \<open>what an operation does to the step in progress\<close>

lemma moves_return [moves_intros]: "moves p (State_Monad.return a) p"
  by (rule movesI) simp

lemma moves_bind [moves_intros]:
  assumes m: "moves p m q" and f: "\<And>a. moves q (f a) r"
  shows "moves p (State_Monad.bind m f) r"
proof (rule movesI)
  fix s
  obtain a s1 where 1: "run_state m s = (a, s1)" by fastforce
  with m obtain es where es: "r_trace s1 = r_trace s @ es" "pair_run p (calls es) = Some q"
    by (rule movesE)
  obtain b s2 where 2: "run_state (f a) s1 = (b, s2)" by fastforce
  with f obtain fs where fs: "r_trace s2 = r_trace s1 @ fs" "pair_run q (calls fs) = Some r"
    by (rule movesE)
  from 1 2 have "run_state (State_Monad.bind m f) s = (b, s2)" by simp
  with es fs show "\<exists>gs. r_trace (snd (run_state (State_Monad.bind m f) s)) = r_trace s @ gs
      \<and> pair_run p (calls gs) = Some r"
    by (auto simp: pair_run_append)
qed

lemma moves_if [moves_intros]:
  "(b \<Longrightarrow> moves p m q) \<Longrightarrow> (\<not> b \<Longrightarrow> moves p n q) \<Longrightarrow> moves p (if b then m else n) q"
  by simp

lemma moves_option [moves_intros]:
  "(x = None \<Longrightarrow> moves p m q) \<Longrightarrow> (\<And>a. x = Some a \<Longrightarrow> moves p (f a) q) \<Longrightarrow>
   moves p (case x of None \<Rightarrow> m | Some a \<Rightarrow> f a) q"
  by (cases x) auto

lemma moves_sum [moves_intros]:
  "(\<And>a. x = Inl a \<Longrightarrow> moves p (f a) q) \<Longrightarrow> (\<And>a. x = Inr a \<Longrightarrow> moves p (g a) q) \<Longrightarrow>
   moves p (case x of Inl a \<Rightarrow> f a | Inr a \<Rightarrow> g a) q"
  by (cases x) auto

lemma moves_prod [moves_intros]:
  "(\<And>a b. x = (a, b) \<Longrightarrow> moves p (f a b) q) \<Longrightarrow> moves p (case x of (a, b) \<Rightarrow> f a b) q"
  by (cases x) auto

lemma moves_let [moves_intros]: "moves p (f a) q \<Longrightarrow> moves p (let x = a in f x) q"
  by simp

lemma moves_world_get [moves_intros]: "moves p (world_get f) p"
  by (rule movesI) (simp add: world_get_def)

lemma moves_world_do [moves_intros]: "moves p (world_do f) p"
  by (rule movesI) (simp add: world_do_def)

lemma moves_clock [moves_intros]: "moves p (clock d) p"
  unfolding clock_def by (rule moves_world_do)

lemma moves_ran [moves_intros]: "moves p (emit d (Ran w e r)) p"
  by (rule movesI) (simp add: emit_def)

lemma moves_ran_hook [moves_intros]: "moves p (emit d (RanHook w e r)) p"
  by (rule movesI) (simp add: emit_def)

lemma moves_discard [moves_intros]: "moves p (call d DiscardSink c) p"
  by (simp add: call_def moves_return)

lemma moves_start [moves_intros]: "moves None (call d JobSink (StartStep n)) (Some n)"
  by (rule movesI) (simp add: call_def emit_def)

lemma moves_add [moves_intros]:
  "moves (Some n) (call d JobSink (AddStep (make_step n cmd a b e out))) None"
  by (rule movesI) (simp add: call_def emit_def make_step_def)

lemma moves_progress [moves_intros]: "moves p (call d JobSink (SetProgress ss)) p"
  by (rule movesI) (cases p; simp add: call_def emit_def)

lemma moves_before [moves_intros]: "moves p (call d JobSink (SetBefore ss)) p"
  by (rule movesI) (cases p; simp add: call_def emit_def)

lemma moves_after [moves_intros]: "moves p (call d JobSink (SetAfter ss)) p"
  by (rule movesI) (cases p; simp add: call_def emit_def)

lemma moves_changed [moves_intros]: "moves p (call d JobSink (SetChanged ss)) p"
  by (rule movesI) (cases p; simp add: call_def emit_def)

section \<open>The operations report properly\<close>

lemma moves_ctx_err [moves_intros]: "moves p (ctx_err d c) p"
  unfolding ctx_err_def by (rule moves_intros)+

lemma moves_with_timeout [moves_intros]: "moves p (with_timeout d c t) p"
  unfolding with_timeout_def by (rule moves_intros)+

lemma moves_exec [moves_intros]: "moves p (exec_docker d c wd env args) p"
  unfolding exec_docker_def Let_def by (rule moves_intros)+

lemma moves_compose [moves_intros]:
  "moves p (validate d c t env) p" "moves p (desired_images d c t env) p"
  "moves p (pull d c t env ss) p" "moves p (up d c t env ss b) p"
  "moves p (tag_image d c i ref) p" "moves p (image_exists d c i) p" "moves p (image_id d c ref) p"
  unfolding validate_def desired_images_def pull_def up_def tag_image_def image_exists_def image_id_def
  by (rule moves_intros)+

lemma moves_attach [moves_intros]: "moves p (attach_image_ids d c cs) p"
  unfolding attach_image_ids_def by (rule moves_intros)+

lemma moves_containers [moves_intros]: "moves p (containers d c t env) p"
  unfolding containers_def by (rule moves_intros)+

lemma moves_run_step [moves_intros]:
  assumes "\<And>p. moves p fn p"
  shows "moves None (run_step d JobSink n fn) None"
  unfolding run_step_def by (rule moves_intros assms)+

lemma moves_begin [moves_intros]: "moves None (begin_step d JobSink n) (Some n)"
  unfolding begin_step_def by (rule moves_intros)+

lemma moves_done [moves_intros]: "moves (Some n) (done_step d JobSink n st e out) None"
  unfolding done_step_def by (rule moves_intros)+

lemma moves_snapshot [moves_intros]: "moves None (snapshot_containers d c JobSink n t env) None"
  unfolding snapshot_containers_def by (rule moves_intros)+

lemma moves_resolve [moves_intros]: "moves None (resolve_images d c JobSink t env prior) None"
  unfolding resolve_images_def Let_def by (rule moves_intros)+

lemma moves_changed_services [moves_intros]: "moves p (changed_services d c xs desired t) p"
proof (induction xs)
  case (Cons x xs)
  show ?case unfolding changed_services.simps Let_def by (rule moves_intros Cons)+
qed (simp add: moves_return)

lemma moves_tag_changes [moves_intros]: "moves p (tag_changes_more_than_the_tag d c t r im) p"
  unfolding tag_changes_more_than_the_tag_def by (rule moves_intros)+

lemma moves_pre_update [moves_intros]: "moves None (run_pre_update d c t JobSink r ch) None"
  unfolding run_pre_update_def Let_def by (rule moves_intros)+

lemma moves_restore [moves_intros]: "moves None (restore_tags d c JobSink desired xs) None"
proof (induction xs)
  case (Cons x xs)
  show ?case unfolding restore_tags.simps Let_def by (rule moves_intros Cons)+
qed (simp add: moves_return)

section \<open>Waiting\<close>

text \<open>
  The step left behind may depend on the result: \<open>moves_by p m Q\<close> leaves step \<open>Q a\<close> after
  returning \<open>a\<close>, and \<open>closes p m\<close> leaves none when \<open>m\<close> returns something.
\<close>

definition moves_by :: "string option \<Rightarrow> ('w, 'a) act \<Rightarrow> ('a \<Rightarrow> string option) \<Rightarrow> bool" where
  "moves_by p m Q \<longleftrightarrow> (\<forall>s a s'. run_state m s = (a, s') \<longrightarrow>
     (\<exists>es. r_trace s' = r_trace s @ es \<and> pair_run p (calls es) = Some (Q a)))"

lemma moves_by_const: "moves p m q \<Longrightarrow> moves_by p m (\<lambda>a. q)"
  by (auto simp: moves_by_def elim: movesE)

lemma moves_by_return: "p = Q a \<Longrightarrow> moves_by p (State_Monad.return a) Q"
  by (auto simp: moves_by_def)

lemma moves_by_bind:
  assumes m: "moves_by p m P" and f: "\<And>a. moves_by (P a) (f a) Q"
  shows "moves_by p (State_Monad.bind m f) Q"
  unfolding moves_by_def
proof (intro allI impI)
  fix s b s2
  assume r: "run_state (State_Monad.bind m f) s = (b, s2)"
  obtain a s1 where 1: "run_state m s = (a, s1)" by fastforce
  with r have 2: "run_state (f a) s1 = (b, s2)" by simp
  from m 1 obtain es where "r_trace s1 = r_trace s @ es" "pair_run p (calls es) = Some (P a)"
    unfolding moves_by_def by blast
  moreover from f 2 obtain fs where "r_trace s2 = r_trace s1 @ fs"
      "pair_run (P a) (calls fs) = Some (Q b)"
    unfolding moves_by_def by blast
  ultimately show "\<exists>gs. r_trace s2 = r_trace s @ gs \<and> pair_run p (calls gs) = Some (Q b)"
    by (auto simp: pair_run_append)
qed

lemmas moves_by_then = moves_by_bind [OF moves_by_const]

lemma moves_by_if:
  "(b \<Longrightarrow> moves_by p m Q) \<Longrightarrow> (\<not> b \<Longrightarrow> moves_by p n Q) \<Longrightarrow> moves_by p (if b then m else n) Q"
  by simp

lemma moves_by_option:
  "(x = None \<Longrightarrow> moves_by p m Q) \<Longrightarrow> (\<And>a. x = Some a \<Longrightarrow> moves_by p (f a) Q) \<Longrightarrow>
   moves_by p (case x of None \<Rightarrow> m | Some a \<Rightarrow> f a) Q"
  by (cases x) auto

lemma moves_by_pending:
  "(x = None \<Longrightarrow> moves_by (Some n) m Q) \<Longrightarrow> (\<And>a. x = Some a \<Longrightarrow> moves_by None (f a) Q) \<Longrightarrow>
   moves_by (if x = None then Some n else None) (case x of None \<Rightarrow> m | Some a \<Rightarrow> f a) Q"
  by (cases x) auto

lemmas moves_by_rules = moves_by_if moves_by_option moves_by_then moves_by_return

lemma moves_by_poll:
  "moves_by (Some n) (poll_health d t JobSink hs n begun start cs since)
     (\<lambda>r. if fst r = None then Some n else None)"
  unfolding poll_health_def judge_poll_def Let_def
  by (rule moves_by_rules moves_intros | simp)+

lemma moves_by_wait_loop:
  "moves_by (Some n) (wait_loop fuel d c t JobSink env hs n begun start t0 i prev since)
     (\<lambda>r. if r = None then Some n else None)"
proof (induction fuel arbitrary: i prev since)
  case 0
  show ?case by (simp add: moves_by_return)
next
  case (Suc fuel)
  have poll: "moves_by (Some n)
      (if rs_err x = None then poll_health d t JobSink hs n begun start cs since
       else State_Monad.return (None, since)) (\<lambda>r. if fst r = None then Some n else None)" for x :: cmd_result and cs
    by (auto simp: moves_by_poll moves_by_return)
  show ?case
    unfolding wait_loop.simps Let_def
    by (rule moves_by_then [OF moves_containers], rule moves_by_bind [OF poll],
        rule moves_by_pending) (rule moves_by_rules moves_intros Suc | simp)+
qed

definition closes :: "string option \<Rightarrow> ('w, 'a option) act \<Rightarrow> bool" where
  "closes p m \<longleftrightarrow> (\<forall>s v s'. run_state m s = (Some v, s') \<longrightarrow>
     (\<exists>es. r_trace s' = r_trace s @ es \<and> pair_run p (calls es) = Some None))"

lemma closes_then:
  assumes m: "moves p m q" and f: "\<And>a. closes q (f a)"
  shows "closes p (State_Monad.bind m f)"
  unfolding closes_def
proof (intro allI impI)
  fix s v s2
  assume r: "run_state (State_Monad.bind m f) s = (Some v, s2)"
  obtain a s1 where 1: "run_state m s = (a, s1)" by fastforce
  with r have 2: "run_state (f a) s1 = (Some v, s2)" by simp
  from m 1 obtain es where "r_trace s1 = r_trace s @ es" "pair_run p (calls es) = Some q"
    by (rule movesE)
  moreover from f 2 obtain fs where "r_trace s2 = r_trace s1 @ fs"
      "pair_run q (calls fs) = Some None"
    unfolding closes_def by blast
  ultimately show "\<exists>gs. r_trace s2 = r_trace s @ gs \<and> pair_run p (calls gs) = Some None"
    by (auto simp: pair_run_append)
qed

lemma closes_option_then:
  assumes m: "closes p m" and f: "\<And>v. closes None (f v)"
  shows "closes p (State_Monad.bind m (\<lambda>w. case w of None \<Rightarrow> State_Monad.return None | Some v \<Rightarrow> f v))"
  unfolding closes_def
proof (intro allI impI)
  fix s v s2
  assume r: "run_state (State_Monad.bind m (\<lambda>w. case w of None \<Rightarrow> State_Monad.return None | Some v \<Rightarrow> f v)) s
      = (Some v, s2)"
  obtain w s1 where 1: "run_state m s = (w, s1)" by fastforce
  with r obtain u where w: "w = Some u" and 2: "run_state (f u) s1 = (Some v, s2)"
    by (cases w) auto
  from m 1 w obtain es where "r_trace s1 = r_trace s @ es" "pair_run p (calls es) = Some None"
    unfolding closes_def by blast
  moreover from f 2 obtain fs where "r_trace s2 = r_trace s1 @ fs"
      "pair_run None (calls fs) = Some None"
    unfolding closes_def by blast
  ultimately show "\<exists>gs. r_trace s2 = r_trace s @ gs \<and> pair_run p (calls gs) = Some None"
    by (auto simp: pair_run_append)
qed

lemma closes_return: "closes None (State_Monad.return (Some v))"
  by (simp add: closes_def)

lemma closes_if:
  "(b \<Longrightarrow> closes p m) \<Longrightarrow> (\<not> b \<Longrightarrow> closes p n) \<Longrightarrow> closes p (if b then m else n)"
  by simp

lemma closes_option:
  "(x = None \<Longrightarrow> closes p m) \<Longrightarrow> (\<And>a. x = Some a \<Longrightarrow> closes p (f a)) \<Longrightarrow>
   closes p (case x of None \<Rightarrow> m | Some a \<Rightarrow> f a)"
  by (cases x) auto

lemma closes_sum:
  "(\<And>a. x = Inl a \<Longrightarrow> closes p (f a)) \<Longrightarrow> (\<And>a. x = Inr a \<Longrightarrow> closes p (g a)) \<Longrightarrow>
   closes p (case x of Inl a \<Rightarrow> f a | Inr a \<Rightarrow> g a)"
  by (cases x) auto

lemma closes_prod:
  "(\<And>a b. x = (a, b) \<Longrightarrow> closes p (f a b)) \<Longrightarrow> closes p (case x of (a, b) \<Rightarrow> f a b)"
  by (cases x) auto

lemma closes_wait_healthy: "closes None (wait_healthy fuel d c t JobSink env hs n)"
proof -
  have loop: "closes (Some n) (wait_loop fuel d c t JobSink env hs n begun start t0 0 [] None)"
    for begun start t0
    using moves_by_wait_loop unfolding closes_def moves_by_def by fastforce
  show ?thesis
    unfolding wait_healthy_def by (rule closes_then moves_intros loop)+
qed

lemmas closes_rules =
  closes_if closes_option closes_sum closes_prod
  closes_option_then [OF closes_wait_healthy] closes_then closes_return

lemma closes_rollback: "closes None (rollback fuel d c t JobSink prior ss hs cause)"
  unfolding rollback_def Let_def by (rule closes_rules moves_intros)+

lemma closes_apply: "closes None (apply_update fuel d c t JobSink env prior changed)"
  unfolding apply_update_def Let_def by (rule closes_rules closes_rollback moves_intros)+

lemma moves_plan: "moves None (plan_update d c t JobSink req) None"
  unfolding plan_update_def Let_def by (rule moves_intros)+

lemma closes_pipeline: "closes None (pipeline fuel d c t JobSink req)"
  unfolding pipeline_def by (rule closes_apply closes_rules moves_plan moves_intros)+

lemma pipeline_paired:
  assumes "run_state (pipeline fuel d c t JobSink req) s = (Some v, s')"
  shows "\<exists>es. r_trace s' = r_trace s @ es \<and> paired (calls es)"
  using closes_pipeline assms unfolding closes_def paired_def by blast

section \<open>The docker commands of a run\<close>

text \<open>
  The subcommand of a docker command line, behind the options that \<open>base_args\<close> puts first.
  \<open>reads_only\<close> holds of the commands that leave the stack alone: they inspect it or pull
  images, and they are neither an up nor a tag.
\<close>

definition skip_opt :: "string \<Rightarrow> string list \<Rightarrow> string list" where
  "skip_opt opt args =
     (case args of a # b # rest \<Rightarrow> if a = opt then rest else args | _ \<Rightarrow> args)"

definition docker_verb :: "string list \<Rightarrow> string" where
  "docker_verb args =
     (case args of
        [] \<Rightarrow> []
      | a # rest \<Rightarrow>
          if a \<noteq> ''compose'' then a
          else (case skip_opt ''--env-file'' (skip_opt ''-f'' rest) of [] \<Rightarrow> [] | v # _ \<Rightarrow> v))"

definition read_verbs :: "string list" where
  "read_verbs = [''config'', ''ps'', ''inspect'', ''image'', ''pull'']"

fun reads_only :: "event \<Rightarrow> bool" where
  "reads_only (Ran w e r) = (docker_verb (rs_args r) \<in> set read_verbs)"
| "reads_only (RanHook c a e) = True"
| "reads_only (Called c) = True"

lemma docker_verb_base [simp]:
  "v \<noteq> ''-f'' \<Longrightarrow> v \<noteq> ''--env-file'' \<Longrightarrow> docker_verb (base_args t @ v # rest) = v"
  by (cases rest) (auto simp: docker_verb_def base_args_def skip_opt_def)

lemma append_services_verb [simp]:
  "docker_verb (append_services (base_args t @ v # rest) ss) = docker_verb (base_args t @ v # rest @ (if ss = [] then [] else ''--'' # ss))"
  by (simp add: append_services_def)

lemma docker_verb_plain [simp]: "a \<noteq> ''compose'' \<Longrightarrow> docker_verb (a # rest) = a"
  by (simp add: docker_verb_def)

interpretation reads_log: log_property "list_all reads_only"
  by unfold_locales simp_all

lemmas reads_rules =
  reads_log.grows_if reads_log.grows_case_option reads_log.grows_case_prod reads_log.grows_let
  reads_log.grows_bind reads_log.grows_return

lemma reads_sum:
  "(\<And>a. x = Inl a \<Longrightarrow> grows g Q (f a)) \<Longrightarrow> (\<And>a. x = Inr a \<Longrightarrow> grows g Q (h a)) \<Longrightarrow>
   grows g Q (case x of Inl a \<Rightarrow> f a | Inr a \<Rightarrow> h a)"
  by (cases x) auto

lemma reads_effects [grows_intros]:
  "grows r_trace (list_all reads_only) (world_get f)"
  "grows r_trace (list_all reads_only) (world_do g)"
  "grows r_trace (list_all reads_only) (clock d)"
  "grows r_trace (list_all reads_only) (emit d (RanHook c a e))"
  "grows r_trace (list_all reads_only) (call d k sc)"
  by (auto intro!: growsI simp: world_get_def world_do_def clock_def emit_def call_def
      split: sink.split)

lemma reads_ctx [grows_intros]:
  "grows r_trace (list_all reads_only) (ctx_err d c)"
  "grows r_trace (list_all reads_only) (with_timeout d c t)"
  unfolding ctx_err_def with_timeout_def by (rule reads_rules grows_intros)+

lemma run_world_get [simp]: "run_state (world_get f) s = (f (r_world s), s)"
  by (simp add: world_get_def)

text \<open>
  A specification that relates the result to what was appended to the trace.
\<close>

definition emits :: "('w, 'a) act \<Rightarrow> ('a \<Rightarrow> event list \<Rightarrow> bool) \<Rightarrow> bool" where
  "emits m P \<longleftrightarrow> (\<forall>s. \<exists>es. r_trace (snd (run_state m s)) = r_trace s @ es \<and> P (fst (run_state m s)) es)"

lemma emitsE:
  assumes "emits m P" and "run_state m s = (a, s')"
  obtains es where "r_trace s' = r_trace s @ es" and "P a es"
  using assms by (metis emits_def fst_conv snd_conv)

lemma emits_return: "P a [] \<Longrightarrow> emits (State_Monad.return a) P"
  by (simp add: emits_def)

lemma emits_bind:
  assumes m: "emits m P" and f: "\<And>a es. P a es \<Longrightarrow> emits (f a) (\<lambda>b fs. Q b (es @ fs))"
  shows "emits (State_Monad.bind m f) Q"
  unfolding emits_def
proof
  fix s
  obtain a s1 where 1: "run_state m s = (a, s1)" by fastforce
  with m obtain es where es: "r_trace s1 = r_trace s @ es" "P a es" by (rule emitsE)
  obtain b s2 where 2: "run_state (f a) s1 = (b, s2)" by fastforce
  from f [OF es(2)] 2 obtain fs where fs: "r_trace s2 = r_trace s1 @ fs" "Q b (es @ fs)"
    by (rule emitsE)
  from 1 2 have "run_state (State_Monad.bind m f) s = (b, s2)" by simp
  with es fs show "\<exists>gs. r_trace (snd (run_state (State_Monad.bind m f) s)) = r_trace s @ gs
      \<and> Q (fst (run_state (State_Monad.bind m f) s)) gs"
    by simp
qed

lemma emits_mono: "emits m P \<Longrightarrow> (\<And>a es. P a es \<Longrightarrow> Q a es) \<Longrightarrow> emits m Q"
  unfolding emits_def by metis

lemma emits_grows: "grows r_trace P m \<Longrightarrow> emits m (\<lambda>a es. P es)"
  by (auto simp: grows_def emits_def)

lemma grows_emits: "emits m P \<Longrightarrow> (\<And>a es. P a es \<Longrightarrow> Q es) \<Longrightarrow> grows r_trace Q m"
  unfolding grows_def emits_def by metis

lemma emits_if:
  "(b \<Longrightarrow> emits m P) \<Longrightarrow> (\<not> b \<Longrightarrow> emits n P) \<Longrightarrow> emits (if b then m else n) P"
  by simp

lemma emits_option:
  "(x = None \<Longrightarrow> emits m P) \<Longrightarrow> (\<And>a. x = Some a \<Longrightarrow> emits (f a) P) \<Longrightarrow>
   emits (case x of None \<Rightarrow> m | Some a \<Rightarrow> f a) P"
  by (cases x) auto

lemma emits_quiet:
  "emits (world_get f) (\<lambda>a es. es = [])" "emits (world_do g) (\<lambda>a es. es = [])"
  "emits (clock d) (\<lambda>a es. es = [])"
  by (auto simp: emits_def world_get_def world_do_def clock_def)

lemma emits_emit: "emits (emit d e) (\<lambda>a es. es = [e])"
  by (auto simp: emits_def emit_def)

lemma emits_call: "emits (call d k c) (\<lambda>a es. es = (if k = JobSink then [Called c] else []))"
  by (cases k) (auto simp: emits_def emit_def call_def)

lemma emits_ctx_err: "emits (ctx_err d c) (\<lambda>a es. es = [])"
  unfolding ctx_err_def by (rule emits_bind emits_quiet emits_return | simp)+

lemma emits_with_timeout: "emits (with_timeout d c t) (\<lambda>a es. es = [])"
  unfolding with_timeout_def by (rule emits_bind emits_quiet emits_return | simp)+

lemma emits_exec:
  "emits (exec_docker d c wd env args) (\<lambda>r es. es = [Ran wd env r] \<and> rs_args r = args)"
  unfolding exec_docker_def Let_def
  by (rule emits_bind emits_quiet emits_emit emits_ctx_err emits_return | simp)+

lemma reads_exec:
  "docker_verb args \<in> set read_verbs \<Longrightarrow>
   grows r_trace (list_all reads_only) (exec_docker d c wd env args)"
  by (rule grows_emits [OF emits_exec]) auto

lemma reads_compose [grows_intros]:
  "grows r_trace (list_all reads_only) (validate d c t env)"
  "grows r_trace (list_all reads_only) (pull d c t env ss)"
  unfolding validate_def pull_def by (rule reads_exec; simp add: read_verbs_def)+

lemma reads_images [grows_intros]:
  "grows r_trace (list_all reads_only) (desired_images d c t env)"
  "grows r_trace (list_all reads_only) (image_exists d c i)"
  "grows r_trace (list_all reads_only) (image_id d c i)"
  unfolding desired_images_def image_exists_def image_id_def
  by (rule reads_rules reads_exec | simp add: read_verbs_def)+

lemma reads_attach [grows_intros]: "grows r_trace (list_all reads_only) (attach_image_ids d c cs)"
  unfolding attach_image_ids_def by (rule reads_rules reads_exec | simp add: read_verbs_def)+

lemma reads_containers [grows_intros]: "grows r_trace (list_all reads_only) (containers d c t env)"
  unfolding containers_def
  by (rule reads_sum reads_rules reads_exec grows_intros | simp add: read_verbs_def)+

lemma reads_run_step:
  "grows r_trace (list_all reads_only) fn \<Longrightarrow> grows r_trace (list_all reads_only) (run_step d k n fn)"
  unfolding run_step_def by (rule reads_rules grows_intros | assumption)+

lemma reads_steps [grows_intros]:
  "grows r_trace (list_all reads_only) (begin_step d k n)"
  "grows r_trace (list_all reads_only) (done_step d k n st e out)"
  "grows r_trace (list_all reads_only) (snapshot_containers d c k n t env)"
  "grows r_trace (list_all reads_only) (resolve_images d c k t env prior)"
  unfolding begin_step_def done_step_def snapshot_containers_def resolve_images_def Let_def
  by (rule reads_rules grows_intros)+

lemma reads_changed [grows_intros]:
  "grows r_trace (list_all reads_only) (changed_services d c xs desired t)"
proof (induction xs)
  case (Cons x xs)
  show ?case unfolding changed_services.simps Let_def by (rule reads_rules grows_intros Cons)+
qed (simp add: reads_log.grows_return)

lemma reads_tag_changes [grows_intros]:
  "grows r_trace (list_all reads_only) (tag_changes_more_than_the_tag d c t req im)"
  unfolding tag_changes_more_than_the_tag_def by (rule reads_rules grows_intros)+

lemma reads_poll [grows_intros]:
  "grows r_trace (list_all reads_only) (poll_health d t k hs n b st cs since)"
  unfolding poll_health_def judge_poll_def Let_def by (rule reads_rules grows_intros)+

lemma reads_wait_loop:
  "grows r_trace (list_all reads_only) (wait_loop fuel d c t k env hs n b st t0 i prev since)"
proof (induction fuel arbitrary: i prev since)
  case (Suc fuel)
  show ?case unfolding wait_loop.simps Let_def by (rule reads_rules grows_intros Suc)+
qed (simp add: reads_log.grows_return)

lemma reads_wait_healthy [grows_intros]:
  "grows r_trace (list_all reads_only) (wait_healthy fuel d c t k env hs n)"
  unfolding wait_healthy_def by (rule reads_rules grows_intros reads_wait_loop)+

lemma reads_check: "grows r_trace (list_all reads_only) (check d c t)"
  unfolding check_def Let_def by (rule reads_rules grows_intros)+

lemma reads_image_list: "grows r_trace (list_all reads_only) (images d c t)"
  unfolding images_def by (rule reads_rules grows_intros)+

section \<open>What must have happened prior an up\<close>

text \<open>
  The facts about a plan that lets the update go on: it is not a dry run, there is something
  to do, the pull succeeded and a required hook succeeded.
\<close>

definition pulled_ok :: "event list \<Rightarrow> bool" where
  "pulled_ok es \<longleftrightarrow> (\<exists>w env r. Ran w env r \<in> set es \<and> docker_verb (rs_args r) = ''pull'' \<and> rs_err r = None)"

definition validated_ok :: "target \<Rightarrow> event list \<Rightarrow> bool" where
  "validated_ok t es \<longleftrightarrow>
     (\<exists>w env r. Ran w env r \<in> set es \<and> rs_args r = base_args t @ [''config'', ''--quiet''] \<and> rs_err r = None)"

definition hook_ok :: "target \<Rightarrow> event list \<Rightarrow> bool" where
  "hook_ok t es \<longleftrightarrow>
     (hook_configured (t_pre_update t) \<and> hook_is_required (t_pre_update t)
      \<longrightarrow> RanHook (hk_command (the (t_pre_update t))) (hk_args (the (t_pre_update t))) None \<in> set es)"

lemma pulled_ok_append [simp]: "pulled_ok (es @ fs) \<longleftrightarrow> pulled_ok es \<or> pulled_ok fs"
  unfolding pulled_ok_def set_append by blast

lemma validated_ok_append [simp]:
  "validated_ok t (es @ fs) \<longleftrightarrow> validated_ok t es \<or> validated_ok t fs"
  unfolding validated_ok_def set_append by blast

lemma pulled_ok_mono: "set ys \<subseteq> set es \<Longrightarrow> pulled_ok ys \<Longrightarrow> pulled_ok es"
  unfolding pulled_ok_def by blast

lemma validated_ok_mono: "set ys \<subseteq> set es \<Longrightarrow> validated_ok t ys \<Longrightarrow> validated_ok t es"
  unfolding validated_ok_def by blast

lemma hook_ok_append: "hook_ok t fs \<Longrightarrow> hook_ok t (es @ fs)"
  by (auto simp: hook_ok_def)

lemma emits_run_step:
  assumes "emits fn P"
  shows "emits (run_step d k n fn) (\<lambda>r es. \<exists>ys. P r ys \<and> set ys \<subseteq> set es
     \<and> (list_all reads_only ys \<longrightarrow> list_all reads_only es))"
  unfolding run_step_def
  by (rule emits_bind [OF emits_call], rule emits_bind [OF emits_quiet(3)],
      rule emits_bind [OF assms], rule emits_bind [OF emits_quiet(3)],
      rule emits_bind [OF emits_call], rule emits_return) auto

lemma emits_pull_step:
  "emits (run_step d k n (pull d c t env ss))
     (\<lambda>r es. list_all reads_only es \<and> (rs_err r = None \<longrightarrow> pulled_ok es))"
proof -
  have "emits (pull d c t env ss) (\<lambda>r es. list_all reads_only es \<and> (rs_err r = None \<longrightarrow> pulled_ok es))"
    unfolding pull_def by (rule emits_mono [OF emits_exec]) (auto simp: pulled_ok_def read_verbs_def)
  then show ?thesis
    by (rule emits_mono [OF emits_run_step]) (blast intro: pulled_ok_mono)
qed

lemma emits_validate_step:
  "emits (run_step d k n (validate d c t env))
     (\<lambda>r es. list_all reads_only es \<and> (rs_err r = None \<longrightarrow> validated_ok t es))"
proof -
  have "emits (validate d c t env)
      (\<lambda>r es. list_all reads_only es \<and> (rs_err r = None \<longrightarrow> validated_ok t es))"
    unfolding validate_def
    by (rule emits_mono [OF emits_exec]) (auto simp: validated_ok_def read_verbs_def)
  then show ?thesis
    by (rule emits_mono [OF emits_run_step]) (blast intro: validated_ok_mono)
qed

lemma emits_pre_update:
  "emits (run_pre_update d c t k req ch)
     (\<lambda>r es. list_all reads_only es \<and> (r = None \<longrightarrow> hook_ok t es))"
  unfolding run_pre_update_def Let_def
proof (rule emits_if)
  assume "\<not> hook_configured (t_pre_update t)"
  then show "emits (State_Monad.return None)
      (\<lambda>r es. list_all reads_only es \<and> (r = None \<longrightarrow> hook_ok t es))"
    by (simp add: emits_return hook_ok_def)
qed (rule emits_bind [OF emits_call], rule emits_bind [OF emits_quiet(3)],
    rule emits_bind [OF emits_with_timeout], rule emits_bind [OF emits_quiet(1)],
    rule emits_bind [OF emits_quiet(2)], rule emits_bind [OF emits_ctx_err],
    rule emits_bind [OF emits_emit], rule emits_bind [OF emits_quiet(3)],
    rule emits_bind [OF emits_call], rule emits_return,
    auto simp: hook_ok_def split: option.splits if_splits)

text \<open>What a plan guarantees about its result and its trace.\<close>

definition plan_ok ::
  "target \<Rightarrow> job_request \<Rightarrow> (job_state \<times> string) + (string list \<times> container list \<times> string list)
   \<Rightarrow> event list \<Rightarrow> bool" where
  "plan_ok t req r es \<longleftrightarrow> list_all reads_only es \<and>
     (case r of
        Inl (st, msg) \<Rightarrow>
          st = StateFailed \<or> (st = StateDryRun \<and> rq_dry_run req)
          \<or> (st = StateNoChange \<and> \<not> rq_dry_run req \<and> \<not> rq_force req)
      | Inr (env, prior, changed) \<Rightarrow>
          \<not> rq_dry_run req \<and> validated_ok t es \<and> pulled_ok es \<and> hook_ok t es
          \<and> (changed \<noteq> [] \<or> rq_force req \<or> \<not> all_settled prior (health_targets t prior)))"

lemma plan_update_ok: "emits (plan_update d c t k req) (plan_ok t req)"
  unfolding plan_update_def Let_def
  apply (rule emits_bind [OF emits_quiet(1)])
  apply (rule emits_bind [OF emits_validate_step])
  apply (rule emits_if)
   apply (rule emits_return, simp add: plan_ok_def)
  apply (rule emits_bind [OF emits_grows [OF reads_steps(3)]])
  apply (rule emits_option)
   apply (rule emits_bind [OF emits_grows [OF reads_effects(5)]])
   apply (rule emits_bind [OF emits_grows [OF reads_steps(4)]])
   apply (rule emits_bind [OF emits_grows [OF reads_tag_changes]])
   apply (rule emits_option)
    apply (rule emits_bind [OF emits_grows [OF reads_ctx(2)]])
    apply (rule emits_bind [OF emits_pull_step])
    apply (rule emits_if)
     apply (rule emits_return, simp add: plan_ok_def)
    apply (rule emits_bind [OF emits_grows [OF reads_changed]])
    apply (rule emits_bind [OF emits_grows [OF reads_effects(5)]])
    apply (rule emits_if)
     apply (rule emits_bind [OF emits_grows [OF reads_effects(5)]])
     apply (rule emits_return, simp add: plan_ok_def)
    apply (rule emits_if)
     apply (rule emits_bind [OF emits_grows [OF reads_effects(5)]])
     apply (rule emits_return, simp add: plan_ok_def)
    apply (rule emits_bind [OF emits_pre_update])
    apply (rule emits_option)
     apply (rule emits_return, simp add: plan_ok_def hook_ok_append del: not_None_eq)
    apply (rule emits_bind [OF emits_grows [OF reads_effects(5)]])
    apply (rule emits_return, simp add: plan_ok_def)
   apply (rule emits_return, simp add: plan_ok_def)
  apply (rule emits_return, simp add: plan_ok_def)
  done

section \<open>Rolling back and applying\<close>

text \<open>A command that ran and that docker accepted.\<close>

definition ran_ok :: "string list \<Rightarrow> event list \<Rightarrow> bool" where
  "ran_ok args es \<longleftrightarrow> (\<exists>w env r. Ran w env r \<in> set es \<and> rs_args r = args \<and> rs_err r = None)"

definition inspect_id_args :: "string \<Rightarrow> string list" where
  "inspect_id_args ref = [''image'', ''inspect'', ''--format'', ''{{.Id}}'', ref]"

definition resolved_to :: "string \<Rightarrow> string \<Rightarrow> event list \<Rightarrow> bool" where
  "resolved_to ref i es \<longleftrightarrow> (\<exists>w env r. Ran w env r \<in> set es \<and> rs_args r = inspect_id_args ref
     \<and> rs_err r = None \<and> trim_space (rs_output r) = i)"

lemma ran_ok_mono: "set ys \<subseteq> set es \<Longrightarrow> ran_ok a ys \<Longrightarrow> ran_ok a es"
  unfolding ran_ok_def by blast

lemma resolved_to_mono: "set ys \<subseteq> set es \<Longrightarrow> resolved_to a i ys \<Longrightarrow> resolved_to a i es"
  unfolding resolved_to_def by blast

lemma ran_ok_append [simp]: "ran_ok a (es @ fs) \<longleftrightarrow> ran_ok a es \<or> ran_ok a fs"
  unfolding ran_ok_def set_append by blast

lemma resolved_to_append [simp]:
  "resolved_to a i (es @ fs) \<longleftrightarrow> resolved_to a i es \<or> resolved_to a i fs"
  unfolding resolved_to_def set_append by blast

lemma emits_exec_ok:
  "emits (exec_docker d c wd env args) (\<lambda>r es. rs_err r = None \<longrightarrow> ran_ok args es)"
  by (rule emits_mono [OF emits_exec]) (auto simp: ran_ok_def)

lemma emits_step_ok:
  "emits (run_step d k n (exec_docker d c wd env args)) (\<lambda>r es. rs_err r = None \<longrightarrow> ran_ok args es)"
  by (rule emits_mono [OF emits_run_step [OF emits_exec_ok]]) (blast intro: ran_ok_mono)

lemma emits_image_id:
  "emits (image_id d c ref) (\<lambda>r es. \<forall>i. r = Inr i \<longrightarrow> resolved_to ref i es)"
  unfolding image_id_def
  by (rule emits_bind [OF emits_exec], rule emits_return)
    (auto simp: resolved_to_def inspect_id_args_def split: option.splits)

text \<open>
  \<open>restored\<close>: docker confirmed that the container's reference names its old image again.
\<close>

definition restored :: "(string \<times> string) list \<Rightarrow> container \<Rightarrow> event list \<Rightarrow> bool" where
  "restored desired x es \<longleftrightarrow>
     ran_ok [''tag'', ''--'', ct_image_id x, image_ref desired x] es
     \<or> resolved_to (image_ref desired x) (ct_image_id x) es"

lemma restored_append: "restored desired x fs \<Longrightarrow> restored desired x (es @ fs)"
  by (auto simp: restored_def)

definition restore_ok ::
  "(string \<times> string) list \<Rightarrow> container list \<Rightarrow> string list \<times> string list \<Rightarrow> event list \<Rightarrow> bool" where
  "restore_ok desired xs mf es \<longleftrightarrow> (\<forall>x \<in> set xs. ct_image_id x \<noteq> [] \<and> image_ref desired x \<noteq> [] \<longrightarrow>
     ct_service x \<in> set (fst mf) \<or> ct_service x \<in> set (snd mf) \<or> restored desired x es)"

lemma restore_ok_skip:
  "restore_ok desired xs mf fs \<Longrightarrow> restored desired x es \<or> ct_image_id x = [] \<or> image_ref desired x = [] \<Longrightarrow>
   restore_ok desired (x # xs) mf (es @ fs)"
  by (auto simp: restore_ok_def restored_def)

lemma restore_ok_list:
  "restore_ok desired xs mf fs \<Longrightarrow> set (fst mf) \<subseteq> set (fst mf') \<Longrightarrow> set (snd mf) \<subseteq> set (snd mf') \<Longrightarrow>
   ct_service x \<in> set (fst mf') \<or> ct_service x \<in> set (snd mf') \<or> restored desired x es \<Longrightarrow>
   restore_ok desired (x # xs) mf' (es @ fs)"
  by (auto simp: restore_ok_def restored_append) (auto simp: restored_def)

lemma emits_restore:
  "emits (restore_tags d c k desired xs) (restore_ok desired xs)"
proof (induction xs)
  case Nil
  show ?case by (simp add: emits_return restore_ok_def)
next
  case (Cons x xs)
  show ?case
    unfolding restore_tags.simps Let_def
  proof (rule emits_if, goal_cases)
    case 1
    then show ?case
      by (intro emits_mono [OF Cons.IH]) (auto intro: restore_ok_skip [where es = "[]", simplified])
  next
    case 2
    show ?case
    proof (rule emits_bind [OF emits_grows [OF reads_images(2)]], rule emits_if, goal_cases)
      case (1 present es)
      show ?case
        by (rule emits_bind [OF Cons.IH], rule emits_return)
          (auto intro!: restore_ok_list)
    next
      case (2 present es)
      show ?case
      proof (rule emits_bind [OF emits_image_id], rule emits_if, goal_cases)
        case (1 cur es')
        then show ?case
          by (intro emits_mono [OF Cons.IH])
            (auto simp: restored_def simp flip: append_assoc intro!: restore_ok_skip)
      next
        case (2 cur es')
        show ?case
          unfolding tag_image_def
          by (rule emits_bind [OF emits_step_ok], rule emits_bind [OF Cons.IH], rule emits_return)
            (auto simp: restored_def simp flip: append_assoc intro!: restore_ok_list)
      qed
    qed
  qed
qed

text \<open>Every operation only appends to the trace.\<close>

definition appends :: "('w, 'a) act \<Rightarrow> bool" where
  "appends m \<longleftrightarrow> emits m (\<lambda>a es. True)"

lemma appends_reads: "grows r_trace Q m \<Longrightarrow> appends m"
  unfolding appends_def by (rule emits_mono [OF emits_grows]) simp_all

lemmas appendsD = iffD1 [OF appends_def]

text \<open>The images a run resolved, as its step reports them.\<close>

definition reported_images :: "(string \<times> string) list \<Rightarrow> event list \<Rightarrow> bool" where
  "reported_images desired es \<longleftrightarrow> (\<exists>s. Called (AddStep s) \<in> set es \<and> st_name s = ''resolve-images''
     \<and> st_output s = summarise_images desired)"

lemma reported_images_append [simp]:
  "reported_images m (es @ fs) \<longleftrightarrow> reported_images m es \<or> reported_images m fs"
  unfolding reported_images_def set_append by blast

lemma emits_done:
  "emits (done_step d JobSink n st err out)
     (\<lambda>a es. \<exists>now. es = [Called (AddStep (make_step n [] st now err out))])"
  unfolding done_step_def
  by (rule emits_bind [OF emits_quiet(3)], rule emits_mono [OF emits_call]) auto

lemma emits_resolve: "emits (resolve_images d c JobSink t env prior) reported_images"
  unfolding resolve_images_def Let_def
  by (rule emits_bind [OF emits_grows [OF reads_steps(1)]],
      rule emits_bind [OF emits_grows [OF reads_images(1)]],
      rule emits_bind [OF emits_done], rule emits_return)
    (auto simp: reported_images_def make_step_def)

text \<open>
  The rollback's outcomes.  \<open>rolled_back\<close>: the stack was recreated by force, and every container
  whose old image is known has its reference restored, unless the message names its service.
\<close>

definition rolled_back :: "target \<Rightarrow> container list \<Rightarrow> string list \<Rightarrow> string \<Rightarrow> string \<Rightarrow> event list \<Rightarrow> bool"
where
  "rolled_back t prior services cause msg es \<longleftrightarrow> ran_ok (up_args t services True) es
     \<and> (\<exists>desired missing. reported_images desired es
          \<and> msg = ''update failed, rolled back to the previous images: '' @ rollback_detail cause missing []
          \<and> (\<forall>x \<in> set prior. ct_image_id x \<noteq> [] \<and> image_ref desired x \<noteq> [] \<longrightarrow>
                ct_service x \<in> set missing \<or> restored desired x es))"

definition rollback_ok ::
  "target \<Rightarrow> container list \<Rightarrow> string list \<Rightarrow> string \<Rightarrow> (job_state \<times> string) option \<Rightarrow> event list \<Rightarrow> bool"
where
  "rollback_ok t prior services cause r es \<longleftrightarrow>
     (case r of
        None \<Rightarrow> True
      | Some (st, msg) \<Rightarrow>
          (st = StateFailed \<and> \<not> rollback_enabled t)
          \<or> (rollback_enabled t \<and> st = StateRollbackFailed)
          \<or> (rollback_enabled t \<and> st = StateRolledBack \<and> rolled_back t prior services cause msg es))"

lemma rolled_back_append:
  "rolled_back t prior services cause msg fs \<Longrightarrow> rolled_back t prior services cause msg (es @ fs)"
  unfolding rolled_back_def restored_def ran_ok_append resolved_to_append reported_images_append
  by blast

lemma rollback_ok_append:
  "rollback_ok t prior services cause r fs \<Longrightarrow> rollback_ok t prior services cause r (es @ fs)"
  by (auto simp: rollback_ok_def rolled_back_append split: option.splits)

lemma rollback_ok_simps:
  "rollback_ok t prior services cause None es"
  "\<not> rollback_enabled t \<Longrightarrow> rollback_ok t prior services cause (Some (StateFailed, m)) es"
  "rollback_enabled t \<Longrightarrow> rollback_ok t prior services cause (Some (StateRollbackFailed, m)) es"
  by (auto simp: rollback_ok_def)

lemma rolled_backI:
  assumes "reported_images desired es1" and "restore_ok desired prior mf es2" and "snd mf = []"
    and "ran_ok (up_args t services True) es3"
  shows "rolled_back t prior services cause
    (''update failed, rolled back to the previous images: '' @ rollback_detail cause (fst mf) [])
    (es1 @ es2 @ es3 @ es4)"
  unfolding rolled_back_def
proof (intro conjI exI [of _ desired] exI [of _ "fst mf"] ballI impI)
  fix x
  assume "x \<in> set prior" and "ct_image_id x \<noteq> [] \<and> image_ref desired x \<noteq> []"
  with assms(2,3) have "ct_service x \<in> set (fst mf) \<or> restored desired x es2"
    by (simp add: restore_ok_def)
  then show "ct_service x \<in> set (fst mf) \<or> restored desired x (es1 @ es2 @ es3 @ es4)"
    unfolding restored_def by auto
qed (use assms in simp_all)

lemma rollback_okI:
  assumes "rollback_enabled t" and "reported_images desired es1" and "restore_ok desired prior mf es2"
    and "\<not> snd mf \<noteq> []" and "e = None \<longrightarrow> ran_ok (up_args t services True) es3" and "\<not> e \<noteq> None"
    and "a = []" and "b = []"
  shows "rollback_ok t prior services cause
    (Some (StateRolledBack,
       ''update failed, rolled back to the previous images: '' @ rollback_detail cause (fst mf) (snd mf)))
    (a @ b @ es1 @ es2 @ es3 @ es4)"
  using rolled_backI [of desired es1 prior mf es2 t services es3 cause es4] assms
  by (simp only: rollback_ok_def option.case prod.case not_not append_Nil) blast

lemma rollback_spec:
  "emits (rollback fuel d c t JobSink prior services hs cause) (rollback_ok t prior services cause)"
  unfolding rollback_def Let_def
  apply (rule emits_if)
   apply (rule emits_bind [OF emits_quiet(1)])
   apply (rule emits_bind [OF emits_grows [OF reads_steps(3)]])
   apply (rule emits_bind [OF emits_grows [OF reads_effects(5)]])
   apply (rule emits_return, simp add: rollback_ok_simps)
  apply (rule emits_bind [OF emits_with_timeout])
  apply (rule emits_bind [OF emits_quiet(1)])
  apply (rule emits_bind [OF emits_resolve])
  apply (rule emits_bind [OF emits_restore])
  apply (unfold up_def, rule emits_bind [OF emits_step_ok])
  apply (rule emits_bind [OF emits_grows [OF reads_steps(3)]])
  apply (rule emits_bind [OF emits_grows [OF reads_effects(5)]])
  apply (rule emits_if)
   apply (rule emits_return, simp add: rollback_ok_simps)
  apply (rule emits_if)
   apply (rule emits_return, simp add: rollback_ok_simps)
  apply (rule emits_bind [OF emits_grows [OF reads_wait_healthy]])
  apply (rule emits_option)
   apply (rule emits_return, simp add: rollback_ok_simps)
  apply (rule emits_option)
   apply (rule emits_bind [OF emits_grows [OF reads_steps(3)]])
   apply (rule emits_bind [OF emits_grows [OF reads_effects(5)]])
   apply (rule emits_return)
   apply (rule rollback_okI; (assumption | blast | simp))
  apply (rule emits_return, simp add: rollback_ok_simps)
  done

definition apply_ok :: "target \<Rightarrow> container list \<Rightarrow> (job_state \<times> string) option \<Rightarrow> event list \<Rightarrow> bool" where
  "apply_ok t prior r es \<longleftrightarrow>
     (\<exists>cause. rollback_ok t prior (t_services t) cause r es)
     \<or> (\<exists>msg. r = Some (StateSucceeded, msg) \<and> ran_ok (up_args t (t_services t) False) es)"

lemma apply_okI: "rollback_ok t prior (t_services t) cause r fs \<Longrightarrow> apply_ok t prior r (es @ fs)"
  unfolding apply_ok_def by (blast intro: rollback_ok_append)

lemma apply_spec:
  "emits (apply_update fuel d c t JobSink env prior changed) (apply_ok t prior)"
  unfolding apply_update_def Let_def up_def
  apply (rule emits_bind [OF emits_step_ok])
  apply (rule emits_if)
   apply (rule emits_mono [OF rollback_spec], simp add: apply_okI)
  apply (rule emits_bind [OF emits_grows [OF reads_wait_healthy]])
  apply (rule emits_option)
   apply (rule emits_return, simp add: apply_ok_def rollback_ok_simps)
  apply (rule emits_option)
   apply (rule emits_bind [OF emits_grows [OF reads_steps(3)]])
   apply (rule emits_bind [OF emits_grows [OF reads_effects(5)]])
   apply (rule emits_return, simp add: apply_ok_def)
  apply (rule emits_mono [OF rollback_spec], simp add: apply_okI flip: append_assoc)
  done

text \<open>The whole pipeline: a plan that decides the job, or a plan and what is applied after it.\<close>

definition pipeline_ok ::
  "target \<Rightarrow> job_request \<Rightarrow> (job_state \<times> string) option \<Rightarrow> event list \<Rightarrow> bool" where
  "pipeline_ok t req r es \<longleftrightarrow>
     (\<exists>result. r = Some result \<and> plan_ok t req (Inl result) es)
     \<or> (\<exists>env prior changed es1 es2. es = es1 @ es2 \<and> plan_ok t req (Inr (env, prior, changed)) es1
          \<and> apply_ok t prior r es2)"

lemma pipeline_spec: "emits (pipeline fuel d c t JobSink req) (pipeline_ok t req)"
  unfolding pipeline_def
proof (rule emits_bind [OF plan_update_ok])
  fix plan es
  assume p: "plan_ok t req plan es"
  show "emits (case plan of Inl result \<Rightarrow> State_Monad.return (Some result)
      | Inr (env, prior, changed) \<Rightarrow> apply_update fuel d c t JobSink env prior changed)
      (\<lambda>b fs. pipeline_ok t req b (es @ fs))"
  proof (cases plan)
    case (Inl result)
    with p have "pipeline_ok t req (Some result) es" unfolding pipeline_ok_def by blast
    with Inl show ?thesis by (simp add: emits_return)
  next
    case (Inr ebc)
    obtain env prior changed where e: "ebc = (env, prior, changed)" by (cases ebc)
    have "emits (apply_update fuel d c t JobSink env prior changed)
        (\<lambda>b fs. pipeline_ok t req b (es @ fs))"
      using p Inr e by (intro emits_mono [OF apply_spec]) (unfold pipeline_ok_def, blast)
    with Inr e show ?thesis by simp
  qed
qed

text \<open>The events a run appended, and how a specification applies to them.\<close>

definition new_events :: "'w run \<Rightarrow> 'w run \<Rightarrow> event list" where
  "new_events s s' = drop (length (r_trace s)) (r_trace s')"

lemma emits_new: "emits m P \<Longrightarrow> P (fst (run_state m s)) (new_events s (snd (run_state m s)))"
  unfolding emits_def new_events_def by (metis append_eq_conv_conj)

lemma reads_new:
  "grows r_trace (list_all reads_only) m \<Longrightarrow> list_all reads_only (new_events s (snd (run_state m s)))"
  using emits_new [OF emits_grows] by blast

lemma plan_ok_reads: "plan_ok t req r es \<Longrightarrow> list_all reads_only es"
  by (simp add: plan_ok_def)

text \<open>
  \<open>guarded\<close>: nothing but reading happened, or the trace starts with a reading part in which the
  compose file validated, the images were pulled and the required hook succeeded.
\<close>

definition guarded :: "target \<Rightarrow> job_request \<Rightarrow> event list \<Rightarrow> bool" where
  "guarded t req es \<longleftrightarrow> list_all reads_only es
     \<or> (\<not> rq_dry_run req \<and> (\<exists>es1 es2. es = es1 @ es2 \<and> list_all reads_only es1
          \<and> validated_ok t es1 \<and> pulled_ok es1 \<and> hook_ok t es1))"

lemma pipeline_ok_guarded: "pipeline_ok t req r es \<Longrightarrow> guarded t req es"
  unfolding pipeline_ok_def plan_ok_def guarded_def by auto

text \<open>The outcomes of a job, each with what the trace then shows.\<close>

definition outcome_ok :: "target \<Rightarrow> job_request \<Rightarrow> job_state \<Rightarrow> string \<Rightarrow> event list \<Rightarrow> bool" where
  "outcome_ok t req st msg es \<longleftrightarrow>
     (case st of
        StateFailed \<Rightarrow> list_all reads_only es \<or> \<not> rollback_enabled t
      | StateDryRun \<Rightarrow> list_all reads_only es \<and> rq_dry_run req
      | StateNoChange \<Rightarrow> list_all reads_only es \<and> \<not> rq_dry_run req \<and> \<not> rq_force req
      | StateSucceeded \<Rightarrow> ran_ok (up_args t (t_services t) False) es
      | StateRolledBack \<Rightarrow>
          rollback_enabled t \<and> (\<exists>prior cause. rolled_back t prior (t_services t) cause msg es)
      | StateRollbackFailed \<Rightarrow> rollback_enabled t
      | _ \<Rightarrow> False)"

lemma pipeline_ok_outcome: "pipeline_ok t req (Some (st, msg)) es \<Longrightarrow> outcome_ok t req st msg es"
  unfolding pipeline_ok_def
proof (elim disjE exE conjE)
  fix result
  assume "Some (st, msg) = Some result" "plan_ok t req (Inl result) es"
  then show ?thesis by (auto simp: plan_ok_def outcome_ok_def)
next
  fix env prior changed es1 es2
  assume e: "es = es1 @ es2" and a: "apply_ok t prior (Some (st, msg)) es2"
  from a show ?thesis
    unfolding apply_ok_def rollback_ok_def e
    by (auto simp: outcome_ok_def) (blast intro: rolled_back_append)
qed

end
