(* ===== verification/Wire.thy ===== *)
theory Wire
  imports Pipeline_Trace
begin

text \<open>
  Packages \<open>internal/wire\<close> and \<open>internal/agent\<close>: the protocol between the unprivileged service
  and the root agent, and the client that speaks it.

  The agent streams one JSON object per sink call and a last one with the result.  What the
  decoder gives back for an encoded event is \<open>transmit\<close>: \<open>encoding/json\<close> replaces every byte that
  is not valid UTF-8 by U+FFFD and leaves the rest of these records alone.  A stream is the
  list of what successive calls of \<open>Decode\<close> return, its end being the end of the body.
\<close>

section \<open>Events\<close>

record wire_event =
  ev_type :: string
  ev_step :: "step option"
  ev_states :: "service_state list"
  ev_changed :: "string list"
  ev_state :: job_state
  ev_message :: string

definition event_step :: string where "event_step = ''step''"
definition event_step_start :: string where "event_step_start = ''step_start''"
definition event_progress :: string where "event_progress = ''progress''"
definition event_before :: string where "event_before = ''before''"
definition event_after :: string where "event_after = ''after''"
definition event_changed :: string where "event_changed = ''changed''"
definition event_result :: string where "event_result = ''result''"

definition max_body_bytes :: nat where "max_body_bytes = 64 * 1024"

lemmas event_names =
  event_step_def event_step_start_def event_progress_def event_before_def event_after_def
  event_changed_def event_result_def

definition blank_event :: "string \<Rightarrow> wire_event" where
  "blank_event ty =
     \<lparr>ev_type = ty, ev_step = None, ev_states = [], ev_changed = [], ev_state = StateOther [],
      ev_message = []\<rparr>"

record exec_request =
  ex_target :: string
  ex_tag :: string
  ex_dry_run :: bool
  ex_force :: bool

section \<open>The streaming sink of the agent\<close>

text \<open>The step of a start event: its name and the flag, every other field zero.\<close>

definition start_of :: "string \<Rightarrow> step" where
  "start_of name =
     \<lparr>st_name = name, st_command = [], st_started = zero_time, st_duration = 0, st_ok = False,
      st_running = True, st_error = [], st_output = []\<rparr>"

fun event_of :: "sink_call \<Rightarrow> wire_event" where
  "event_of (StartStep n) = (blank_event event_step_start)\<lparr>ev_step := Some (start_of n)\<rparr>"
| "event_of (SetProgress ss) = (blank_event event_progress)\<lparr>ev_states := ss\<rparr>"
| "event_of (AddStep s) = (blank_event event_step)\<lparr>ev_step := Some s\<rparr>"
| "event_of (SetBefore ss) = (blank_event event_before)\<lparr>ev_states := ss\<rparr>"
| "event_of (SetAfter ss) = (blank_event event_after)\<lparr>ev_states := ss\<rparr>"
| "event_of (SetChanged ss) = (blank_event event_changed)\<lparr>ev_changed := ss\<rparr>"

definition result_event :: "job_state \<Rightarrow> string \<Rightarrow> wire_event" where
  "result_event st msg = (blank_event event_result)\<lparr>ev_state := st, ev_message := msg\<rparr>"

definition exec_stream :: "sink_call list \<Rightarrow> job_state \<times> string \<Rightarrow> wire_event list" where
  "exec_stream cs r = map event_of cs @ [result_event (fst r) (snd r)]"

section \<open>Transmission\<close>

definition to_valid :: "string \<Rightarrow> string" where
  "to_valid s = concat (map (\<lambda>p. if fst p = 65533 then ufffd else snd p) (utf8_chunks s))"

definition transmit_state :: "job_state \<Rightarrow> job_state" where
  "transmit_state s = (case s of StateOther x \<Rightarrow> StateOther (to_valid x) | _ \<Rightarrow> s)"

definition transmit_step :: "step \<Rightarrow> step" where
  "transmit_step s =
     s\<lparr>st_name := to_valid (st_name s), st_command := to_valid (st_command s),
       st_error := to_valid (st_error s), st_output := to_valid (st_output s)\<rparr>"

definition transmit_service :: "service_state \<Rightarrow> service_state" where
  "transmit_service s =
     \<lparr>sv_service = to_valid (sv_service s), sv_container = to_valid (sv_container s),
      sv_image = to_valid (sv_image s), sv_image_id = to_valid (sv_image_id s),
      sv_state = to_valid (sv_state s), sv_health = to_valid (sv_health s)\<rparr>"

definition transmit :: "wire_event \<Rightarrow> wire_event" where
  "transmit e =
     \<lparr>ev_type = to_valid (ev_type e), ev_step = map_option transmit_step (ev_step e),
      ev_states = map transmit_service (ev_states e), ev_changed = map to_valid (ev_changed e),
      ev_state = transmit_state (ev_state e), ev_message = to_valid (ev_message e)\<rparr>"

fun transmit_call :: "sink_call \<Rightarrow> sink_call" where
  "transmit_call (StartStep n) = StartStep (to_valid n)"
| "transmit_call (SetProgress ss) = SetProgress (map transmit_service ss)"
| "transmit_call (AddStep s) = AddStep (transmit_step s)"
| "transmit_call (SetBefore ss) = SetBefore (map transmit_service ss)"
| "transmit_call (SetAfter ss) = SetAfter (map transmit_service ss)"
| "transmit_call (SetChanged ss) = SetChanged (map to_valid ss)"

section \<open>The client\<close>

text \<open>What one decoded event makes the client do on its own sink.\<close>

definition calls_of :: "wire_event \<Rightarrow> sink_call list" where
  "calls_of e =
     (let ty = ev_type e in
      if ty = event_step_start then
        (case ev_step e of None \<Rightarrow> [] | Some s \<Rightarrow> [StartStep (st_name s)])
      else if ty = event_step then (case ev_step e of None \<Rightarrow> [] | Some s \<Rightarrow> [AddStep s])
      else if ty = event_progress then [SetProgress (ev_states e)]
      else if ty = event_before then [SetBefore (ev_states e)]
      else if ty = event_after then [SetAfter (ev_states e)]
      else if ty = event_changed then [SetChanged (ev_changed e)]
      else [])"

fun consume_from ::
  "(job_state \<times> string) option \<Rightarrow> (string + wire_event) list \<Rightarrow> sink_call list \<times> (string + job_state \<times> string)"
where
  "consume_from got [] =
     ([], case got of
            None \<Rightarrow> Inl ''the update agent closed the stream without reporting a result; the stack may be mid-update''
          | Some r \<Rightarrow> Inr r)"
| "consume_from got (Inl e # rest) = ([], Inl (''update agent stream ended badly: '' @ e))"
| "consume_from got (Inr ev # rest) =
     (case consume_from (if ev_type ev = event_result then Some (ev_state ev, ev_message ev) else got) rest of
        (cs, r) \<Rightarrow> (calls_of ev @ cs, r))"

definition consume :: "(string + wire_event) list \<Rightarrow> sink_call list \<times> (string + job_state \<times> string)" where
  "consume stream = consume_from None stream"

definition max_error_bytes :: nat where "max_error_bytes = 8 * 1024"
definition max_discover_bytes :: nat where "max_discover_bytes = 4 * 1024 * 1024"

text \<open>
  \<open>agentError\<close>, the decoder of an error body being an argument; and \<open>Client.Update\<close> from the
  response on: a transport error, or a status with a body read either as bytes or as a stream.
\<close>

definition agent_error :: "(string \<Rightarrow> string option) \<Rightarrow> string \<Rightarrow> string" where
  "agent_error dec body =
     (case dec body of
        Some e \<Rightarrow> if e \<noteq> [] then e else trim_space body
      | None \<Rightarrow> trim_space body)"

definition exec_payload :: "target \<Rightarrow> job_request \<Rightarrow> exec_request" where
  "exec_payload t req =
     \<lparr>ex_target = t_name t, ex_tag = rq_tag req, ex_dry_run = rq_dry_run req, ex_force = rq_force req\<rparr>"

record response =
  rp_status :: nat
  rp_body :: string
  rp_stream :: "(string + wire_event) list"

definition client_update ::
  "string \<Rightarrow> (string \<Rightarrow> string option) \<Rightarrow> string + response \<Rightarrow> sink_call list \<times> (string + job_state \<times> string)"
where
  "client_update socket dec resp =
     (case resp of
        Inl e \<Rightarrow> ([], Inl (''could not reach the update agent on '' @ socket @ '': '' @ e))
      | Inr r \<Rightarrow>
          if rp_status r \<noteq> 200
          then ([], Inl (''the update agent refused the request ('' @ itoa (int (rp_status r)) @ ''): ''
                         @ agent_error dec (take max_error_bytes (rp_body r))))
          else consume (rp_stream r))"

text \<open>\<open>Client.Check\<close>: an error is a \<open>StatusError\<close> when the agent answered at all.\<close>

datatype client_error = StatusError nat string | ClientError string

fun status_code :: "client_error \<Rightarrow> nat option" where
  "status_code (StatusError n m) = Some n"
| "status_code (ClientError m) = None"

fun client_error_text :: "client_error \<Rightarrow> string" where
  "client_error_text (StatusError n m) =
     ''the update agent refused the check ('' @ itoa (int n) @ ''): '' @ m"
| "client_error_text (ClientError m) = m"

definition client_check ::
  "string \<Rightarrow> (string \<Rightarrow> string option) \<Rightarrow> (string \<Rightarrow> string + check_result) \<Rightarrow> string + response
   \<Rightarrow> client_error + check_result" where
  "client_check socket dec dec_result resp =
     (case resp of
        Inl e \<Rightarrow> Inl (ClientError (''could not reach the update agent on '' @ socket @ '': '' @ e))
      | Inr r \<Rightarrow>
          (let body = take max_error_bytes (rp_body r) in
           if rp_status r \<noteq> 200 then Inl (StatusError (rp_status r) (agent_error dec body))
           else (case dec_result body of
                   Inl e \<Rightarrow> Inl (ClientError (''could not read the agent's check result: '' @ e))
                 | Inr c \<Rightarrow> Inr c)))"

definition client_images ::
  "string \<Rightarrow> string \<Rightarrow> (string \<Rightarrow> string option) \<Rightarrow> (string \<Rightarrow> string + images_result) \<Rightarrow> string + response
   \<Rightarrow> string + images_result" where
  "client_images socket target dec dec_result resp =
     (case resp of
        Inl e \<Rightarrow> Inl (''could not reach the update agent on '' @ socket @ '': '' @ e)
      | Inr r \<Rightarrow>
          (let body = take max_discover_bytes (rp_body r) in
           if rp_status r \<noteq> 200
           then Inl (''the update agent would not list the images for '' @ quote target @ '' (''
                     @ itoa (int (rp_status r)) @ ''): '' @ agent_error dec body)
           else (case dec_result body of
                   Inl e \<Rightarrow> Inl (''could not read the agent's image list: '' @ e)
                 | Inr c \<Rightarrow> Inr c)))"

section \<open>A stream consumed is the calls replayed\<close>

lemma to_valid_ascii: "list_all (\<lambda>c. byte c < 128) s \<Longrightarrow> to_valid s = s"
  by (induction s) (auto simp: to_valid_def utf8_chunks_ascii)

lemma to_valid_event_names [simp]:
  "to_valid event_step = event_step" "to_valid event_step_start = event_step_start"
  "to_valid event_progress = event_progress" "to_valid event_before = event_before"
  "to_valid event_after = event_after" "to_valid event_changed = event_changed"
  "to_valid event_result = event_result"
  by (rule to_valid_ascii, simp add: event_names byte_def)+

lemma event_names_distinct [simp]:
  "event_step \<noteq> event_step_start" "event_progress \<noteq> event_step_start" "event_progress \<noteq> event_step"
  "event_before \<noteq> event_step_start" "event_before \<noteq> event_step" "event_before \<noteq> event_progress"
  "event_after \<noteq> event_step_start" "event_after \<noteq> event_step" "event_after \<noteq> event_progress"
  "event_after \<noteq> event_before" "event_changed \<noteq> event_step_start" "event_changed \<noteq> event_step"
  "event_changed \<noteq> event_progress" "event_changed \<noteq> event_before" "event_changed \<noteq> event_after"
  "event_result \<noteq> event_step_start" "event_result \<noteq> event_step" "event_result \<noteq> event_progress"
  "event_result \<noteq> event_before" "event_result \<noteq> event_after" "event_result \<noteq> event_changed"
  by (simp_all add: event_names)

lemma event_of_type [simp]: "ev_type (event_of c) \<noteq> event_result"
  by (cases c) (simp_all add: blank_event_def event_names)

lemma transmit_type: "ev_type (transmit (event_of c)) = ev_type (event_of c)"
  by (cases c) (simp_all add: transmit_def blank_event_def)

lemma calls_of_transmit [simp]: "calls_of (transmit (event_of c)) = [transmit_call c]"
  by (cases c)
    (simp_all add: calls_of_def transmit_def blank_event_def transmit_step_def start_of_def)

lemma transmit_result [simp]:
  "ev_type (transmit (result_event st msg)) = event_result"
  "ev_state (transmit (result_event st msg)) = transmit_state st"
  "ev_message (transmit (result_event st msg)) = to_valid msg"
  "calls_of (transmit (result_event st msg)) = []"
  by (simp_all add: calls_of_def transmit_def blank_event_def result_event_def)

lemma consume_calls:
  "consume_from got (map (Inr \<circ> transmit \<circ> event_of) cs @ rest) =
     (map transmit_call cs @ fst (consume_from got rest), snd (consume_from got rest))"
proof (induction cs)
  case (Cons c cs)
  then show ?case by (simp add: transmit_type split: prod.split)
qed simp

lemma consume_result:
  "consume_from got [Inr (transmit (result_event st msg))] = ([], Inr (transmit_state st, to_valid msg))"
  by simp

lemma consume_stream:
  "consume (map (Inr \<circ> transmit) (exec_stream cs (st, msg)))
   = (map transmit_call cs, Inr (transmit_state st, to_valid msg))"
  using consume_calls [of None cs "[Inr (transmit (result_event st msg))]"]
  by (simp add: consume_def exec_stream_def consume_result comp_assoc del: consume_from.simps(3))

text \<open>A stream cut before its result, cleanly or not, is an error and never a success.\<close>

lemma consume_cut:
  assumes "n < length (exec_stream cs r)" and "tail = [] \<or> tail = [Inl e]"
  shows "fst (consume (map (Inr \<circ> transmit) (take n (exec_stream cs r)) @ tail)) = map transmit_call (take n cs)
    \<and> (\<exists>err. snd (consume (map (Inr \<circ> transmit) (take n (exec_stream cs r)) @ tail)) = Inl err)"
proof -
  have n: "n \<le> length cs" using assms by (simp add: exec_stream_def)
  then have "take n (exec_stream cs r) = map event_of (take n cs)"
    by (simp add: exec_stream_def take_map)
  moreover have "fst (consume_from None tail) = [] \<and> (\<exists>e. snd (consume_from None tail) = Inl e)"
    using assms(2) by auto
  ultimately show ?thesis
    using consume_calls [of None "take n cs" tail] by (simp add: consume_def comp_assoc)
qed

lemma pair_run_transmit:
  "pair_run p cs = Some q \<Longrightarrow>
   pair_run (map_option to_valid p) (map transmit_call cs) = Some (map_option to_valid q)"
proof (induction p cs rule: pair_run.induct)
  case (4 n s cs)
  then show ?case by (auto simp: transmit_step_def split: if_splits)
qed auto

lemma paired_transmit: "paired cs \<Longrightarrow> paired (map transmit_call cs)"
  using pair_run_transmit [of None cs None] by (simp add: paired_def)

end
