(* ===== verification/Schedule.thy ===== *)
theory Schedule
  imports Manager Wire
begin

text \<open>
  Package \<open>internal/schedule\<close>: the auto-update scheduler.  A tick is a function of what the
  checker answered, of the clock readings it made and of the state of the starter, which the
  scheduler knows only through \<open>update_starter\<close>; its announcements and the update it starts
  are a list of actions.
\<close>

section \<open>State\<close>

record pending =
  pd_since :: time
  pd_services :: "string list"

record sched =
  sc_pending :: "string \<Rightarrow> pending option"
  sc_next :: "string \<Rightarrow> time option"
  sc_last :: "string \<Rightarrow> time option"
  sc_broken :: "string set"

definition new_sched :: sched where
  "new_sched = \<lparr>sc_pending = Map.empty, sc_next = Map.empty, sc_last = Map.empty, sc_broken = {}\<rparr>"

definition ready_at :: "pending \<Rightarrow> duration \<Rightarrow> time" where
  "ready_at p soak = pd_since p + soak"

definition mark_broken :: "string \<Rightarrow> bool \<Rightarrow> sched \<Rightarrow> bool \<times> sched" where
  "mark_broken target failing s =
     ((target \<in> sc_broken s) \<noteq> failing,
      s\<lparr>sc_broken := (if failing then insert target (sc_broken s) else sc_broken s - {target})\<rparr>)"

definition pending_for :: "string \<Rightarrow> sched \<Rightarrow> pending option" where
  "pending_for target s = sc_pending s target"

definition timing :: "string \<Rightarrow> sched \<Rightarrow> time \<times> time" where
  "timing target s =
     ((case sc_last s target of None \<Rightarrow> zero_time | Some t \<Rightarrow> t),
      (case sc_next s target of None \<Rightarrow> zero_time | Some t \<Rightarrow> t))"

definition set_next :: "string \<Rightarrow> time \<Rightarrow> sched \<Rightarrow> sched" where
  "set_next target at s = s\<lparr>sc_next := (sc_next s)(target \<mapsto> at)\<rparr>"

definition set_last :: "string \<Rightarrow> time \<Rightarrow> sched \<Rightarrow> sched" where
  "set_last target at s = s\<lparr>sc_last := (sc_last s)(target \<mapsto> at)\<rparr>"

definition mark :: "time \<Rightarrow> string \<Rightarrow> string list \<Rightarrow> sched \<Rightarrow> (pending \<times> bool) \<times> sched" where
  "mark now target services s =
     (case sc_pending s target of
        Some existing \<Rightarrow> ((existing, True), s)
      | None \<Rightarrow>
          (let p = \<lparr>pd_since = now, pd_services = services\<rparr>
           in ((p, False), s\<lparr>sc_pending := (sc_pending s)(target \<mapsto> p)\<rparr>)))"

definition clear :: "string \<Rightarrow> sched \<Rightarrow> bool \<times> sched" where
  "clear target s = (sc_pending s target \<noteq> None, s\<lparr>sc_pending := (sc_pending s)(target := None)\<rparr>)"

definition clear_pending :: "string \<Rightarrow> sched \<Rightarrow> sched" where
  "clear_pending target s = snd (clear target s)"

definition managed :: "config \<Rightarrow> string list" where
  "managed c = map t_name (auto_update_targets c)"

section \<open>One tick\<close>

datatype sched_action =
    AnnounceAvailable string "string list" time
  | AnnounceWithdrawn string string
  | AnnounceCheckFailed string client_error
  | AnnounceCheckRecovered string
  | AskedChecker string
  | StartedUpdate string "string list"

definition auto_request :: "target \<Rightarrow> job_request" where
  "auto_request t =
     \<lparr>rq_tag = [], rq_reason = ''auto update after '' @ duration_string (t_soak t) @ '' soak'',
      rq_trigger = ''auto'', rq_dry_run = False, rq_force = False\<rparr>"

definition apply_pending ::
  "(target \<Rightarrow> job_request \<Rightarrow> 's \<Rightarrow> bool \<times> 's) \<Rightarrow> target \<Rightarrow> string list \<Rightarrow> sched \<times> 's
   \<Rightarrow> sched_action list \<times> sched \<times> 's" where
  "apply_pending start t changed su =
     (case start t (auto_request t) (snd su) of
        (False, u') \<Rightarrow> ([], fst su, u')
      | (True, u') \<Rightarrow> ([StartedUpdate (t_name t) changed], snd (clear (t_name t) (fst su)), u'))"

definition agent_busy :: "client_error \<Rightarrow> bool" where
  "agent_busy e \<longleftrightarrow> status_code e = Some 409 \<or> status_code e = Some 503"

text \<open>
  \<open>check_failed\<close> and \<open>check_recovered\<close> are the two announcements, which track the transition
  only when there is an announcer.
\<close>

definition note_failed :: "bool \<Rightarrow> string \<Rightarrow> client_error \<Rightarrow> sched \<Rightarrow> sched_action list \<times> sched" where
  "note_failed announce n e s =
     (if \<not> announce then ([], s)
      else (case mark_broken n True s of
              (changed, s') \<Rightarrow> (if changed then [AnnounceCheckFailed n e] else [], s')))"

definition note_recovered :: "bool \<Rightarrow> string \<Rightarrow> sched \<Rightarrow> sched_action list \<times> sched" where
  "note_recovered announce n s =
     (if \<not> announce then ([], s)
      else (case mark_broken n False s of
              (changed, s') \<Rightarrow> (if changed then [AnnounceCheckRecovered n] else [], s')))"

definition withdraw :: "bool \<Rightarrow> string \<Rightarrow> string \<Rightarrow> sched \<Rightarrow> sched_action list \<times> sched" where
  "withdraw announce n reason s =
     (case clear n s of
        (existed, s') \<Rightarrow> (if existed \<and> announce then [AnnounceWithdrawn n reason] else [], s'))"

text \<open>\<open>marked\<close> is the clock inside \<open>mark\<close>, \<open>now\<close> the one compared with the end of the soak.\<close>

definition offer ::
  "(target \<Rightarrow> job_request \<Rightarrow> 's \<Rightarrow> bool \<times> 's) \<Rightarrow> bool \<Rightarrow> target \<Rightarrow> string list \<Rightarrow> time \<Rightarrow> time \<Rightarrow> sched \<times> 's
   \<Rightarrow> sched_action list \<times> sched \<times> 's" where
  "offer start announce t changed marked now su =
     (case mark marked (t_name t) changed (fst su) of
        ((p, existed), s1) \<Rightarrow>
          (let ready = ready_at p (t_soak t);
               said = (if \<not> existed \<and> announce then [AnnounceAvailable (t_name t) changed ready] else [])
           in if \<not> existed \<and> 0 < t_soak t then (said, s1, snd su)
              else if now < ready then (said, s1, snd su)
              else (case apply_pending start t changed (s1, snd su) of
                      (as, r) \<Rightarrow> (said @ as, r))))"

definition tick ::
  "(string \<Rightarrow> 's \<Rightarrow> bool) \<Rightarrow> (target \<Rightarrow> job_request \<Rightarrow> 's \<Rightarrow> bool \<times> 's) \<Rightarrow> bool \<Rightarrow> target
   \<Rightarrow> client_error + check_result \<Rightarrow> time \<Rightarrow> time \<Rightarrow> sched \<times> 's \<Rightarrow> sched_action list \<times> sched \<times> 's" where
  "tick busy start announce t answer marked now su =
     (if busy (t_name t) (snd su) then ([], su)
      else
        (case answer of
           Inl e \<Rightarrow>
             (if agent_busy e then ([AskedChecker (t_name t)], su)
              else (case note_failed announce (t_name t) e (fst su) of
                      (as, s) \<Rightarrow> (AskedChecker (t_name t) # as, s, snd su)))
         | Inr result \<Rightarrow>
             (case note_recovered announce (t_name t) (fst su) of
                (as, s) \<Rightarrow>
                  (if \<not> cr_available result
                   then (case withdraw announce (t_name t) (cr_message result) s of
                           (bs, s') \<Rightarrow> (AskedChecker (t_name t) # as @ bs, s', snd su))
                   else (case offer start announce t (cr_changed result) marked now (s, snd su) of
                           (bs, r) \<Rightarrow> (AskedChecker (t_name t) # as @ bs, r))))))"

section \<open>The watch loop\<close>

definition startup_jitter :: duration where "startup_jitter = 90 * second"

text \<open>
  A round of \<open>watch\<close>: the bookkeeping around the tick.  The four clock readings are arguments.
  \<open>soak_timer\<close> is the duration of the extra wake-up, if one is set.
\<close>

definition watch_round ::
  "(string \<Rightarrow> 's \<Rightarrow> bool) \<Rightarrow> (target \<Rightarrow> job_request \<Rightarrow> 's \<Rightarrow> bool \<times> 's) \<Rightarrow> bool \<Rightarrow> target
   \<Rightarrow> client_error + check_result \<Rightarrow> time \<times> time \<times> time \<times> time \<Rightarrow> sched \<times> 's
   \<Rightarrow> sched_action list \<times> sched \<times> 's" where
  "watch_round busy start announce t answer readings su =
     (case readings of (began, marked, now, ended) \<Rightarrow>
        (case tick busy start announce t answer marked now (set_last (t_name t) began (fst su), snd su) of
           (as, s, u) \<Rightarrow> (as, set_next (t_name t) (ended + t_check_interval t) s, u)))"

definition soak_timer :: "target \<Rightarrow> time \<Rightarrow> sched \<Rightarrow> duration option" where
  "soak_timer t now s =
     (case pending_for (t_name t) s of
        None \<Rightarrow> None
      | Some p \<Rightarrow>
          (let d = time_sub (ready_at p (t_soak t)) now in if 0 < d then Some d else None))"

text \<open>When the select of \<open>watch\<close> wakes at the latest, given the next tick of its ticker.\<close>

definition wake_by :: "target \<Rightarrow> time \<Rightarrow> time \<Rightarrow> sched \<Rightarrow> time" where
  "wake_by t now tick_due s =
     (case soak_timer t now s of None \<Rightarrow> tick_due | Some d \<Rightarrow> min tick_due (now + d))"

section \<open>Lemmas\<close>

lemma note_failed_pending [simp]: "sc_pending (snd (note_failed a n e s)) = sc_pending s"
  by (simp add: note_failed_def mark_broken_def)

lemma note_recovered_pending [simp]: "sc_pending (snd (note_recovered a n s)) = sc_pending s"
  by (simp add: note_recovered_def mark_broken_def)

lemma note_failed_actions: "StartedUpdate n ch \<notin> set (fst (note_failed a m e s))"
  by (simp add: note_failed_def mark_broken_def)

lemma note_recovered_actions: "StartedUpdate n ch \<notin> set (fst (note_recovered a m s))"
  by (simp add: note_recovered_def mark_broken_def)

lemma withdraw_simps:
  "sc_pending (snd (withdraw a n r s)) = (sc_pending s)(n := None)"
  "StartedUpdate k ch \<notin> set (fst (withdraw a n r s))"
  by (simp_all add: withdraw_def clear_def)

lemma mark_simps:
  "fst (fst (mark now n ss s)) = (case sc_pending s n of Some p \<Rightarrow> p | None \<Rightarrow> \<lparr>pd_since = now, pd_services = ss\<rparr>)"
  "snd (fst (mark now n ss s)) = (sc_pending s n \<noteq> None)"
  "sc_pending (snd (mark now n ss s)) n = Some (fst (fst (mark now n ss s)))"
  "m \<noteq> n \<Longrightarrow> sc_pending (snd (mark now n ss s)) m = sc_pending s m"
  by (auto simp: mark_def Let_def split: option.splits)

text \<open>The pending entry an offer works with, and what it leaves.\<close>

definition offered :: "target \<Rightarrow> string list \<Rightarrow> time \<Rightarrow> sched \<Rightarrow> pending" where
  "offered t changed marked s = fst (fst (mark marked (t_name t) changed s))"

lemma offer_cases:
  "offer start a t ch marked now su = (as, s', u') \<Longrightarrow>
   (StartedUpdate (t_name t) ch \<in> set as \<and> ready_at (offered t ch marked (fst su)) (t_soak t) \<le> now
     \<and> fst (start t (auto_request t) (snd su)) \<and> sc_pending s' (t_name t) = None
     \<and> (sc_pending (fst su) (t_name t) \<noteq> None \<or> t_soak t \<le> 0))
   \<or> ((\<forall>n c. StartedUpdate n c \<notin> set as) \<and> sc_pending s' (t_name t) = Some (offered t ch marked (fst su))
     \<and> (ready_at (offered t ch marked (fst su)) (t_soak t) \<le> now
         \<longrightarrow> (sc_pending (fst su) (t_name t) = None \<and> 0 < t_soak t) \<or> \<not> fst (start t (auto_request t) (snd su))))"
  using mark_simps(2,3) [of marked "t_name t" ch "fst su"]
  by (cases "mark marked (t_name t) ch (fst su)"; cases "start t (auto_request t) (snd su)")
    (auto simp: offer_def offered_def Let_def apply_pending_def clear_def split: if_splits bool.splits)

lemma offer_start_target:
  "offer start a t ch marked now su = (as, r) \<Longrightarrow> StartedUpdate n c \<in> set as \<Longrightarrow> n = t_name t \<and> c = ch"
  by (cases "mark marked (t_name t) ch (fst su)"; cases "start t (auto_request t) (snd su)")
    (auto simp: offer_def Let_def apply_pending_def split: if_splits bool.splits)

lemma offer_pending_other:
  "offer start a t ch marked now su = (as, s', u') \<Longrightarrow> n \<noteq> t_name t \<Longrightarrow> sc_pending s' n = sc_pending (fst su) n"
  using mark_simps(4) [of n "t_name t" marked ch "fst su"]
  by (cases "mark marked (t_name t) ch (fst su)"; cases "start t (auto_request t) (snd su)")
    (auto simp: offer_def Let_def apply_pending_def clear_def split: if_splits bool.splits)

text \<open>What a tick that starts an update has found, and what it does to the pending entry.\<close>

lemma tick_started:
  assumes "tick busy start a t answer marked now su = (as, s', u')" and "StartedUpdate n ch \<in> set as"
  shows "n = t_name t \<and> \<not> busy n (snd su)
    \<and> (\<exists>r. answer = Inr r \<and> cr_available r \<and> cr_changed r = ch)
    \<and> ready_at (offered t ch marked (fst su)) (t_soak t) \<le> now
    \<and> (sc_pending (fst su) n \<noteq> None \<or> t_soak t \<le> 0)
    \<and> sc_pending s' n = None"
proof -
  have b: "\<not> busy (t_name t) (snd su)"
    using assms by (auto simp: tick_def)
  obtain r where r: "answer = Inr r"
  proof (cases answer)
    case (Inl e)
    then have "StartedUpdate n ch \<in> set (fst (note_failed a (t_name t) e (fst su)))"
      using assms b by (auto simp: tick_def split: if_splits prod.splits)
    then show thesis by (simp add: note_failed_actions)
  qed (rule that)
  have av: "cr_available r"
  proof (rule ccontr)
    assume "\<not> cr_available r"
    moreover obtain bs s0 where "note_recovered a (t_name t) (fst su) = (bs, s0)" by fastforce
    moreover from this have "StartedUpdate n ch \<notin> set bs"
      using note_recovered_actions [of n ch a "t_name t" "fst su"] by simp
    ultimately have "StartedUpdate n ch \<in> set (fst (withdraw a (t_name t) (cr_message r) s0))"
      using assms b r by (auto simp: tick_def split: prod.splits)
    then show False by (simp add: withdraw_simps)
  qed
  note r = r av
  obtain bs s0 cs where 1: "note_recovered a (t_name t) (fst su) = (bs, s0)"
    and 2: "offer start a t (cr_changed r) marked now (s0, snd su) = (cs, s', u')"
    and as: "as = AskedChecker (t_name t) # bs @ cs"
    using assms(1) b r by (auto simp: tick_def split: prod.splits)
  have p: "sc_pending s0 = sc_pending (fst su)" using note_recovered_pending [of a "t_name t" "fst su"] 1 by simp
  have in_cs: "StartedUpdate n ch \<in> set cs"
    using assms(2) as note_recovered_actions [of n ch a "t_name t" "fst su"] 1 by auto
  from offer_start_target [OF 2 in_cs] have n: "n = t_name t" "ch = cr_changed r" by auto
  have "offered t ch marked s0 = offered t ch marked (fst su)"
    by (simp add: offered_def mark_simps p)
  with offer_cases [OF 2] in_cs n p b r show ?thesis by auto
qed

lemma tick_pending:
  assumes "tick busy start a t answer marked now su = (as, s', u')" and "sc_pending s' (t_name t) = Some p"
  shows "sc_pending (fst su) (t_name t) = Some p
     \<and> (\<forall>r. answer = Inr r \<longrightarrow> \<not> cr_available r \<longrightarrow> busy (t_name t) (snd su))
   \<or> sc_pending (fst su) (t_name t) = None \<and> pd_since p = marked
     \<and> (\<exists>r. answer = Inr r \<and> cr_available r \<and> pd_services p = cr_changed r)"
proof (cases "busy (t_name t) (snd su)")
  case True
  with assms show ?thesis by (auto simp: tick_def)
next
  case b: False
  show ?thesis
  proof (cases answer)
    case (Inl e)
    obtain bs s0 where "note_failed a (t_name t) e (fst su) = (bs, s0)" by fastforce
    then show ?thesis using Inl assms b note_failed_pending [of a "t_name t" e "fst su"]
      by (auto simp: tick_def split: if_splits)
  next
    case (Inr r)
    obtain bs s0 where 1: "note_recovered a (t_name t) (fst su) = (bs, s0)" by fastforce
    have p: "sc_pending s0 = sc_pending (fst su)" using note_recovered_pending [of a "t_name t" "fst su"] 1 by simp
    show ?thesis
    proof (cases "cr_available r")
      case False
      then show ?thesis
        using assms b Inr 1 withdraw_simps(1) [of a "t_name t" "cr_message r" s0]
        by (auto simp: tick_def split: prod.splits)
    next
      case True
      obtain cs where 2: "offer start a t (cr_changed r) marked now (s0, snd su) = (cs, s', u')"
        using assms(1) b Inr 1 True by (auto simp: tick_def split: prod.splits)
      from offer_cases [OF 2] assms(2) have "p = offered t (cr_changed r) marked s0" by auto
      then show ?thesis using Inr True p
        by (auto simp: offered_def mark_simps split: option.splits)
    qed
  qed
qed

section \<open>Histories\<close>

text \<open>
  What happens to the scheduler and the starter over time, for one target: a tick with its
  answer and clock readings, a completed update clearing the soak, the starter's state changing.
\<close>

datatype 's sched_event =
    EvTick "client_error + check_result" time time
  | EvClear
  | EvWorld 's

fun sched_exec ::
  "(string \<Rightarrow> 's \<Rightarrow> bool) \<Rightarrow> (target \<Rightarrow> job_request \<Rightarrow> 's \<Rightarrow> bool \<times> 's) \<Rightarrow> bool \<Rightarrow> target
   \<Rightarrow> 's sched_event \<Rightarrow> sched \<times> 's \<Rightarrow> sched \<times> 's" where
  "sched_exec busy start a t (EvTick answer m n) su = snd (tick busy start a t answer m n su)"
| "sched_exec busy start a t EvClear su = (clear_pending (t_name t) (fst su), snd su)"
| "sched_exec busy start a t (EvWorld u) su = (fst su, u)"

definition sched_after ::
  "(string \<Rightarrow> 's \<Rightarrow> bool) \<Rightarrow> (target \<Rightarrow> job_request \<Rightarrow> 's \<Rightarrow> bool \<times> 's) \<Rightarrow> bool \<Rightarrow> target
   \<Rightarrow> 's sched_event list \<Rightarrow> 's \<Rightarrow> sched \<times> 's" where
  "sched_after busy start a t es u = fold (sched_exec busy start a t) es (new_sched, u)"

lemma sched_after_snoc:
  "sched_after busy start a t (es @ [e]) u = sched_exec busy start a t e (sched_after busy start a t es u)"
  by (simp add: sched_after_def)

text \<open>
  \<open>seen_since es m es2\<close>: the history is one in which a tick at time \<open>m\<close> saw an image, and in the
  rest \<open>es2\<close> no check found it gone and nothing cleared it.
\<close>

definition seen_since ::
  "(string \<Rightarrow> 's \<Rightarrow> bool) \<Rightarrow> (target \<Rightarrow> job_request \<Rightarrow> 's \<Rightarrow> bool \<times> 's) \<Rightarrow> bool \<Rightarrow> target
   \<Rightarrow> 's sched_event list \<Rightarrow> 's \<Rightarrow> time \<Rightarrow> bool" where
  "seen_since busy start a t es u m \<longleftrightarrow>
     (\<exists>es1 r n es2. es = es1 @ EvTick (Inr r) m n # es2 \<and> cr_available r \<and> EvClear \<notin> set es2
        \<and> (\<forall>pre r' m' n' post. es2 = pre @ EvTick (Inr r') m' n' # post \<longrightarrow> \<not> cr_available r' \<longrightarrow>
             busy (t_name t) (snd (sched_after busy start a t (es1 @ EvTick (Inr r) m n # pre) u))))"

lemma seen_since_new: "cr_available r \<Longrightarrow> seen_since busy start a t (es @ [EvTick (Inr r) m n]) u m"
  unfolding seen_since_def by (intro exI [of _ es] exI [of _ r] exI [of _ n] exI [of _ "[]"]) simp

lemma seen_since_snoc:
  assumes "seen_since busy start a t es u m" and "e \<noteq> EvClear"
    and "\<And>r' m' n'. e = EvTick (Inr r') m' n' \<Longrightarrow> \<not> cr_available r' \<Longrightarrow>
           busy (t_name t) (snd (sched_after busy start a t es u))"
  shows "seen_since busy start a t (es @ [e]) u m"
proof -
  obtain es1 r n es2 where es: "es = es1 @ EvTick (Inr r) m n # es2" "cr_available r" "EvClear \<notin> set es2"
    and q: "\<And>pre r' m' n' post. es2 = pre @ EvTick (Inr r') m' n' # post \<Longrightarrow> \<not> cr_available r' \<Longrightarrow>
             busy (t_name t) (snd (sched_after busy start a t (es1 @ EvTick (Inr r) m n # pre) u))"
    using assms(1) unfolding seen_since_def by blast
  have "busy (t_name t) (snd (sched_after busy start a t (es1 @ EvTick (Inr r) m n # pre) u))"
    if "es2 @ [e] = pre @ EvTick (Inr r') m' n' # post" "\<not> cr_available r'" for pre r' m' n' post
  proof (cases post rule: rev_cases)
    case Nil
    with that(1) have "pre = es2" "e = EvTick (Inr r') m' n'" by auto
    then show ?thesis using assms(3) that(2) es(1) by simp
  next
    case (snoc ps x)
    with that(1) have "es2 = pre @ EvTick (Inr r') m' n' # ps" by simp
    then show ?thesis using q that(2) by blast
  qed
  with es assms(2) show ?thesis
    unfolding seen_since_def
    by (intro exI [of _ es1] exI [of _ r] exI [of _ n] exI [of _ "es2 @ [e]"]) auto
qed

lemma pending_seen:
  "sc_pending (fst (sched_after busy start a t es u)) (t_name t) = Some p \<Longrightarrow>
   seen_since busy start a t es u (pd_since p)"
proof (induction es arbitrary: p rule: rev_induct)
  case Nil
  then show ?case by (simp add: sched_after_def new_sched_def)
next
  case (snoc e es)
  let ?su = "sched_after busy start a t es u"
  show ?case
  proof (cases e)
    case (EvTick answer m n)
    obtain as s' u' where t: "tick busy start a t answer m n ?su = (as, s', u')" by (metis surj_pair)
    have p: "sc_pending s' (t_name t) = Some p" using snoc.prems EvTick t by (simp add: sched_after_snoc)
    from tick_pending [OF t p] show ?thesis
    proof (elim disjE conjE exE)
      assume "sc_pending (fst ?su) (t_name t) = Some p"
        and "\<forall>r. answer = Inr r \<longrightarrow> \<not> cr_available r \<longrightarrow> busy (t_name t) (snd ?su)"
      then show ?thesis using EvTick by (intro seen_since_snoc snoc.IH) auto
    next
      fix r
      assume "pd_since p = m" "answer = Inr r" "cr_available r"
      then show ?thesis using EvTick by (simp add: seen_since_new)
    qed
  next
    case EvClear
    with snoc.prems show ?thesis by (simp add: sched_after_snoc clear_pending_def clear_def)
  next
    case (EvWorld w)
    with snoc.prems show ?thesis by (intro seen_since_snoc snoc.IH) (auto simp: sched_after_snoc)
  qed
qed

lemma started_after_soak:
  assumes "tick busy start a t answer marked now (sched_after busy start a t es u) = (as, su')"
    and "StartedUpdate n ch \<in> set as"
  shows "\<exists>m. seen_since busy start a t (es @ [EvTick answer marked now]) u m \<and> m + t_soak t \<le> now"
proof -
  obtain s' u' where su': "su' = (s', u')" by fastforce
  note ts = tick_started [OF assms(1)[unfolded su'] assms(2)]
  then obtain r where r: "answer = Inr r" "cr_available r" by blast
  show ?thesis
  proof (cases "sc_pending (fst (sched_after busy start a t es u)) (t_name t)")
    case None
    then have "marked + t_soak t \<le> now" using ts by (simp add: offered_def mark_simps ready_at_def)
    moreover have "seen_since busy start a t (es @ [EvTick answer marked now]) u marked"
      using r seen_since_new by simp
    ultimately show ?thesis by blast
  next
    case (Some p)
    then have "pd_since p + t_soak t \<le> now" using ts by (simp add: offered_def mark_simps ready_at_def)
    moreover have "seen_since busy start a t (es @ [EvTick answer marked now]) u (pd_since p)"
      using r by (intro seen_since_snoc pending_seen [OF Some]) auto
    ultimately show ?thesis by blast
  qed
qed

section \<open>No lateness\<close>

lemma wake_by_ready:
  assumes "pending_for (t_name t) s = Some p" and "now < ready_at p (t_soak t)"
  shows "wake_by t now tick_due s \<le> ready_at p (t_soak t)"
proof -
  have "0 < time_sub (ready_at p (t_soak t)) now" "time_sub (ready_at p (t_soak t)) now \<le> ready_at p (t_soak t) - now"
    using assms(2) by (auto simp: time_sub_def max_int64_def)
  then show ?thesis using assms(1) by (simp add: wake_by_def soak_timer_def Let_def min_def)
qed

context update_starter
begin

text \<open>A due update whose target is free is started by the next check that still sees it.\<close>

lemma tick_applies:
  assumes "sc_pending (fst su) (t_name t) = Some p" and "ready_at p (t_soak t) \<le> now"
    and "\<not> busy (t_name t) (snd su)" and "cr_available r"
  shows "StartedUpdate (t_name t) (cr_changed r) \<in> set (fst (tick busy start a t (Inr r) marked now su))
    \<and> busy (t_name t) (snd (snd (tick busy start a t (Inr r) marked now su)))"
proof -
  obtain bs s0 where 1: "note_recovered a (t_name t) (fst su) = (bs, s0)" by fastforce
  have p: "sc_pending s0 = sc_pending (fst su)"
    using note_recovered_pending [of a "t_name t" "fst su"] 1 by simp
  obtain u' where u: "start t (auto_request t) (snd su) = (True, u')" and b: "busy (t_name t) u'"
    using starts [of t "auto_request t" "snd su"] started [of t "auto_request t" "snd su"] assms(3)
    by (cases "start t (auto_request t) (snd su)") auto
  have m: "mark marked (t_name t) (cr_changed r) s0 = ((p, True), s0)"
    using assms(1) p by (simp add: mark_def)
  show ?thesis
    using assms 1 u b m
    by (simp add: tick_def offer_def Let_def apply_pending_def)
qed

text \<open>A tick leaves the starter alone unless it starts an update, and then only its own target.\<close>

lemma tick_frame:
  "n \<noteq> t_name t \<Longrightarrow> busy n (snd (snd (tick busy start a t answer marked now su))) = busy n (snd su)"
  using others [of n t "auto_request t" "snd su"]
  by (auto simp: tick_def offer_def Let_def apply_pending_def split: sum.splits prod.splits bool.splits if_splits)

end

end
