(* ===== verification/Semver.thy ===== *)
theory Semver
  imports Go_Order
begin

text \<open>
  \<open>internal/selfupdate/semver.go\<close>: versions, how they are read and how they compare.  The
  comparison is shown to be a total order on versions, and reading to invert printing.
\<close>

section \<open>Data\<close>

datatype semver = Semver (sv_major: int) (sv_minor: int) (sv_patch: int) (sv_pre: "string list")

section \<open>Reading\<close>

definition numeric_field :: "string \<Rightarrow> int option" where
  "numeric_field s =
     (if s = [] \<or> (1 < length s \<and> hd s = CHR ''0'') then None
      else if \<not> list_all is_digit s then None
      else atoi s)"

definition valid_ident :: "string \<Rightarrow> bool" where
  "valid_ident s \<longleftrightarrow> list_all (\<lambda>c. is_alnum c \<or> c = CHR ''-'') s"

text \<open>The core, with the pre-release identifiers found before it.\<close>

definition parse_core :: "string \<Rightarrow> string list \<Rightarrow> semver option" where
  "parse_core core pre =
     (case split_on (CHR ''.'') core of
        [a, b, c] \<Rightarrow>
          (case (numeric_field a, numeric_field b, numeric_field c) of
             (Some x, Some y, Some z) \<Rightarrow> Some (Semver x y z pre)
           | _ \<Rightarrow> None)
      | _ \<Rightarrow> None)"

definition parse_version :: "string \<Rightarrow> semver option" where
  "parse_version v0 =
     (let v1 = trim_prefix (trim_space v0) ''v'';
          v = fst (cut (CHR ''+'') v1)
      in case cut (CHR ''-'') v of
           (core, rest, False) \<Rightarrow> parse_core v []
         | (core, rest, True) \<Rightarrow>
             (let pre = split_on (CHR ''.'') rest in
              if rest = [] then None
              else if list_ex (\<lambda>i. i = [] \<or> \<not> valid_ident i) pre then None
              else parse_core core pre))"

definition valid_version :: "string \<Rightarrow> bool" where
  "valid_version v = (parse_version v \<noteq> None)"

definition is_release :: "string \<Rightarrow> bool" where
  "is_release v = (case parse_version v of None \<Rightarrow> False | Some p \<Rightarrow> sv_pre p = [])"

text \<open>The expression \<open>-\d+-g[0-9a-f]{7,}$\<close> anywhere in the text.\<close>

definition is_hex :: "char \<Rightarrow> bool" where
  "is_hex c \<longleftrightarrow> is_digit c \<or> (97 \<le> byte c \<and> byte c \<le> 102)"

definition describe_suffix :: "string \<Rightarrow> bool" where
  "describe_suffix s =
     (let ds = takeWhile is_digit s; rest = dropWhile is_digit s
      in ds \<noteq> [] \<and> has_prefix rest ''-g'' \<and> 7 \<le> length (drop 2 rest) \<and> list_all is_hex (drop 2 rest))"

fun git_describe_re :: "string \<Rightarrow> bool" where
  "git_describe_re [] = False"
| "git_describe_re (c # s) = (c = CHR ''-'' \<and> describe_suffix s \<or> git_describe_re s)"

definition checkable :: "string \<Rightarrow> bool" where
  "checkable v \<longleftrightarrow> valid_version v \<and> \<not> git_describe_re (trim_space v)"

section \<open>Comparing\<close>

text \<open>\<open>asNumber\<close> is \<open>numeric_field\<close>.\<close>

definition compare_ident :: "string \<Rightarrow> string \<Rightarrow> int" where
  "compare_ident a b =
     (case (numeric_field a, numeric_field b) of
        (Some m, Some n) \<Rightarrow> cmp_int m n
      | (Some m, None) \<Rightarrow> - 1
      | (None, Some n) \<Rightarrow> 1
      | (None, None) \<Rightarrow> str_cmp a b)"

definition compare_pre :: "string list \<Rightarrow> string list \<Rightarrow> int" where
  "compare_pre a b =
     (if a = [] \<and> b = [] then 0
      else if a = [] then 1
      else if b = [] then - 1
      else lex_cmp compare_ident a b)"

definition compare_semver :: "semver \<Rightarrow> semver \<Rightarrow> int" where
  "compare_semver v w =
     then_cmp (cmp_int (sv_major v) (sv_major w))
       (then_cmp (cmp_int (sv_minor v) (sv_minor w))
         (then_cmp (cmp_int (sv_patch v) (sv_patch w)) (compare_pre (sv_pre v) (sv_pre w))))"

definition compare_versions :: "string \<Rightarrow> string \<Rightarrow> int option" where
  "compare_versions a b =
     (case (parse_version a, parse_version b) of
        (Some v, Some w) \<Rightarrow> Some (compare_semver v w)
      | _ \<Rightarrow> None)"

section \<open>The order\<close>

lemma numeric_field_value:
  "numeric_field s = Some n \<Longrightarrow> s = nat_digits (nat n) \<and> 0 \<le> n \<and> n \<le> max_int64"
proof -
  assume a: "numeric_field s = Some n"
  then have s: "s \<noteq> []" "length s = 1 \<or> hd s \<noteq> CHR ''0''" "list_all is_digit s" "atoi s = Some n"
    by (auto simp: numeric_field_def split: if_splits) (cases s; simp)+
  then have "\<not> (hd s = CHR ''-'' \<or> hd s = CHR ''+'')"
    by (cases s) (auto simp: is_digit_def byte_def)
  with s(1,4) have d: "digits_value 0 s = Some n \<and> n \<le> max_int64"
    by (cases s) (simp_all add: atoi_def Let_def split: option.splits if_splits)
  then have "0 \<le> n" using digits_value_ge [of 0 s n] by simp
  with canonical_digits [of s n] s(1,2) d show ?thesis by simp
qed

lemma numeric_field_inj: "numeric_field a = Some n \<Longrightarrow> numeric_field b = Some n \<Longrightarrow> a = b"
  using numeric_field_value by metis

interpretation ident_order: comparator compare_ident
proof
  fix a b c
  show "compare_ident a b \<in> {- 1, 0, 1}"
    using int_cmp.unit str_order.unit by (auto simp: compare_ident_def split: option.splits)
  show "compare_ident a b = 0 \<longleftrightarrow> a = b"
    by (auto simp: compare_ident_def int_cmp.zero str_order.zero intro: numeric_field_inj split: option.splits)
  show "compare_ident b a = - compare_ident a b"
    by (auto simp: compare_ident_def intro: int_cmp.flip str_order.flip split: option.splits)
  show "compare_ident a c < 0" if "compare_ident a b < 0" "compare_ident b c < 0"
    using that by (auto simp: compare_ident_def intro: int_cmp.trans str_order.trans split: option.splits)
qed

interpretation ident_lex: comparator "lex_cmp compare_ident"
  by (rule ident_order.comparator_lex)

interpretation pre_order: comparator compare_pre
proof
  fix a b c
  show "compare_pre a b = 0 \<longleftrightarrow> a = b" by (auto simp: compare_pre_def ident_lex.zero)
  show "compare_pre b a = - compare_pre a b" by (auto simp: compare_pre_def intro: ident_lex.flip)
  show "compare_pre a c < 0" if "compare_pre a b < 0" "compare_pre b c < 0"
    using that by (auto simp: compare_pre_def intro: ident_lex.trans split: if_splits)
  show "compare_pre a b \<in> {- 1, 0, 1}" using ident_lex.unit by (auto simp: compare_pre_def)
qed

interpretation semver_order: comparator compare_semver
proof -
  let ?f = "\<lambda>v. (sv_major v, sv_minor v, sv_patch v, sv_pre v)"
  have "inj ?f" by (rule injI) (metis prod.inject semver.expand)
  with then_cmp_comparator [OF int_cmp.comparator_axioms
      then_cmp_comparator [OF int_cmp.comparator_axioms
        then_cmp_comparator [OF int_cmp.comparator_axioms pre_order.comparator_axioms]]]
  have "comparator (\<lambda>a b. then_cmp (cmp_int (fst (?f a)) (fst (?f b)))
      (then_cmp (cmp_int (fst (snd (?f a))) (fst (snd (?f b))))
        (then_cmp (cmp_int (fst (snd (snd (?f a)))) (fst (snd (snd (?f b)))))
          (compare_pre (snd (snd (snd (?f a)))) (snd (snd (snd (?f b))))))))"
    by (rule comparator.comparator_inj)
  then show "comparator compare_semver"
    by (simp add: compare_semver_def [abs_def])
qed

instantiation semver :: linorder
begin

definition less_eq_semver :: "semver \<Rightarrow> semver \<Rightarrow> bool" where
  "v \<le> w \<longleftrightarrow> compare_semver v w \<le> 0"

definition less_semver :: "semver \<Rightarrow> semver \<Rightarrow> bool" where
  "v < w \<longleftrightarrow> compare_semver v w < 0"

instance
proof
  fix u v w :: semver
  show "u < v \<longleftrightarrow> u \<le> v \<and> \<not> v \<le> u"
    using semver_order.flip [of v u] by (auto simp: less_eq_semver_def less_semver_def)
  show "u \<le> u" by (simp add: less_eq_semver_def)
  show "u \<le> v \<Longrightarrow> v \<le> w \<Longrightarrow> u \<le> w"
    by (auto simp: less_eq_semver_def intro: semver_order.le_trans)
  show "u \<le> v \<Longrightarrow> v \<le> u \<Longrightarrow> u = v"
    by (auto simp: less_eq_semver_def intro: semver_order.le_antisym)
  show "u \<le> v \<or> v \<le> u" by (simp add: less_eq_semver_def semver_order.le_linear)
qed

end

text \<open>\<open>Compare\<close> is the order, as \<open>-1\<close>, \<open>0\<close> or \<open>1\<close>.\<close>

lemma compare_versions_order:
  "compare_versions a b =
     (case (parse_version a, parse_version b) of
        (Some v, Some w) \<Rightarrow> Some (if v < w then - 1 else if v = w then 0 else 1)
      | _ \<Rightarrow> None)"
  using semver_order.value_cases
  by (auto simp: compare_versions_def less_semver_def split: option.splits)

section \<open>Printing\<close>

definition show_version :: "semver \<Rightarrow> string" where
  "show_version v =
     itoa (sv_major v) @ ''.'' @ itoa (sv_minor v) @ ''.'' @ itoa (sv_patch v)
     @ (if sv_pre v = [] then [] else ''-'' @ join ''.'' (sv_pre v))"

definition well_formed :: "semver \<Rightarrow> bool" where
  "well_formed v \<longleftrightarrow> list_all (\<lambda>n. 0 \<le> n \<and> n \<le> max_int64) [sv_major v, sv_minor v, sv_patch v]
     \<and> list_all (\<lambda>i. i \<noteq> [] \<and> valid_ident i) (sv_pre v)"

lemma itoa_pos: "0 \<le> n \<Longrightarrow> itoa n = nat_digits (nat n)"
  by (simp add: itoa_def)

lemma numeric_field_itoa: "0 \<le> n \<Longrightarrow> n \<le> max_int64 \<Longrightarrow> numeric_field (itoa n) = Some n"
proof -
  assume n: "0 \<le> n" "n \<le> max_int64"
  let ?d = "nat_digits (nat n)"
  have h: "hd ?d \<noteq> CHR ''-''" "hd ?d \<noteq> CHR ''+''"
    using nat_digits_digits [of "nat n"] by (cases ?d; auto simp: is_digit_def byte_def)+
  have z: "\<not> (1 < length ?d \<and> hd ?d = CHR ''0'')"
  proof (cases "nat n = 0")
    case True
    then show ?thesis by (simp add: nat_digits_step [of 0])
  qed (simp add: nat_digits_leading)
  have "atoi ?d = Some n"
    using h digits_value_nat_digits [of "nat n"] n
    by (cases ?d) (auto simp: atoi_def Let_def max_int64_def)
  with z n show ?thesis by (simp add: numeric_field_def itoa_pos nat_digits_digits)
qed

lemma digit_facts: "is_digit c \<Longrightarrow> byte c < 128 \<and> \<not> is_space (byte c) \<and> c \<notin> {CHR ''.'', CHR ''-'', CHR ''+'', CHR ''v''}"
  by (auto simp: is_digit_def is_space_def byte_def)

lemma ident_facts:
  "is_alnum c \<or> c = CHR ''-'' \<Longrightarrow> byte c < 128 \<and> \<not> is_space (byte c) \<and> c \<notin> {CHR ''.'', CHR ''+''}"
  by (auto simp: char_class_defs is_space_def)

lemma itoa_set: "0 \<le> n \<Longrightarrow> c \<in> set (itoa n) \<Longrightarrow> is_digit c"
  using nat_digits_digits [of "nat n"] by (auto simp: itoa_pos list_all_iff)

lemma itoa_nonempty [simp]: "0 \<le> n \<Longrightarrow> itoa n \<noteq> []"
  by (simp add: itoa_pos)

lemma parse_show_core:
  assumes "well_formed v"
  shows "parse_core (itoa (sv_major v) @ ''.'' @ itoa (sv_minor v) @ ''.'' @ itoa (sv_patch v)) pre
    = Some (Semver (sv_major v) (sv_minor v) (sv_patch v) pre)"
proof -
  have n: "0 \<le> sv_major v" "sv_major v \<le> max_int64" "0 \<le> sv_minor v" "sv_minor v \<le> max_int64"
    "0 \<le> sv_patch v" "sv_patch v \<le> max_int64"
    using assms by (simp_all add: well_formed_def)
  have "CHR ''.'' \<notin> set (itoa m)" if "0 \<le> m" for m
    using itoa_set [OF that] digit_facts by blast
  with n show ?thesis by (simp add: parse_core_def numeric_field_itoa)
qed

text \<open>The characters of a printed version.\<close>

lemma show_version_chars:
  assumes "well_formed v" and "c \<in> set (show_version v)"
  shows "is_alnum c \<or> c = CHR ''-'' \<or> c = CHR ''.''"
proof -
  have j: "c \<in> set (join ''.'' ws) \<Longrightarrow> c = CHR ''.'' \<or> (\<exists>w \<in> set ws. c \<in> set w)" for ws
    by (induction "''.''" ws rule: join.induct) auto
  have d: "c \<in> set (itoa m) \<Longrightarrow> is_alnum c" if "0 \<le> m" for m
    using itoa_set [OF that] by (simp add: is_alnum_def)
  have n: "0 \<le> sv_major v" "0 \<le> sv_minor v" "0 \<le> sv_patch v"
    and p: "\<forall>w \<in> set (sv_pre v). \<forall>c \<in> set w. is_alnum c \<or> c = CHR ''-''"
    using assms(1) by (auto simp: well_formed_def valid_ident_def list_all_iff)
  show ?thesis
    using assms(2) d [OF n(1)] d [OF n(2)] d [OF n(3)] j [of "sv_pre v"] p
    by (auto simp: show_version_def split: if_splits)
qed

lemma show_version_ends:
  assumes "well_formed v"
  shows "show_version v \<noteq> []" and "is_digit (hd (show_version v))"
    and "is_alnum (last (show_version v)) \<or> last (show_version v) = CHR ''-''"
proof -
  have n: "0 \<le> sv_major v" "0 \<le> sv_patch v" using assms by (simp_all add: well_formed_def)
  then have ne: "itoa (sv_major v) \<noteq> []" "itoa (sv_patch v) \<noteq> []" by simp_all
  then show "show_version v \<noteq> []" by (simp add: show_version_def)
  show "is_digit (hd (show_version v))"
    using ne itoa_set [OF n(1), of "hd (itoa (sv_major v))"] by (simp add: show_version_def)
  have j: "ws \<noteq> [] \<Longrightarrow> list_all (\<lambda>w. w \<noteq> []) ws \<Longrightarrow> join ''.'' ws \<noteq> [] \<and> last (join ''.'' ws) = last (last ws)" for ws
    by (induction "''.''" ws rule: join.induct) auto
  show "is_alnum (last (show_version v)) \<or> last (show_version v) = CHR ''-''"
  proof (cases "sv_pre v = []")
    case True
    then show ?thesis
      using ne itoa_set [OF n(2), of "last (itoa (sv_patch v))"] by (simp add: show_version_def is_alnum_def)
  next
    case False
    have "last (sv_pre v) \<noteq> []" "valid_ident (last (sv_pre v))" "list_all (\<lambda>w. w \<noteq> []) (sv_pre v)"
      using False assms by (auto simp: well_formed_def list_all_iff)
    then show ?thesis
      using False j [OF False] by (auto simp: show_version_def valid_ident_def list_all_iff)
  qed
qed

lemma parse_show:
  assumes "well_formed v"
  shows "parse_version (show_version v) = Some v"
proof -
  let ?s = "show_version v"
  let ?core = "itoa (sv_major v) @ ''.'' @ itoa (sv_minor v) @ ''.'' @ itoa (sv_patch v)"
  note e = show_version_ends [OF assms]
  have dot: "byte (CHR ''.'') < 128 \<and> \<not> is_space (byte (CHR ''.''))" by (simp add: is_space_def byte_def)
  have chars: "byte c < 128 \<and> \<not> is_space (byte c) \<and> c \<noteq> CHR ''+''" if "c \<in> set ?s" for c
    using show_version_chars [OF assms that] ident_facts [of c] dot by auto
  have t: "trim_space ?s = ?s"
    using chars e(1) by (intro trim_space_prefix) (auto simp: list_all_iff)
  have "hd ?s \<noteq> CHR ''v''" using e(2) digit_facts by blast
  then have p: "trim_prefix ?s ''v'' = ?s"
    using e(1) by (cases ?s) (auto simp: trim_prefix_def)
  have plus: "cut (CHR ''+'') ?s = (?s, [], False)" using chars by (intro cut_absent) auto
  have "CHR ''-'' \<notin> set (itoa m)" if "0 \<le> m" for m using itoa_set [OF that] digit_facts by blast
  then have m: "CHR ''-'' \<notin> set ?core" using assms by (auto simp: well_formed_def)
  have pre: "list_all (\<lambda>i. i \<noteq> [] \<and> valid_ident i) (sv_pre v)" using assms by (simp add: well_formed_def)
  show ?thesis
  proof (cases "sv_pre v = []")
    case True
    then have s: "?s = ?core" by (simp add: show_version_def)
    have "cut (CHR ''-'') ?s = (?s, [], False)" unfolding s by (rule cut_absent [OF m])
    then show ?thesis
      using parse_show_core [OF assms, of "[]"] True t p plus s
      by (cases v) (simp add: parse_version_def)
  next
    case False
    then have s: "?s = ?core @ CHR ''-'' # join ''.'' (sv_pre v)" by (simp add: show_version_def)
    have c: "cut (CHR ''-'') ?s = (?core, join ''.'' (sv_pre v), True)" unfolding s by (rule cut_append [OF m])
    have "CHR ''.'' \<notin> set i" if "i \<in> set (sv_pre v)" for i
    proof
      assume "CHR ''.'' \<in> set i"
      with that pre have "is_alnum (CHR ''.'') \<or> CHR ''.'' = CHR ''-''"
        unfolding list_all_iff valid_ident_def by blast
      from ident_facts [OF this] show False by simp
    qed
    then have sp: "split_on (CHR ''.'') (join ''.'' (sv_pre v)) = sv_pre v"
      using False by (intro split_on_join) auto
    have "join ''.'' (sv_pre v) \<noteq> []"
      using sp False pre by (auto simp: list_all_iff) (metis list.set_intros(1))
    then show ?thesis
      using parse_show_core [OF assms, of "sv_pre v"] c sp pre t p plus
      by (cases v) (auto simp: parse_version_def Let_def list_ex_iff list_all_iff)
  qed
qed

text \<open>What a parsed version is made of.\<close>

lemma parse_version_core:
  assumes "parse_version s = Some v"
  shows "list_all (\<lambda>n. 0 \<le> n \<and> n \<le> max_int64) [sv_major v, sv_minor v, sv_patch v]
    \<and> list_all (\<lambda>i. i \<noteq> [] \<and> valid_ident i) (sv_pre v)"
proof -
  have core: "parse_core c p = Some v \<Longrightarrow>
      sv_pre v = p \<and> list_all (\<lambda>n. 0 \<le> n \<and> n \<le> max_int64) [sv_major v, sv_minor v, sv_patch v]" for c p
    by (auto simp: parse_core_def dest!: numeric_field_value split: list.splits option.splits)
  show ?thesis
    using assms core
    by (auto simp: parse_version_def Let_def list_ex_iff list_all_iff split: prod.splits bool.splits if_splits)
qed

lemma parse_well_formed: "parse_version s = Some v \<Longrightarrow> well_formed v"
  using parse_version_core by (simp add: well_formed_def)

end
