(* ===== verification/Selfupdate.thy ===== *)
theory Selfupdate
  imports Semver Go_Os
begin

text \<open>
  \<open>internal/selfupdate/cache.go\<close> and \<open>selfupdate.go\<close>: the check for a newer release.  A check is
  a function of the cache it read, of its clock readings and of GitHub's answer; what it
  returns, whether it asked GitHub and what it wrote to the cache are its result.
\<close>

section \<open>Data\<close>

record release =
  rl_tag :: string
  rl_published :: time

record update_cache =
  cf_release :: release
  cf_checked :: time
  cf_retry :: time

record update_status =
  us_current :: string
  us_latest :: release
  us_newer :: bool
  us_checked :: time
  us_from_cache :: bool

text \<open>A rate-limit error carries its reset, the zero time when it is not known.\<close>

datatype update_error =
    ErrDisabled | ErrDevBuild | ErrRateLimited time | ErrNoRelease | ErrNotVersion
  | BadRepo string | Transport string | BadStatus nat | BadResponse string | BadTag string

definition no_release :: release where
  "no_release = \<lparr>rl_tag = [], rl_published = zero_time\<rparr>"

definition zero_cache :: update_cache where
  "zero_cache = \<lparr>cf_release = no_release, cf_checked = zero_time, cf_retry = zero_time\<rparr>"

definition blank_status :: "string \<Rightarrow> update_status" where
  "blank_status current =
     \<lparr>us_current = current, us_latest = no_release, us_newer = False, us_checked = zero_time,
      us_from_cache = False\<rparr>"

definition default_repo :: string where "default_repo = ''9technologygroup/docker-updater''"
definition default_base :: string where "default_base = ''https://api.github.com''"
definition default_ttl :: duration where "default_ttl = 24 * hour"
definition max_cache_file :: nat where "max_cache_file = 4 * 1024"
definition max_redirects :: nat where "max_redirects = 3"

definition env_or :: "host \<Rightarrow> string \<Rightarrow> string \<Rightarrow> string" where
  "env_or h key fallback = (if getenv h key \<noteq> [] then getenv h key else fallback)"

definition checks_disabled :: "host \<Rightarrow> bool" where
  "checks_disabled h \<longleftrightarrow> getenv h ''DUP_NO_UPDATE_CHECK'' \<noteq> []"

definition repo_char :: "char \<Rightarrow> bool" where
  "repo_char c \<longleftrightarrow> is_alnum c \<or> c \<in> set ''._-''"

definition repo_re :: "string \<Rightarrow> bool" where
  "repo_re s =
     (case cut slash s of (owner, name, ok) \<Rightarrow>
        ok \<and> owner \<noteq> [] \<and> name \<noteq> [] \<and> list_all repo_char owner \<and> list_all repo_char name)"

text \<open>\<open>url.PathEscape\<close>.\<close>

definition upper_hex :: "nat \<Rightarrow> char" where
  "upper_hex n = (if n < 10 then chr (48 + n) else chr (55 + n))"

definition path_escape :: "string \<Rightarrow> string" where
  "path_escape s =
     concat (map (\<lambda>c. if is_alnum c \<or> c \<in> set ''-_.~$&+=:@'' then [c]
                      else [CHR ''%'', upper_hex (byte c div 16), upper_hex (byte c mod 16)]) s)"

definition notes_url :: "release \<Rightarrow> string \<Rightarrow> string" where
  "notes_url r repo =
     (if rl_tag r = [] \<or> \<not> repo_re repo then []
      else ''https://github.com/'' @ repo @ ''/releases/tag/'' @ path_escape (rl_tag r))"

section \<open>The cache\<close>

text \<open>\<open>dec\<close> is \<open>json.Unmarshal\<close> into a cache record.\<close>

definition read_cache :: "host \<Rightarrow> (string \<Rightarrow> update_cache option) \<Rightarrow> string \<Rightarrow> update_cache option" where
  "read_cache h dec path =
     (if path = [] \<or> \<not> stat_regular h path then None
      else (case hs_read_file h path of
              Inl e \<Rightarrow> None
            | Inr raw \<Rightarrow>
                if max_cache_file < length raw then None
                else (case dec raw of
                        None \<Rightarrow> None
                      | Some cf \<Rightarrow>
                          if rl_tag (cf_release cf) \<noteq> [] \<and> \<not> valid_version (rl_tag (cf_release cf))
                          then None else Some cf)))"

section \<open>Asking GitHub\<close>

record gh_release =
  gh_tag :: string
  gh_draft :: bool
  gh_prerelease :: bool
  gh_published :: time

record gh_response =
  gr_status :: nat
  gr_remaining :: string
  gr_reset :: string
  gr_body :: string

definition rate_limit_err :: "string \<Rightarrow> update_error" where
  "rate_limit_err reset =
     ErrRateLimited (case atoi reset of
       None \<Rightarrow> zero_time
     | Some secs \<Rightarrow> (if 0 < secs then secs * second else zero_time))"

definition is_rate_limited :: "update_error \<Rightarrow> bool" where
  "is_rate_limited e = (case e of ErrRateLimited r \<Rightarrow> True | _ \<Rightarrow> False)"

definition rate_limit_reset :: "update_error \<Rightarrow> time \<Rightarrow> time" where
  "rate_limit_reset e fallback_from =
     (case e of
        ErrRateLimited r \<Rightarrow> (if r = zero_time then fallback_from + hour else r)
      | _ \<Rightarrow> fallback_from + hour)"

definition clip_tag :: "string \<Rightarrow> string" where
  "clip_tag s = (if 40 < length s then take 40 s @ ''...'' else s)"

definition release_endpoint :: "string \<Rightarrow> string \<Rightarrow> string" where
  "release_endpoint api repo =
     (if api = [] then default_base else api) @ ''/repos/'' @ repo @ ''/releases/latest''"

text \<open>\<open>fetch\<close> is the request, \<open>dec\<close> the decoder of its first mebibyte.\<close>

definition latest ::
  "(string \<Rightarrow> string + gh_response) \<Rightarrow> (string \<Rightarrow> string + gh_release) \<Rightarrow> string \<Rightarrow> string
   \<Rightarrow> update_error + release" where
  "latest fetch dec repo0 api =
     (let repo = (if repo0 = [] then default_repo else repo0) in
      if \<not> repo_re repo then Inl (BadRepo repo)
      else
        (case fetch (release_endpoint api repo) of
           Inl e \<Rightarrow> Inl (Transport e)
         | Inr resp \<Rightarrow>
             if gr_status resp = 404 then Inl ErrNoRelease
             else if gr_status resp = 403 \<or> gr_status resp = 429 then
               (if gr_remaining resp = ''0'' then Inl (rate_limit_err (gr_reset resp))
                else Inl (BadStatus (gr_status resp)))
             else if gr_status resp \<noteq> 200 then Inl (BadStatus (gr_status resp))
             else
               (case dec (take (1024 * 1024) (gr_body resp)) of
                  Inl e \<Rightarrow> Inl (BadResponse e)
                | Inr gh \<Rightarrow>
                    if gh_draft gh \<or> gh_prerelease gh \<or> gh_tag gh = [] then Inl ErrNoRelease
                    else if \<not> valid_version (gh_tag gh) then Inl (BadTag (clip_tag (gh_tag gh)))
                    else Inr \<lparr>rl_tag = gh_tag gh, rl_published = gh_published gh\<rparr>)))"

text \<open>The redirect policy of \<open>client\<close>: \<open>base_host\<close> is empty when the base does not parse.\<close>

definition redirect_allowed :: "string \<Rightarrow> nat \<Rightarrow> string \<Rightarrow> bool" where
  "redirect_allowed base_host seen host =
     (if max_redirects \<le> seen then False
      else if base_host \<noteq> [] \<and> host \<noteq> base_host then False else True)"

section \<open>A check\<close>

definition status_of ::
  "string \<Rightarrow> release \<Rightarrow> time \<Rightarrow> bool \<Rightarrow> update_status \<times> update_error option" where
  "status_of current rel checked from_cache =
     (let s = \<lparr>us_current = current, us_latest = rel, us_newer = False, us_checked = checked,
               us_from_cache = from_cache\<rparr>
      in if rl_tag rel = [] then (s, Some ErrNoRelease)
         else (case compare_versions (rl_tag rel) current of
                 None \<Rightarrow> (s, Some ErrNotVersion)
               | Some c \<Rightarrow> (s\<lparr>us_newer := 0 < c\<rparr>, None)))"

record check_run =
  ck_status :: update_status
  ck_error :: "update_error option"
  ck_asked :: bool
  ck_wrote :: "update_cache option"

definition answered ::
  "update_status \<times> update_error option \<Rightarrow> bool \<Rightarrow> update_cache option \<Rightarrow> check_run" where
  "answered r asked wrote =
     \<lparr>ck_status = fst r, ck_error = snd r, ck_asked = asked, ck_wrote = wrote\<rparr>"

text \<open>
  \<open>Check\<close>.  The readings of the clock are those of the freshness test, of the rate-limit test
  and of the moment after the request.
\<close>

definition check_update ::
  "host \<Rightarrow> update_cache option \<Rightarrow> update_error + release \<Rightarrow> duration \<Rightarrow> time \<times> time \<times> time
   \<Rightarrow> string \<Rightarrow> bool \<Rightarrow> check_run" where
  "check_update h cached answer ttl readings current force =
     (case readings of (n1, n2, n3) \<Rightarrow>
        if checks_disabled h then answered (blank_status current, Some ErrDisabled) False None
        else if \<not> checkable current then answered (blank_status current, Some ErrDevBuild) False None
        else
          (let cf = (case cached of None \<Rightarrow> zero_cache | Some c \<Rightarrow> c);
               from_cache = status_of current (cf_release cf) (cf_checked cf) True
           in if cached \<noteq> None \<and> \<not> force \<and> time_sub n1 (cf_checked cf) < ttl
              then answered from_cache False None
              else if cached \<noteq> None \<and> n2 < cf_retry cf
              then (if rl_tag (cf_release cf) = []
                    then answered (blank_status current, Some (ErrRateLimited zero_time)) False None
                    else answered from_cache False None)
              else
                (case answer of
                   Inl e \<Rightarrow>
                     (let wrote = (if is_rate_limited e then Some (cf\<lparr>cf_retry := rate_limit_reset e n3\<rparr>) else None)
                      in if cached \<noteq> None \<and> rl_tag (cf_release cf) \<noteq> []
                         then answered from_cache True wrote
                         else answered (blank_status current, Some e) True wrote)
                 | Inr rel \<Rightarrow>
                     answered (status_of current rel n3 False) True
                       (Some \<lparr>cf_release = rel, cf_checked = n3, cf_retry = zero_time\<rparr>))))"

text \<open>\<open>Cached\<close>: what the API may report, without a request.\<close>

definition cached_status :: "update_cache option \<Rightarrow> string \<Rightarrow> update_status option" where
  "cached_status cached current =
     (case cached of
        None \<Rightarrow> None
      | Some cf \<Rightarrow>
          if rl_tag (cf_release cf) = [] then None
          else (case status_of current (cf_release cf) (cf_checked cf) True of
                  (s, None) \<Rightarrow> Some s
                | (s, Some e) \<Rightarrow> None))"

section \<open>What a check guarantees\<close>

text \<open>A report of a newer release: both versions parse and the release is the greater one.\<close>

definition honest_status :: "update_status \<Rightarrow> bool" where
  "honest_status s \<longleftrightarrow>
     (us_newer s \<longrightarrow> (\<exists>v w. parse_version (rl_tag (us_latest s)) = Some v
        \<and> parse_version (us_current s) = Some w \<and> w < v))"

lemma blank_honest [simp]: "honest_status (blank_status c)"
  by (simp add: honest_status_def blank_status_def)

lemma status_of_honest [simp]: "honest_status (fst (status_of current rel t b))"
proof -
  have "w < v" if "0 < compare_semver v w" for v w
    using that semver_order.flip [of w v] by (simp add: less_semver_def)
  then show ?thesis
    by (auto simp: honest_status_def status_of_def compare_versions_def Let_def split: option.splits)
qed

lemma answered_simps [simp]:
  "ck_status (answered r a w) = fst r" "ck_error (answered r a w) = snd r"
  "ck_asked (answered r a w) = a" "ck_wrote (answered r a w) = w"
  by (simp_all add: answered_def)

lemma check_update_honest: "honest_status (ck_status (check_update h cached ans ttl rs cur force))"
  by (auto simp: check_update_def Let_def split: prod.split sum.split)

text \<open>When GitHub is asked at all.\<close>

lemma check_update_asked:
  "ck_asked (check_update h cached ans ttl (n1, n2, n3) cur force) \<longleftrightarrow>
     \<not> checks_disabled h \<and> checkable cur
     \<and> (case cached of
          None \<Rightarrow> True
        | Some cf \<Rightarrow> (force \<or> ttl \<le> time_sub n1 (cf_checked cf)) \<and> cf_retry cf \<le> n2)"
  by (auto simp: check_update_def Let_def split: sum.split option.splits)

lemma latest_valid: "latest fetch dec repo api = Inr rel \<Longrightarrow> valid_version (rl_tag rel) \<and> rl_tag rel \<noteq> []"
  by (auto simp: latest_def Let_def split: sum.splits if_splits)

text \<open>What is written is acceptable to \<open>read_cache\<close>: a version, or no tag at all.\<close>

definition good_cache :: "update_cache \<Rightarrow> bool" where
  "good_cache cf \<longleftrightarrow> rl_tag (cf_release cf) = [] \<or> valid_version (rl_tag (cf_release cf))"

lemma read_cache_good: "read_cache h dec path = Some cf \<Longrightarrow> good_cache cf"
  by (auto simp: read_cache_def good_cache_def split: if_splits sum.splits option.splits)

lemma check_update_writes_good:
  assumes "pred_option good_cache cached" and "\<And>rel. ans = Inr rel \<Longrightarrow> valid_version (rl_tag rel)"
    and "ck_wrote (check_update h cached ans ttl rs cur force) = Some cf"
  shows "good_cache cf"
proof -
  have z: "good_cache (case cached of None \<Rightarrow> zero_cache | Some c \<Rightarrow> c)"
    using assms(1) by (auto simp: good_cache_def zero_cache_def no_release_def split: option.split)
  show ?thesis
    using assms(2,3) z
    by (cases ans; cases rs)
      (auto simp: check_update_def Let_def good_cache_def split: if_splits)
qed

lemma check_update_wrote:
  assumes "ck_wrote (check_update h (read_cache h dec path) (latest fetch dec' repo api) ttl rs cur force) = Some cf"
  shows "good_cache cf"
proof (rule check_update_writes_good [OF _ _ assms])
  show "pred_option good_cache (read_cache h dec path)"
    using read_cache_good by (auto simp: option.pred_set elem_set)
qed (use latest_valid in blast)

text \<open>After a rate limit no request is made before the reset, whatever the TTL or the flag says.\<close>

lemma rate_limit_respected:
  assumes "ck_wrote (check_update h cached (Inl (ErrRateLimited r)) ttl rs cur force) = Some cf"
    and "n2 < rate_limit_reset (ErrRateLimited r) (snd (snd rs))"
  shows "\<not> ck_asked (check_update h' (Some cf) ans' ttl' (n1, n2, n3) cur' force')"
proof -
  have "cf_retry cf = rate_limit_reset (ErrRateLimited r) (snd (snd rs))"
    using assms(1)
    by (cases rs) (auto simp: check_update_def Let_def is_rate_limited_def split: if_splits)
  with assms(2) show ?thesis by (simp add: check_update_asked)
qed

text \<open>Build metadata is cut off unread: whatever follows the plus, the text is a version.\<close>

lemma metadata_unchecked: "parse_version (''v1.2.3+'' @ x) = Some (Semver 1 2 3 [])"
proof -
  obtain y where t: "trim_space (''v1.2.3+'' @ x) = ''v1.2.3+'' @ y"
    using trim_space_prefix(1) [of "''v1.2.3+''" x] by (auto simp: byte_def is_space_def)
  have n: "numeric_field ''1'' = Some 1" "numeric_field ''2'' = Some 2" "numeric_field ''3'' = Some 3"
    by (simp_all add: numeric_field_def atoi_def is_digit_def byte_def Let_def max_int64_def)
  show ?thesis
    unfolding parse_version_def t by (simp add: trim_prefix_def parse_core_def n)
qed

lemma notes_url_shape:
  "notes_url r repo = [] \<or> (repo_re repo \<and> has_prefix (notes_url r repo) (''https://github.com/'' @ repo @ ''/releases/tag/''))"
  by (auto simp: notes_url_def has_prefix_iff)

end
