(* ===== verification/Server.thy ===== *)
theory Server
  imports Access Json Durations Manager Schedule Selfupdate
begin

text \<open>
  \<open>internal/server/server.go\<close>: the HTTP API.  A handler is a function of the request and of the
  state it reads; the update handler also returns the store and what the manager does.  The
  bodies are JSON values, a map's keys being in the order the encoder sorts them.  Decoding a
  body is an argument; the layers around the handlers are composed in \<open>respond\<close>.
\<close>

section \<open>Replies\<close>

record answer =
  an_status :: nat
  an_headers :: "(string \<times> string) list"
  an_body :: "json option"

definition write_json :: "nat \<Rightarrow> json \<Rightarrow> answer" where
  "write_json status v =
     \<lparr>an_status = status,
      an_headers = [(''Content-Type'', ''application/json; charset=utf-8''), (''Cache-Control'', ''no-store'')],
      an_body = Some v\<rparr>"

definition write_error :: "nat \<Rightarrow> string \<Rightarrow> answer" where
  "write_error status msg = write_json status (JObj [(''error'', JStr msg)])"

definition with_headers :: "(string \<times> string) list \<Rightarrow> answer \<Rightarrow> answer" where
  "with_headers hs a = a\<lparr>an_headers := hs @ an_headers a\<rparr>"

section \<open>The server\<close>

definition max_wait :: duration where "max_wait = 5 * minute"
definition max_job_limit :: int where "max_job_limit = 200"

text \<open>\<open>srv_sched\<close> is the scheduler behind \<open>WithPending\<close> and \<open>WithTiming\<close>, if they were given.\<close>

record server =
  srv_cfg :: config
  srv_version :: string
  srv_commit :: string
  srv_update :: "update_status option"
  srv_sched :: "sched option"
  srv_check :: "(string \<Rightarrow> client_error + check_result) option"

definition handle_healthz :: answer where
  "handle_healthz = write_json 200 (JObj [(''status'', JStr ''ok'')])"

definition check_status :: "client_error \<Rightarrow> nat" where
  "check_status e =
     (case status_code e of
        None \<Rightarrow> 500
      | Some n \<Rightarrow> if n \<noteq> 500 then n else 500)"

definition handle_check_now :: "server \<Rightarrow> string \<Rightarrow> answer" where
  "handle_check_now s name =
     (if target_by_name (srv_cfg s) name = None then write_error 404 ''unknown target''
      else (case srv_check s of
              None \<Rightarrow> write_error 501 ''this build cannot check for updates''
            | Some check_now \<Rightarrow>
                (case check_now name of
                   Inl e \<Rightarrow> write_error (check_status e) (client_error_text e)
                 | Inr c \<Rightarrow> write_json 200 (JObj
                     [(''available'', JBool (cr_available c)),
                      (''changed'', if cr_changed c = [] then JNull else JList (map JStr (cr_changed c))),
                      (''message'', JStr (cr_message c)), (''target'', JStr name)]))))"

definition handle_version :: "server \<Rightarrow> answer" where
  "handle_version s =
     (let known = (case srv_update s of
                     None \<Rightarrow> None
                   | Some st \<Rightarrow> if rl_tag (us_latest st) \<noteq> [] then Some st else None)
      in write_json 200 (JObj
           ((case known of
               Some st \<Rightarrow> if us_checked st \<noteq> zero_time then [(''checked_at'', JTime (us_checked st))] else []
             | None \<Rightarrow> [])
            @ opt_str ''commit'' (srv_commit s)
            @ field ''current'' (JStr (srv_version s))
            @ (case known of
                 None \<Rightarrow> []
               | Some st \<Rightarrow>
                   field ''latest'' (JStr (rl_tag (us_latest st)))
                   @ (if rl_published (us_latest st) \<noteq> zero_time
                      then [(''latest_released'', JTime (rl_published (us_latest st)))] else [])
                   @ field ''update_available'' (JBool (us_newer st))))))"

section \<open>Targets and jobs\<close>

text \<open>A time is reported when it is not the zero time.\<close>

definition seen_time :: "string \<Rightarrow> time \<Rightarrow> (string \<times> json) list" where
  "seen_time k t = (if t = zero_time then [] else [(k, JTime t)])"

definition target_view :: "server \<Rightarrow> store \<Rightarrow> target \<Rightarrow> json" where
  "target_view s st t =
     (let running = store_running (t_name t) st;
          times = (case srv_sched s of None \<Rightarrow> (zero_time, zero_time) | Some sc \<Rightarrow> timing (t_name t) sc);
          waiting = (case srv_sched s of None \<Rightarrow> None | Some sc \<Rightarrow> pending_for (t_name t) sc)
      in JObj
        (field ''name'' (JStr (t_name t)) @ field ''dir'' (JStr (t_dir t))
         @ opt_list ''services'' JStr (t_services t) @ opt_str ''image_tag_env'' (t_image_tag_env t)
         @ field ''rollback'' (JBool (rollback_enabled t))
         @ field ''health_timeout'' (JStr (duration_string (t_health_timeout t)))
         @ field ''busy'' (JBool (running \<noteq> None))
         @ (case running of None \<Rightarrow> [] | Some r \<Rightarrow> opt_str ''running_job'' (j_id (job_at st r)))
         @ (case waiting of
              None \<Rightarrow> []
            | Some p \<Rightarrow>
                field ''pending_since'' (JTime (pd_since p))
                @ field ''pending_applies_at'' (JTime (ready_at p (t_soak t)))
                @ opt_list ''pending_changed'' JStr (pd_services p))
         @ field ''auto_update'' (JBool (t_auto_update t))
         @ seen_time ''last_checked_at'' (fst times) @ seen_time ''next_check_at'' (snd times)))"

definition handle_list_targets :: "server \<Rightarrow> store \<Rightarrow> time \<Rightarrow> answer" where
  "handle_list_targets s st now =
     write_json 200 (JObj
       [(''now'', JTime now), (''targets'', JList (map (target_view s st) (the_targets (srv_cfg s))))])"

definition handle_target_status :: "server \<Rightarrow> store \<Rightarrow> time \<Rightarrow> string \<Rightarrow> answer" where
  "handle_target_status s st now name =
     (if target_by_name (srv_cfg s) name = None then write_error 404 ''unknown target''
      else
        (let running = store_running name st; recent = store_list now name 10 st
         in write_json 200 (JObj
              (field ''busy'' (JBool (running \<noteq> None))
               @ opt_list ''recent'' json_of_snapshot recent
               @ (case running of
                    None \<Rightarrow> []
                  | Some r \<Rightarrow> field ''running_job'' (json_of_snapshot (snapshot_of now (job_at st r))))
               @ field ''target'' (JStr name)))))"

definition job_limit :: "http_request \<Rightarrow> nat" where
  "job_limit r =
     (let v = query_get r ''limit'' in
      if v = [] then 25
      else (case atoi v of
              None \<Rightarrow> 25
            | Some n \<Rightarrow> if 0 < n \<and> n \<le> max_job_limit then nat n else 25))"

definition handle_list_jobs :: "store \<Rightarrow> time \<Rightarrow> http_request \<Rightarrow> answer" where
  "handle_list_jobs st now r =
     write_json 200 (JObj
       [(''jobs'', JList (map json_of_snapshot (store_list now (query_get r ''target'') (job_limit r) st)))])"

definition handle_get_job :: "store \<Rightarrow> time \<Rightarrow> string \<Rightarrow> answer" where
  "handle_get_job st now ident =
     (case store_get ident st of
        None \<Rightarrow> write_error 404 ''unknown job''
      | Some r \<Rightarrow> write_json 200 (json_of_snapshot (snapshot_of now (job_at st r))))"

section \<open>Building an update request\<close>

record update_body =
  ub_tag :: string
  ub_reason :: string
  ub_dry_run :: bool
  ub_force :: bool

record github_event =
  ge_action :: string
  ge_tag :: string
  ge_prerelease :: bool
  ge_draft :: bool
  ge_repository :: string

record decoders =
  de_update :: "string \<Rightarrow> string + update_body"
  de_github :: "string \<Rightarrow> string + github_event"

text \<open>A request to start, a delivery to ignore, or a bad request.\<close>

datatype built = Start job_request | Ignored string | BadRequest string

definition request_of :: "string \<Rightarrow> job_request" where
  "request_of trigger =
     \<lparr>rq_tag = [], rq_reason = [], rq_trigger = trigger, rq_dry_run = False, rq_force = False\<rparr>"

definition service_validate_tag :: "target \<Rightarrow> string \<Rightarrow> string option" where
  "service_validate_tag t tag =
     (if tag = [] then None
      else if t_image_tag_env t = []
      then Some ''this target does not accept a tag; set image_tag_env in its config first''
      else if \<not> valid_image_tag tag
      then Some ''tag contains characters that are not allowed in a container image tag''
      else None)"

definition github_request :: "decoders \<Rightarrow> target \<Rightarrow> string \<Rightarrow> string \<Rightarrow> built" where
  "github_request d t event body =
     (if event = ''ping'' then Ignored ''ping event''
      else if event \<noteq> ''release'' then Ignored (''unsupported event: '' @ event)
      else
        (case de_github d body of
           Inl e \<Rightarrow> BadRequest (''invalid GitHub payload: '' @ e)
         | Inr ev \<Rightarrow>
             if ge_action ev \<noteq> ''published'' then Ignored (''release action is '' @ ge_action ev)
             else if ge_draft ev then Ignored ''release is a draft''
             else if ge_prerelease ev \<and> \<not> t_allow_prerelease t
             then Ignored ''release is a pre-release and allow_prerelease is off''
             else
               (let tag = trim_prefix (trim_space (ge_tag ev)) ''v'';
                    req = (request_of ''github'')
                      \<lparr>rq_reason := ''GitHub release '' @ ge_tag ev @ '' ('' @ ge_repository ev @ '')''\<rparr>
                in if t_image_tag_env t = [] then Start req
                   else if \<not> valid_image_tag tag then BadRequest ''release tag is not a usable image tag''
                   else Start (req\<lparr>rq_tag := tag\<rparr>))))"

definition build_request ::
  "decoders \<Rightarrow> target \<Rightarrow> http_request \<Rightarrow> string \<Rightarrow> string \<Rightarrow> built" where
  "build_request d t r trigger body =
     (let event = header_get r ''X-GitHub-Event'' in
      if event \<noteq> [] then github_request d t event body
      else
        (case (if trim_space body = [] then Inr (request_of trigger)
               else (case de_update d body of
                       Inl e \<Rightarrow> Inl (''invalid JSON body: '' @ e)
                     | Inr b \<Rightarrow> Inr \<lparr>rq_tag = trim_space (ub_tag b), rq_reason = ub_reason b,
                         rq_trigger = trigger, rq_dry_run = ub_dry_run b, rq_force = ub_force b\<rparr>)) of
           Inl e \<Rightarrow> BadRequest e
         | Inr req \<Rightarrow>
             (case service_validate_tag t (rq_tag req) of
                Some e \<Rightarrow> BadRequest e
              | None \<Rightarrow> Start req)))"

text \<open>The product of a count of seconds and a second is taken in \<open>int64\<close>.\<close>

definition parse_wait :: "(nat \<Rightarrow> nat \<Rightarrow> nat \<Rightarrow> nat) \<Rightarrow> string \<Rightarrow> duration" where
  "parse_wait frac v =
     (if v = [] then 0
      else
        (case (case parse_duration frac v of
                 Some d \<Rightarrow> Some d
               | None \<Rightarrow> (case atoi v of None \<Rightarrow> None | Some n \<Rightarrow> Some (wrap64 (n * second)))) of
           None \<Rightarrow> 0
         | Some d \<Rightarrow> if d < 0 then 0 else if max_wait < d then max_wait else d))"

section \<open>Starting an update\<close>

text \<open>
  How the wait for a job ended, with the store and the clock of that moment.  \<open>ClientGone\<close>
  writes no reply.
\<close>

datatype wait_end = JobDone store time | TimerFired store time | ClientGone

definition waited_answer :: "nat \<Rightarrow> wait_end \<Rightarrow> answer option" where
  "waited_answer r w =
     (case w of
        JobDone st now \<Rightarrow>
          (let snap = snapshot_of now (job_at st r)
           in Some (write_json (if state_ok (sn_state snap) then 200 else 500) (json_of_snapshot snap)))
      | TimerFired st now \<Rightarrow> Some (write_json 202 (json_of_snapshot (snapshot_of now (job_at st r))))
      | ClientGone \<Rightarrow> None)"

record update_env =
  ue_dec :: decoders
  ue_frac :: "nat \<Rightarrow> nat \<Rightarrow> nat \<Rightarrow> nat"
  ue_manager :: manager
  ue_ident :: string
  ue_now :: time
  ue_wait :: wait_end

definition handle_update ::
  "server \<Rightarrow> update_env \<Rightarrow> string \<Rightarrow> http_request \<Rightarrow> string \<Rightarrow> string \<Rightarrow> store
   \<Rightarrow> (answer option \<times> manager_action list) \<times> store" where
  "handle_update s e name r trigger body st =
     (case target_by_name (srv_cfg s) name of
        None \<Rightarrow> ((Some (write_error 404 ''unknown target''), []), st)
      | Some t \<Rightarrow>
          (case build_request (ue_dec e) t r trigger body of
             BadRequest m \<Rightarrow> ((Some (write_error 400 m), []), st)
           | Ignored m \<Rightarrow>
               ((Some (write_json 200 (JObj [(''reason'', JStr m), (''status'', JStr ''ignored'')])), []), st)
           | Start req \<Rightarrow>
               (case manager_start (ue_manager e) (ue_ident e) (ue_now e) t req st of
                  ((Some err, j, as), st1) \<Rightarrow>
                    ((Some (with_headers [(''Retry-After'', ''30'')] (write_json 409 (JObj
                        [(''error'', JStr ''an update is already running for this target''),
                         (''running_job'', json_of_snapshot (snapshot_of (ue_now e) (job_at st1 j)))]))), as), st1)
                | ((None, j, as), st1) \<Rightarrow>
                    if parse_wait (ue_frac e) (query_get r ''wait'') \<le> 0
                    then ((Some (write_json 202 (json_of_snapshot (snapshot_of (ue_now e) (job_at st1 j)))), as), st1)
                    else ((waited_answer j (ue_wait e), as), st1))))"

section \<open>The layers\<close>

text \<open>The patterns of the mux, on the path's segments.\<close>

datatype endpoint =
    Healthz | ListTargets | UpdateTarget string | CheckTarget string | TargetStatus string
  | ListJobs | VersionInfo | GetJob string

definition route :: "string \<Rightarrow> string list \<Rightarrow> endpoint option" where
  "route verb segs =
     (let reading = (verb = ''GET'' \<or> verb = ''HEAD''); posting = (verb = ''POST'') in
      case segs of
        [a] \<Rightarrow> (if reading \<and> a = ''healthz'' then Some Healthz else None)
      | [a, b] \<Rightarrow>
          (if \<not> reading \<or> a \<noteq> ''v1'' then None
           else if b = ''targets'' then Some ListTargets
           else if b = ''jobs'' then Some ListJobs
           else if b = ''version'' then Some VersionInfo else None)
      | [a, b, c] \<Rightarrow> (if reading \<and> a = ''v1'' \<and> b = ''jobs'' \<and> c \<noteq> [] then Some (GetJob c) else None)
      | [a, b, c, d] \<Rightarrow>
          (if a \<noteq> ''v1'' \<or> b \<noteq> ''targets'' \<or> c = [] then None
           else if posting \<and> d = ''update'' then Some (UpdateTarget c)
           else if posting \<and> d = ''check'' then Some (CheckTarget c)
           else if reading \<and> d = ''status'' then Some (TargetStatus c) else None)
      | _ \<Rightarrow> None)"

definition dispatch ::
  "server \<Rightarrow> update_env \<Rightarrow> endpoint \<Rightarrow> http_request \<Rightarrow> string \<Rightarrow> string \<Rightarrow> store
   \<Rightarrow> (answer option \<times> manager_action list) \<times> store" where
  "dispatch s e ep r trigger body st =
     (case ep of
        Healthz \<Rightarrow> ((Some handle_healthz, []), st)
      | ListTargets \<Rightarrow> ((Some (handle_list_targets s st (ue_now e)), []), st)
      | UpdateTarget n \<Rightarrow> handle_update s e n r trigger body st
      | CheckTarget n \<Rightarrow> ((Some (handle_check_now s n), []), st)
      | TargetStatus n \<Rightarrow> ((Some (handle_target_status s st (ue_now e) n), []), st)
      | ListJobs \<Rightarrow> ((Some (handle_list_jobs st (ue_now e) r), []), st)
      | VersionInfo \<Rightarrow> ((Some (handle_version s), []), st)
      | GetJob i \<Rightarrow> ((Some (handle_get_job st (ue_now e) i), []), st))"

text \<open>
  \<open>restrictSource\<close> around \<open>cors\<close> around the mux; \<open>fallback\<close> is the mux's own reply when no pattern
  matches.  The state is the throttle and the store.
\<close>

definition respond ::
  "host \<Rightarrow> crypto \<Rightarrow> server \<Rightarrow> update_env \<Rightarrow> answer \<Rightarrow> time \<times> time \<Rightarrow> string list \<Rightarrow> http_request
   \<Rightarrow> throttle \<times> store \<Rightarrow> (answer option \<times> manager_action list) \<times> throttle \<times> store" where
  "respond h k s e fallback readings segs r ts =
     (if \<not> allowed_source h (srv_cfg s) r
      then ((Some (write_error 403 ''this source address is not permitted''), []), ts)
      else
        (case cors (srv_cfg s) r of
           (CorsRefused, hs) \<Rightarrow>
             ((Some (with_headers hs (write_error 403
                ''cross-origin requests are not enabled for this origin'')), []), ts)
         | (CorsPreflight, hs) \<Rightarrow>
             ((Some \<lparr>an_status = 204, an_headers = hs, an_body = None\<rparr>, []), ts)
         | (CorsNext, hs) \<Rightarrow>
             (case route (ht_method r) segs of
                None \<Rightarrow> ((Some (with_headers hs fallback), []), ts)
              | Some Healthz \<Rightarrow> ((Some (with_headers hs handle_healthz), []), ts)
              | Some ep \<Rightarrow>
                  (case protected h k (srv_cfg s) r readings (fst ts) of
                     (GateReply n gs m, a') \<Rightarrow>
                       ((Some (with_headers (hs @ gs) (write_error n m)), []), a', snd ts)
                   | (GateOpen trigger body, a') \<Rightarrow>
                       (case dispatch s e ep r trigger body (snd ts) of
                          ((reply, as), st') \<Rightarrow> ((map_option (with_headers hs) reply, as), a', st'))))))"

text \<open>The level of the access log, and the recorder that remembers the first status written.\<close>

datatype log_level = LevelInfo | LevelWarn | LevelError

definition access_level :: "nat \<Rightarrow> log_level" where
  "access_level status = (if 500 \<le> status then LevelError else if 400 \<le> status then LevelWarn else LevelInfo)"

record recorder =
  re_status :: nat
  re_written :: bool

definition new_recorder :: recorder where
  "new_recorder = \<lparr>re_status = 200, re_written = False\<rparr>"

definition write_header :: "nat \<Rightarrow> recorder \<Rightarrow> bool \<times> recorder" where
  "write_header code r = (if re_written r then (False, r) else (True, r\<lparr>re_written := True, re_status := code\<rparr>))"

definition write_body :: "recorder \<Rightarrow> recorder" where
  "write_body r = r\<lparr>re_written := True\<rparr>"

section \<open>Lemmas\<close>

lemma parse_wait_range: "0 \<le> parse_wait frac v \<and> parse_wait frac v \<le> max_wait"
  by (simp add: parse_wait_def max_wait_def minute_def second_def split: option.split)

text \<open>A tag that is accepted here is accepted by the agent.\<close>

definition tag_accepted :: "target \<Rightarrow> string \<Rightarrow> bool" where
  "tag_accepted t tag \<longleftrightarrow> tag = [] \<or> (t_image_tag_env t \<noteq> [] \<and> valid_image_tag tag)"

lemma service_validate_tag: "service_validate_tag t tag = None \<longleftrightarrow> tag_accepted t tag"
  by (simp add: service_validate_tag_def tag_accepted_def)

lemma github_request_tag: "github_request d t event body = Start req \<Longrightarrow> tag_accepted t (rq_tag req)"
  by (auto simp: github_request_def tag_accepted_def request_of_def Let_def split: if_splits sum.splits)

lemma build_request_tag: "build_request d t r trigger body = Start req \<Longrightarrow> tag_accepted t (rq_tag req)"
  by (auto simp: build_request_def Let_def service_validate_tag
      split: if_splits sum.splits option.splits dest: github_request_tag)

lemma collect_limit:
  "0 < limit \<Longrightarrow> length acc < limit \<Longrightarrow> length (collect s tgt limit acc is) \<le> limit"
  by (induction s tgt limit acc "is" rule: collect.induct) (auto split: option.split)

lemma job_limit_range: "0 < job_limit r \<and> job_limit r \<le> 200"
  by (auto simp: job_limit_def max_job_limit_def Let_def split: option.splits)

lemma listed_jobs: "length (store_list now tgt (job_limit r) st) \<le> 200"
proof -
  have "length (collect st tgt (job_limit r) [] (rev (s_order st))) \<le> job_limit r"
    using job_limit_range by (intro collect_limit) auto
  with job_limit_range [of r] show ?thesis by (simp add: store_list_def)
qed

lemma manager_start_busy:
  "manager_start m ident now t req st = ((e, j, as), st') \<Longrightarrow>
   (if manager_busy (t_name t) st then e \<noteq> None \<and> st' = st \<and> as = [] else e = None)"
  by (auto simp: manager_start_def manager_busy_def store_running_def store_begin_def Let_def
      split: option.splits prod.splits)

lemma handle_update_start:
  assumes "handle_update s e n r trigger body st = ((reply, as), st')"
  shows "st' = st \<and> as = []
    \<or> (\<exists>t req j. target_by_name (srv_cfg s) n = Some t \<and> tag_accepted t (rq_tag req)
         \<and> \<not> manager_busy (t_name t) st
         \<and> manager_start (ue_manager e) (ue_ident e) (ue_now e) t req st = ((None, j, as), st'))"
proof (cases "target_by_name (srv_cfg s) n")
  case (Some t)
  show ?thesis
  proof (cases "build_request (ue_dec e) t r trigger body")
    case (Start req)
    obtain er j as1 st1 where m: "manager_start (ue_manager e) (ue_ident e) (ue_now e) t req st = ((er, j, as1), st1)"
      by (metis surj_pair)
    have out: "as = as1 \<and> st' = st1"
      using assms Some Start m by (auto simp: handle_update_def split: option.splits if_splits)
    show ?thesis
      using manager_start_busy [OF m] out m Some build_request_tag [OF Start]
      by (auto split: if_splits)
  qed (use assms Some in \<open>auto simp: handle_update_def\<close>)
qed (use assms in \<open>auto simp: handle_update_def\<close>)

lemma dispatch_start:
  assumes "dispatch s e ep r trigger body st = ((reply, as), st')"
  shows "st' = st \<and> as = []
    \<or> (\<exists>n t req j. target_by_name (srv_cfg s) n = Some t \<and> tag_accepted t (rq_tag req)
         \<and> \<not> manager_busy (t_name t) st
         \<and> manager_start (ue_manager e) (ue_ident e) (ue_now e) t req st = ((None, j, as), st'))"
proof (cases ep)
  case (UpdateTarget n)
  with assms have "handle_update s e n r trigger body st = ((reply, as), st')" by (simp add: dispatch_def)
  from handle_update_start [OF this] show ?thesis by blast
qed (use assms in \<open>auto simp: dispatch_def\<close>)

text \<open>What a change of the store by a request shows about the request.\<close>

definition update_allowed ::
  "host \<Rightarrow> crypto \<Rightarrow> server \<Rightarrow> update_env \<Rightarrow> http_request \<Rightarrow> store \<Rightarrow> store \<Rightarrow> manager_action list \<Rightarrow> bool" where
  "update_allowed h k s e r st st' as \<longleftrightarrow>
     allowed_source h (srv_cfg s) r \<and> length (ht_body r) \<le> max_request_bytes
     \<and> (\<exists>trigger. authentic k (srv_cfg s) r trigger)
     \<and> (\<exists>n t req j. target_by_name (srv_cfg s) n = Some t \<and> tag_accepted t (rq_tag req)
          \<and> \<not> manager_busy (t_name t) st
          \<and> manager_start (ue_manager e) (ue_ident e) (ue_now e) t req st = ((None, j, as), st'))"

definition served_ok ::
  "host \<Rightarrow> crypto \<Rightarrow> server \<Rightarrow> update_env \<Rightarrow> http_request \<Rightarrow> store
   \<Rightarrow> (answer option \<times> manager_action list) \<times> throttle \<times> store \<Rightarrow> bool" where
  "served_ok h k s e r st out \<longleftrightarrow>
     (case out of ((reply, as), a', st') \<Rightarrow> st' = st \<and> as = [] \<or> update_allowed h k s e r st st' as)"

lemma respond_served: "served_ok h k s e r (snd ts) (respond h k s e fallback readings segs r ts)"
proof (cases "allowed_source h (srv_cfg s) r \<and> fst (cors (srv_cfg s) r) = CorsNext")
  case True
  then obtain hs where c: "allowed_source h (srv_cfg s) r" "cors (srv_cfg s) r = (CorsNext, hs)"
    by (metis prod.collapse)
  obtain g a' where g: "protected h k (srv_cfg s) r readings (fst ts) = (g, a')" by fastforce
  have ok: "gate_ok k (srv_cfg s) r g" using protected_gate [of k "srv_cfg s" r h readings "fst ts"] g by simp
  show ?thesis
  proof (cases g)
    case (GateReply n gs m)
    then show ?thesis
      using c g by (auto simp: respond_def served_ok_def split: option.split endpoint.split)
  next
    case (GateOpen trigger body)
    then have auth: "authentic k (srv_cfg s) r trigger" "length (ht_body r) \<le> max_request_bytes"
      using ok by (auto simp: gate_ok_def)
    have served: "served_ok h k s e r (snd ts) ((map_option (with_headers hs) reply, as), a', st')"
      if "dispatch s e ep r trigger body (snd ts) = ((reply, as), st')" for ep reply as st'
      using dispatch_start [OF that] auth c(1) unfolding served_ok_def update_allowed_def by auto
    show ?thesis
    proof (cases "route (ht_method r) segs")
      case None
      then show ?thesis using c by (cases ts) (simp add: respond_def served_ok_def)
    next
      case (Some ep)
      obtain reply as st' where d: "dispatch s e ep r trigger body (snd ts) = ((reply, as), st')"
        by (metis surj_pair)
      show ?thesis
        using c g GateOpen Some d served [OF d]
        by (cases ts; cases ep; simp add: respond_def served_ok_def)
    qed
  qed
next
  case False
  then show ?thesis
    by (auto simp: respond_def served_ok_def split: prod.split cors_step.split)
qed

end
