(* ===== verification/Serve.thy ===== *)
theory Serve
  imports Schedule
begin

text \<open>
  \<open>internal/cli/serve.go\<close>: how the service wires the manager to the scheduler.  Of a finished
  job's actions the \<open>OnComplete\<close> callback reaches the scheduler, for every final state.
\<close>

definition on_complete :: "string \<Rightarrow> snapshot \<Rightarrow> sched \<Rightarrow> sched" where
  "on_complete target snap s = clear_pending target s"

fun deliver :: "manager_action list \<Rightarrow> sched \<Rightarrow> sched" where
  "deliver [] s = s"
| "deliver (OnDone target snap # as) s = deliver as (on_complete target snap s)"
| "deliver (a # as) s = deliver as s"

lemma deliver_cleared: "sc_pending s n = None \<Longrightarrow> sc_pending (deliver as s) n = None"
  by (induction as s rule: deliver.induct) (auto simp: on_complete_def clear_pending_def clear_def)

lemma deliver_done: "OnDone n snap \<in> set as \<Longrightarrow> sc_pending (deliver as s) n = None"
proof (induction as s rule: deliver.induct)
  case (2 target snap' as s)
  then show ?case
    by (auto simp: on_complete_def clear_pending_def clear_def intro: deliver_cleared)
qed auto

end
