(* ===== verification/Notify.thy ===== *)
theory Notify
  imports Json Manager Schedule
begin

text \<open>
  \<open>internal/notify\<close>: what is posted to the webhook, for which event, in which shape.  An
  operation yields the payload to post, or nothing when its event is not subscribed to;
  \<open>notify_send\<close> posts it through a transport that is an argument and says what was logged.
\<close>

section \<open>Formats\<close>

definition detect :: "host \<Rightarrow> string \<Rightarrow> string" where
  "detect h raw =
     (case hs_parse_url h raw of
        None \<Rightarrow> ''dup''
      | Some u \<Rightarrow>
          (let hn = to_lower (u_hostname u) in
           if hn = ''discord.com'' \<or> hn = ''discordapp.com'' \<or> has_suffix hn ''.discord.com''
             \<or> has_suffix hn ''.discordapp.com'' then ''discord''
           else if hn = ''hooks.slack.com'' then ''slack''
           else if hn = ''chat.googleapis.com'' then ''google-chat''
           else ''dup''))"

definition max_response :: nat where "max_response = 2 * 1024"

record notifier =
  nt_cfg :: notify_cfg
  nt_format :: string
  nt_resolved :: string
  nt_detected :: bool
  nt_host :: string

definition new_notifier :: "host \<Rightarrow> notify_cfg \<Rightarrow> string \<Rightarrow> notifier option" where
  "new_notifier h cfg host_name =
     (if nf_url cfg = [] then None
      else
        (let format = (if nf_format cfg = [] then ''auto'' else nf_format cfg)
         in Some \<lparr>nt_cfg = cfg, nt_format = format,
              nt_resolved = (if format = ''auto'' then detect h (nf_url cfg) else format),
              nt_detected = (format = ''auto''), nt_host = host_name\<rparr>))"

section \<open>Payloads\<close>

record image_state =
  im_service :: string
  im_image :: string
  im_state :: string
  im_health :: string

record payload =
  pl_host :: string
  pl_target :: string
  pl_job :: string
  pl_state :: string
  pl_ok :: bool
  pl_summary :: string
  pl_message :: string
  pl_trigger :: string
  pl_reason :: string
  pl_changed :: "string list"
  pl_event :: string
  pl_test :: bool
  pl_applies :: "time option"
  pl_error :: string
  pl_text :: string
  pl_images :: "image_state list"
  pl_duration :: int
  pl_finished :: time

definition json_of_image :: "image_state \<Rightarrow> json" where
  "json_of_image i = JObj
     (field ''service'' (JStr (im_service i)) @ opt_str ''image'' (im_image i)
      @ opt_str ''state'' (im_state i) @ opt_str ''health'' (im_health i))"

definition json_of_payload :: "payload \<Rightarrow> json" where
  "json_of_payload p = JObj
     (field ''host'' (JStr (pl_host p)) @ field ''target'' (JStr (pl_target p))
      @ opt_str ''job_id'' (pl_job p) @ opt_str ''state'' (pl_state p) @ field ''ok'' (JBool (pl_ok p))
      @ field ''summary'' (JStr (pl_summary p)) @ opt_str ''message'' (pl_message p)
      @ opt_str ''trigger'' (pl_trigger p) @ opt_str ''reason'' (pl_reason p)
      @ opt_list ''changed_services'' JStr (pl_changed p) @ field ''event'' (JStr (pl_event p))
      @ opt_bool ''test'' (pl_test p) @ opt_time ''applies_at'' (pl_applies p)
      @ opt_str ''error'' (pl_error p) @ opt_str ''text'' (pl_text p)
      @ opt_list ''images'' json_of_image (pl_images p)
      @ (if pl_duration p = 0 then [] else field ''duration_ms'' (JInt (pl_duration p)))
      @ field ''finished_at'' (JTime (pl_finished p)))"

definition event_for :: "job_state \<Rightarrow> string" where
  "event_for s =
     (case s of
        StateSucceeded \<Rightarrow> ''update_succeeded'' | StateNoChange \<Rightarrow> ''update_no_change''
      | StateDryRun \<Rightarrow> ''update_dry_run'' | StateRolledBack \<Rightarrow> ''update_rolled_back''
      | StateRollbackFailed \<Rightarrow> ''update_rollback_failed'' | _ \<Rightarrow> ''update_failed'')"

definition outcome_words :: "job_state \<Rightarrow> string" where
  "outcome_words s =
     (case s of
        StateSucceeded \<Rightarrow> ''Updated '' | StateNoChange \<Rightarrow> ''No change for ''
      | StateDryRun \<Rightarrow> ''Dry run for '' | StateRolledBack \<Rightarrow> ''Rolled back ''
      | StateRollbackFailed \<Rightarrow> ''ROLLBACK FAILED for '' | _ \<Rightarrow> ''Update FAILED for '')"

definition summarise :: "string \<Rightarrow> snapshot \<Rightarrow> string" where
  "summarise host_name s =
     outcome_words (sn_state s) @ sn_target s @ '' on '' @ host_name
     @ (if sn_changed s = [] then [] else '' ('' @ join '', '' (sn_changed s) @ '')'')
     @ (if sn_message s = [] then [] else '': '' @ sn_message s)"

definition image_of :: "service_state \<Rightarrow> image_state" where
  "image_of s = \<lparr>im_service = sv_service s, im_image = sv_image s, im_state = sv_state s, im_health = sv_health s\<rparr>"

definition build_payload :: "notifier \<Rightarrow> time \<Rightarrow> snapshot \<Rightarrow> payload" where
  "build_payload n now s =
     \<lparr>pl_host = nt_host n, pl_target = sn_target s, pl_job = sn_id s, pl_state = state_text (sn_state s),
      pl_ok = state_ok (sn_state s), pl_summary = summarise (nt_host n) s, pl_message = sn_message s,
      pl_trigger = sn_trigger s, pl_reason = sn_reason s, pl_changed = sn_changed s, pl_event = [],
      pl_test = False, pl_applies = None, pl_error = [], pl_text = [],
      pl_images = map image_of (sn_after s), pl_duration = sn_duration s,
      pl_finished = (case sn_finished s of None \<Rightarrow> now | Some e \<Rightarrow> e)\<rparr>"

definition job_payload :: "notifier \<Rightarrow> time \<Rightarrow> snapshot \<Rightarrow> string \<Rightarrow> bool \<Rightarrow> payload" where
  "job_payload n now s event test = (build_payload n now s)\<lparr>pl_event := event, pl_test := test\<rparr>"

definition event_payload :: "notifier \<Rightarrow> time \<Rightarrow> string \<Rightarrow> string \<Rightarrow> bool \<Rightarrow> payload" where
  "event_payload n now event target fine =
     \<lparr>pl_host = nt_host n, pl_target = target, pl_job = [], pl_state = [], pl_ok = fine, pl_summary = [],
      pl_message = [], pl_trigger = ''auto'', pl_reason = [], pl_changed = [], pl_event = event,
      pl_test = False, pl_applies = None, pl_error = [], pl_text = [], pl_images = [],
      pl_duration = 0, pl_finished = now\<rparr>"

text \<open>The body; only the full payload repeats the summary as its text.\<close>

definition encode_payload :: "notifier \<Rightarrow> payload \<Rightarrow> json" where
  "encode_payload n p =
     (if nt_resolved n = ''discord'' then JObj [(''content'', JStr (pl_summary p))]
      else if nt_resolved n \<in> set [''slack'', ''google-chat'', ''teams''] then JObj [(''text'', JStr (pl_summary p))]
      else json_of_payload (p\<lparr>pl_text := pl_summary p\<rparr>))"

section \<open>Operations\<close>

definition notifier_wants :: "notifier option \<Rightarrow> string \<Rightarrow> bool" where
  "notifier_wants n event = (case n of None \<Rightarrow> False | Some k \<Rightarrow> wants (nt_cfg k) event)"

definition when_wanted :: "notifier option \<Rightarrow> string \<Rightarrow> (notifier \<Rightarrow> payload) \<Rightarrow> payload option" where
  "when_wanted n event f =
     (case n of None \<Rightarrow> None | Some k \<Rightarrow> if notifier_wants n event then Some (f k) else None)"

definition notify_job :: "notifier option \<Rightarrow> time \<Rightarrow> snapshot \<Rightarrow> payload option" where
  "notify_job n now s =
     when_wanted n (event_for (sn_state s)) (\<lambda>k. job_payload k now s (event_for (sn_state s)) False)"

definition notify_started :: "notifier option \<Rightarrow> time \<Rightarrow> snapshot \<Rightarrow> payload option" where
  "notify_started n now s =
     when_wanted n ''update_started'' (\<lambda>k. (job_payload k now s ''update_started'' False)
       \<lparr>pl_ok := True, pl_summary := ''Starting update of '' @ sn_target s @ '' on '' @ nt_host k\<rparr>)"

text \<open>\<open>Format("15:04 MST")\<close> of an instant in UTC.\<close>

definition two_digits :: "int \<Rightarrow> string" where
  "two_digits n = [chr (48 + nat (n div 10)), chr (48 + nat (n mod 10))]"

definition clock_text :: "time \<Rightarrow> string" where
  "clock_text at =
     two_digits (at div hour mod 24) @ '':'' @ two_digits (at div minute mod 60) @ '' UTC''"

definition join_or :: "string list \<Rightarrow> string \<Rightarrow> string" where
  "join_or vs fallback = (if vs = [] then fallback else join '', '' vs)"

definition first_line :: "string \<Rightarrow> string" where
  "first_line s = trim_space (case index_byte (chr 10) s of None \<Rightarrow> s | Some i \<Rightarrow> take i s)"

definition notify_available ::
  "notifier option \<Rightarrow> time \<Rightarrow> string \<Rightarrow> string list \<Rightarrow> time \<Rightarrow> payload option" where
  "notify_available n now target services at =
     when_wanted n ''update_available'' (\<lambda>k. (event_payload k now ''update_available'' target True)
       \<lparr>pl_changed := services, pl_applies := Some at,
        pl_summary := ''New image for '' @ join_or services target @ '' on '' @ target @ '' ('' @ nt_host k
          @ ''), applying at '' @ clock_text at\<rparr>)"

definition notify_withdrawn :: "notifier option \<Rightarrow> time \<Rightarrow> string \<Rightarrow> string \<Rightarrow> payload option" where
  "notify_withdrawn n now target reason =
     when_wanted n ''update_withdrawn'' (\<lambda>k. (event_payload k now ''update_withdrawn'' target True)
       \<lparr>pl_message := reason,
        pl_summary := ''The pending image for '' @ target @ '' on '' @ nt_host k
          @ '' is gone, nothing will be applied''\<rparr>)"

definition notify_check_failed :: "notifier option \<Rightarrow> time \<Rightarrow> string \<Rightarrow> string option \<Rightarrow> payload option" where
  "notify_check_failed n now target cause =
     (let err = (case cause of None \<Rightarrow> [] | Some e \<Rightarrow> e) in
      when_wanted n ''check_failed'' (\<lambda>k. (event_payload k now ''check_failed'' target False)
       \<lparr>pl_error := err,
        pl_summary := ''Cannot check '' @ target @ '' on '' @ nt_host k @ '' against its registry: ''
          @ first_line err\<rparr>))"

definition notify_check_recovered :: "notifier option \<Rightarrow> time \<Rightarrow> string \<Rightarrow> payload option" where
  "notify_check_recovered n now target =
     when_wanted n ''check_recovered'' (\<lambda>k. (event_payload k now ''check_recovered'' target True)
       \<lparr>pl_summary := ''Checking '' @ target @ '' on '' @ nt_host k @ '' is working again''\<rparr>)"

section \<open>Sending\<close>

text \<open>\<open>textproto.CanonicalMIMEHeaderKey\<close>, which \<open>Header.Set\<close> applies.\<close>

definition token_char :: "char \<Rightarrow> bool" where
  "token_char c \<longleftrightarrow> is_alnum c \<or> c \<in> set ''!#$%&*+-.^_|~'' \<or> byte c = 39 \<or> byte c = 96"

fun canonical_from :: "bool \<Rightarrow> string \<Rightarrow> string" where
  "canonical_from upper [] = []"
| "canonical_from upper (c # s) =
     (if upper \<and> 97 \<le> byte c \<and> byte c \<le> 122 then chr (byte c - 32)
      else if \<not> upper \<and> 65 \<le> byte c \<and> byte c \<le> 90 then chr (byte c + 32) else c)
     # canonical_from (c = CHR ''-'') s"

definition canonical_key :: "string \<Rightarrow> string" where
  "canonical_key k = (if list_all token_char k then canonical_from True k else k)"

record posted =
  po_url :: string
  po_headers :: "(string \<times> string) list"
  po_body :: json

definition post_of :: "notifier \<Rightarrow> payload \<Rightarrow> posted" where
  "post_of n p =
     \<lparr>po_url = nf_url (nt_cfg n),
      po_headers = fold (\<lambda>kv. al_put (canonical_key (fst kv)) (snd kv)) (nf_headers (nt_cfg n))
        [(''Content-Type'', ''application/json''), (''User-Agent'', ''dup'')],
      po_body = encode_payload n p\<rparr>"

record notify_result =
  nr_status :: nat
  nr_body :: string

definition result_ok :: "notify_result \<Rightarrow> bool" where
  "result_ok r \<longleftrightarrow> 0 < nr_status r \<and> nr_status r < 300"

definition notify_deliver ::
  "(posted \<Rightarrow> string + nat \<times> string) \<Rightarrow> notifier \<Rightarrow> payload \<Rightarrow> string + notify_result" where
  "notify_deliver http n p =
     (case http (post_of n p) of
        Inl e \<Rightarrow> Inl e
      | Inr (code, body) \<Rightarrow> Inr \<lparr>nr_status = code, nr_body = trim_space (take max_response body)\<rparr>)"

text \<open>What \<open>send\<close> logs.\<close>

datatype notify_log = RequestFailed string | Rejected nat string | Delivered nat

definition notify_send ::
  "(posted \<Rightarrow> string + nat \<times> string) \<Rightarrow> notifier \<Rightarrow> payload \<Rightarrow> notify_log" where
  "notify_send http n p =
     (case notify_deliver http n p of
        Inl e \<Rightarrow> RequestFailed e
      | Inr r \<Rightarrow> if \<not> result_ok r then Rejected (nr_status r) (nr_body r) else Delivered (nr_status r))"

text \<open>\<open>Deliver\<close>, which \<open>dup notify test\<close> uses, asks for no subscription.\<close>

definition notify_test ::
  "(posted \<Rightarrow> string + nat \<times> string) \<Rightarrow> notifier \<Rightarrow> time \<Rightarrow> snapshot \<Rightarrow> bool \<Rightarrow> string + notify_result" where
  "notify_test http n now s test =
     notify_deliver http n (job_payload n now s (event_for (sn_state s)) test)"

section \<open>From the manager and the scheduler\<close>

text \<open>Which operation an action of the manager or an announcement of the scheduler calls.\<close>

definition manager_post :: "notifier option \<Rightarrow> time \<Rightarrow> manager_action \<Rightarrow> payload option" where
  "manager_post n now a =
     (case a of
        NotifyStarted s \<Rightarrow> notify_started n now s
      | NotifyDone s \<Rightarrow> notify_job n now s
      | _ \<Rightarrow> None)"

definition sched_post :: "notifier option \<Rightarrow> time \<Rightarrow> sched_action \<Rightarrow> payload option" where
  "sched_post n now a =
     (case a of
        AnnounceAvailable t services at \<Rightarrow> notify_available n now t services at
      | AnnounceWithdrawn t reason \<Rightarrow> notify_withdrawn n now t reason
      | AnnounceCheckFailed t e \<Rightarrow> notify_check_failed n now t (Some (client_error_text e))
      | AnnounceCheckRecovered t \<Rightarrow> notify_check_recovered n now t
      | _ \<Rightarrow> None)"

section \<open>Lemmas\<close>

lemma when_wanted_Some:
  "when_wanted n event f = Some p \<longleftrightarrow> (\<exists>k. n = Some k \<and> wants (nt_cfg k) event \<and> p = f k)"
  by (auto simp: when_wanted_def notifier_wants_def split: option.splits)

lemma event_for_known: "event_for s \<in> fst ` set default_events"
  by (cases s) (simp_all add: event_for_def default_events_def)

text \<open>A payload of a job says of the job what is so.\<close>

definition truthful :: "notifier \<Rightarrow> snapshot \<Rightarrow> payload \<Rightarrow> bool" where
  "truthful n s p \<longleftrightarrow> pl_target p = sn_target s \<and> pl_job p = sn_id s
     \<and> pl_ok p = state_ok (sn_state s) \<and> pl_event p = event_for (sn_state s)
     \<and> has_prefix (pl_summary p) (outcome_words (sn_state s) @ sn_target s @ '' on '' @ nt_host n)"

lemma job_payload_truthful: "truthful n s (job_payload n now s (event_for (sn_state s)) test)"
  by (simp add: truthful_def job_payload_def build_payload_def summarise_def has_prefix_iff)

text \<open>Success words, success events and the flag agree.\<close>

lemma event_agrees:
  "state_ok s \<longleftrightarrow> event_for s \<in> {''update_succeeded'', ''update_no_change'', ''update_dry_run''}"
  by (cases s) (simp_all add: event_for_def state_ok_def)

lemma words_agree:
  "state_ok s \<longleftrightarrow> outcome_words s \<in> {''Updated '', ''No change for '', ''Dry run for ''}"
  by (cases s) (simp_all add: outcome_words_def state_ok_def)

text \<open>Whatever is posted was subscribed to.\<close>

definition subscribed :: "notifier option \<Rightarrow> payload \<Rightarrow> bool" where
  "subscribed n p \<longleftrightarrow> (\<exists>k. n = Some k \<and> wants (nt_cfg k) (pl_event p))"

lemma when_wanted_subscribed:
  "(\<And>k. pl_event (f k) = event) \<Longrightarrow> pred_option (subscribed n) (when_wanted n event f)"
  by (cases n) (simp_all add: when_wanted_def notifier_wants_def subscribed_def)

lemmas notify_defs = notify_started_def notify_job_def notify_available_def notify_withdrawn_def
  notify_check_failed_def notify_check_recovered_def job_payload_def event_payload_def Let_def

lemma manager_post_subscribed: "pred_option (subscribed n) (manager_post n now a)"
  by (cases a) (simp_all add: manager_post_def notify_defs when_wanted_subscribed)

lemma sched_post_subscribed: "pred_option (subscribed n) (sched_post n now a)"
  by (cases a) (simp_all add: sched_post_def notify_defs when_wanted_subscribed)

end
