(* ===== verification/Rotate.thy ===== *)
theory Rotate
  imports Go_Os Go_Order
begin

text \<open>
  \<open>internal/rotate\<close>: a file writer that rotates by size and compresses what it retires.

  The disk maps a path to a plain or to a compressed file.  Every system call may fail: the
  \<open>k\<close>-th one succeeds when \<open>ok k\<close> holds.  The rotation is proved, when nothing fails, to move
  the files as a queue of segments; when something does, to leave the writer closed.
\<close>

section \<open>The disk\<close>

datatype disk_file = Plain string | Gz string

record disk =
  ds_files :: "string \<Rightarrow> disk_file option"
  ds_ops :: nat

text \<open>The faults: which calls succeed, and how much a failing write still writes.\<close>

record faults =
  ft_ok :: "nat \<Rightarrow> bool"
  ft_short :: "nat \<Rightarrow> nat"

definition attempt :: "faults \<Rightarrow> disk \<Rightarrow> bool \<times> disk" where
  "attempt o1 d = (ft_ok o1 (ds_ops d), d\<lparr>ds_ops := Suc (ds_ops d)\<rparr>)"

definition put_file :: "string \<Rightarrow> disk_file option \<Rightarrow> disk \<Rightarrow> disk" where
  "put_file p f d = d\<lparr>ds_files := (ds_files d)(p := f)\<rparr>"

text \<open>\<open>os.Remove\<close> and \<open>os.Rename\<close>, the callers ignoring that the file was not there.\<close>

definition os_remove :: "faults \<Rightarrow> string \<Rightarrow> disk \<Rightarrow> bool \<times> disk" where
  "os_remove o1 p d =
     (case attempt o1 d of
        (False, d1) \<Rightarrow> (False, d1)
      | (True, d1) \<Rightarrow> (True, put_file p None d1))"

definition os_rename :: "faults \<Rightarrow> string \<Rightarrow> string \<Rightarrow> disk \<Rightarrow> bool \<times> disk" where
  "os_rename o1 a b d =
     (case attempt o1 d of
        (False, d1) \<Rightarrow> (False, d1)
      | (True, d1) \<Rightarrow>
          (case ds_files d1 a of
             None \<Rightarrow> (True, d1)
           | Some f \<Rightarrow> (True, put_file a None (put_file b (Some f) d1))))"

section \<open>The writer\<close>

definition default_max_bytes :: int where "default_max_bytes = 10 * 1024 * 1024"

record writer =
  wr_path :: string
  wr_max :: int
  wr_keep :: nat
  wr_open :: bool
  wr_n :: int

definition archive :: "string \<Rightarrow> nat \<Rightarrow> string" where
  "archive path i = path @ ''.'' @ nat_digits i @ ''.gz''"

definition file_bytes :: "disk_file option \<Rightarrow> string" where
  "file_bytes f = (case f of None \<Rightarrow> [] | Some (Plain s) \<Rightarrow> s | Some (Gz s) \<Rightarrow> s)"

text \<open>\<open>open\<close>: create when missing, then the size.\<close>

definition writer_open :: "faults \<Rightarrow> writer \<times> disk \<Rightarrow> bool \<times> writer \<times> disk" where
  "writer_open o1 wd =
     (case attempt o1 (snd wd) of
        (False, d1) \<Rightarrow> (False, fst wd, d1)
      | (True, d1) \<Rightarrow>
          (let p = wr_path (fst wd);
               d2 = (if ds_files d1 p = None then put_file p (Some (Plain [])) d1 else d1)
           in case attempt o1 d2 of
                (False, d3) \<Rightarrow> (False, fst wd, d3)
              | (True, d3) \<Rightarrow>
                  (True, (fst wd)\<lparr>wr_open := True, wr_n := int (length (file_bytes (ds_files d3 p)))\<rparr>, d3)))"

datatype rotate_error = PathRequired | PathNotAbsolute | OpenFailed

definition rotate_open ::
  "faults \<Rightarrow> string \<Rightarrow> int \<Rightarrow> int \<Rightarrow> disk \<Rightarrow> (rotate_error + writer) \<times> disk" where
  "rotate_open o1 path max_bytes keep d =
     (if path = [] then (Inl PathRequired, d)
      else if \<not> is_abs path then (Inl PathNotAbsolute, d)
      else
        (case attempt o1 d of
           (False, d1) \<Rightarrow> (Inl OpenFailed, d1)
         | (True, d1) \<Rightarrow>
             (case writer_open o1
                 (\<lparr>wr_path = path, wr_max = (if max_bytes \<le> 0 then default_max_bytes else max_bytes),
                   wr_keep = nat keep, wr_open = False, wr_n = 0\<rparr>, d1) of
                (False, w, d2) \<Rightarrow> (Inl OpenFailed, d2)
              | (True, w, d2) \<Rightarrow> (Inr w, d2))))"

text \<open>
  \<open>gzipFile\<close>: copying, finishing, closing and publishing are calls that may fail, and the
  deferred removal of the partial file is attempted whatever happened.
\<close>

definition partial :: "string \<Rightarrow> string" where
  "partial dst = dst @ ''.partial''"

fun attempts :: "nat \<Rightarrow> faults \<Rightarrow> disk \<Rightarrow> bool \<times> disk" where
  "attempts 0 o1 d = (True, d)"
| "attempts (Suc n) o1 d =
     (case attempt o1 d of
        (False, d1) \<Rightarrow> (False, d1)
      | (True, d1) \<Rightarrow> attempts n o1 d1)"

definition drop_partial :: "faults \<Rightarrow> string \<Rightarrow> bool \<times> disk \<Rightarrow> bool \<times> disk" where
  "drop_partial o1 dst r = (fst r, snd (os_remove o1 (partial dst) (snd r)))"

definition gzip_file :: "faults \<Rightarrow> string \<Rightarrow> string \<Rightarrow> disk \<Rightarrow> bool \<times> disk" where
  "gzip_file o1 src dst d =
     (case attempt o1 d of
        (False, d1) \<Rightarrow> (False, d1)
      | (True, d1) \<Rightarrow>
          if ds_files d1 src = None then (True, d1)
          else
            (case attempt o1 d1 of
               (False, d2) \<Rightarrow> (False, d2)
             | (True, d2) \<Rightarrow>
                 drop_partial o1 dst
                   (case attempts 3 o1 (put_file (partial dst) (Some (Gz [])) d2) of
                      (False, d3) \<Rightarrow> (False, d3)
                    | (True, d3) \<Rightarrow>
                        os_rename o1 (partial dst) dst
                          (put_file (partial dst) (Some (Gz (file_bytes (ds_files d3 src)))) d3))))"

text \<open>The shifting loop, from \<open>i\<close> down to 1.\<close>

fun shift :: "faults \<Rightarrow> string \<Rightarrow> nat \<Rightarrow> disk \<Rightarrow> bool \<times> disk" where
  "shift o1 path 0 d = (True, d)"
| "shift o1 path (Suc i) d =
     (case os_rename o1 (archive path (Suc i)) (archive path (Suc (Suc i))) d of
        (False, d1) \<Rightarrow> (False, d1)
      | (True, d1) \<Rightarrow> shift o1 path i d1)"

definition reopen :: "faults \<Rightarrow> writer \<Rightarrow> disk \<Rightarrow> bool \<times> writer \<times> disk" where
  "reopen o1 w d =
     (case os_remove o1 (wr_path w) d of
        (False, d1) \<Rightarrow> (False, w, d1)
      | (True, d1) \<Rightarrow> writer_open o1 (w\<lparr>wr_n := 0\<rparr>, d1))"

definition rotate :: "faults \<Rightarrow> writer \<times> disk \<Rightarrow> bool \<times> writer \<times> disk" where
  "rotate o1 wd =
     (case attempt o1 (snd wd) of
        (False, d1) \<Rightarrow> (False, fst wd, d1)
      | (True, d1) \<Rightarrow>
          (let w = (fst wd)\<lparr>wr_open := False\<rparr>; path = wr_path w in
           if wr_keep w = 0 then reopen o1 w d1
           else
             (case os_remove o1 (archive path (wr_keep w)) d1 of
                (False, d2) \<Rightarrow> (False, w, d2)
              | (True, d2) \<Rightarrow>
                  (case shift o1 path (wr_keep w - 1) d2 of
                     (False, d3) \<Rightarrow> (False, w, d3)
                   | (True, d3) \<Rightarrow>
                       (case gzip_file o1 path (archive path 1) d3 of
                          (False, d4) \<Rightarrow> (False, w, d4)
                        | (True, d4) \<Rightarrow> reopen o1 w d4)))))"

text \<open>\<open>Write\<close>: the bytes written, and whether there was an error.\<close>

definition append_file :: "faults \<Rightarrow> string \<Rightarrow> writer \<times> disk \<Rightarrow> (nat \<times> bool) \<times> writer \<times> disk" where
  "append_file o1 p wd =
     (case attempt o1 (snd wd) of (fine, d1) \<Rightarrow>
        (let n = (if fine then length p else min (length p) (ft_short o1 (ds_ops (snd wd))));
             path = wr_path (fst wd);
             d2 = put_file path (Some (Plain (file_bytes (ds_files d1 path) @ take n p))) d1
         in ((n, fine), (fst wd)\<lparr>wr_n := wr_n (fst wd) + int n\<rparr>, d2)))"

definition rotate_write :: "faults \<Rightarrow> string \<Rightarrow> writer \<times> disk \<Rightarrow> (nat \<times> bool) \<times> writer \<times> disk" where
  "rotate_write o1 p wd =
     (if \<not> wr_open (fst wd) then ((0, False), wd)
      else if 0 < wr_n (fst wd) \<and> wr_max (fst wd) < wr_n (fst wd) + int (length p)
      then (case rotate o1 wd of
              (False, wd') \<Rightarrow> ((0, False), wd')
            | (True, wd') \<Rightarrow> append_file o1 p wd')
      else append_file o1 p wd)"

definition rotate_close :: "writer \<Rightarrow> writer" where
  "rotate_close w = w\<lparr>wr_open := False\<rparr>"

section \<open>Paths\<close>

lemma nat_digits_inj: "nat_digits m = nat_digits n \<longleftrightarrow> m = n"
  by (metis digits_value_nat_digits of_nat_eq_iff option.inject)

lemma archive_inj [simp]: "archive path i = archive path j \<longleftrightarrow> i = j"
  by (simp add: archive_def nat_digits_inj)

lemma archive_other [simp]: "archive path i \<noteq> path" "path \<noteq> archive path i"
  by (simp_all add: archive_def)

lemma partial_other [simp]:
  "partial (archive path i) \<noteq> path" "path \<noteq> partial (archive path i)"
  "partial (archive path i) \<noteq> archive path j" "archive path j \<noteq> partial (archive path i)"
proof -
  show a: "partial (archive path i) \<noteq> archive path j"
  proof
    assume "partial (archive path i) = archive path j"
    then have "last (partial (archive path i)) = last (archive path j)" by simp
    then show False by (simp add: partial_def archive_def)
  qed
  then show "archive path j \<noteq> partial (archive path i)" by metis
qed (simp_all add: partial_def archive_def)

section \<open>When nothing fails\<close>

definition no_faults :: "faults \<Rightarrow> bool" where
  "no_faults o1 \<longleftrightarrow> (\<forall>k. ft_ok o1 k)"

lemma attempt_ok [simp]: "no_faults o1 \<Longrightarrow> attempt o1 d = (True, d\<lparr>ds_ops := Suc (ds_ops d)\<rparr>)"
  by (simp add: attempt_def no_faults_def)

lemma put_file_files [simp]: "ds_files (put_file p f d) = (ds_files d)(p := f)"
  by (simp add: put_file_def)

lemma attempts_ok: "no_faults o1 \<Longrightarrow> fst (attempts n o1 d) \<and> ds_files (snd (attempts n o1 d)) = ds_files d"
  by (induction n arbitrary: d) auto

lemma os_remove_ok:
  "no_faults o1 \<Longrightarrow> fst (os_remove o1 p d) \<and> ds_files (snd (os_remove o1 p d)) = (ds_files d)(p := None)"
  by (simp add: os_remove_def)

lemma os_rename_ok:
  "no_faults o1 \<Longrightarrow> fst (os_rename o1 a b d)
     \<and> ds_files (snd (os_rename o1 a b d)) =
        (if ds_files d a = None then ds_files d else (ds_files d)(b := ds_files d a, a := None))"
  by (auto simp: os_rename_def split: option.split)

lemma shift_ok:
  assumes "no_faults o1" and "ds_files d (archive path (Suc i)) = None"
  shows "fst (shift o1 path i d)
    \<and> (\<forall>j. ds_files (snd (shift o1 path i d)) (archive path j) =
          (if j = 0 \<or> Suc i < j then ds_files d (archive path j)
           else if j = 1 then None else ds_files d (archive path (j - 1))))
    \<and> (\<forall>p. (\<forall>j. p \<noteq> archive path j) \<longrightarrow> ds_files (snd (shift o1 path i d)) p = ds_files d p)"
  using assms(2)
proof (induction i arbitrary: d)
  case 0
  then show ?case by (auto simp: not_less le_Suc_eq)
next
  case (Suc i)
  let ?a = "archive path (Suc i)" and ?b = "archive path (Suc (Suc i))"
  obtain d1 where r: "os_rename o1 ?a ?b d = (True, d1)"
    using os_rename_ok [OF assms(1), of ?a ?b d] by (metis prod.collapse)
  have f: "ds_files d1 = (ds_files d)(?b := ds_files d ?a, ?a := None)"
    using os_rename_ok [OF assms(1), of ?a ?b d] r Suc.prems by (auto split: if_splits)
  then have "ds_files d1 ?a = None" by simp
  from Suc.IH [OF this] f r show ?case
    by (auto simp: numeral_2_eq_2)
qed

lemma gzip_file_ok:
  assumes "no_faults o1" and "ds_files d path = Some f"
  shows "fst (gzip_file o1 path (archive path 1) d)
    \<and> ds_files (snd (gzip_file o1 path (archive path 1) d)) =
       (ds_files d)(archive path 1 := Some (Gz (file_bytes (Some f))), partial (archive path 1) := None)"
proof -
  let ?t = "partial (archive path 1)"
  let ?d2 = "put_file ?t (Some (Gz [])) (d\<lparr>ds_ops := Suc (Suc (ds_ops d))\<rparr>)"
  obtain d3 where a: "attempts 3 o1 ?d2 = (True, d3)"
    using attempts_ok [OF assms(1), of 3 ?d2] by (metis prod.collapse)
  then have f3: "ds_files d3 = (ds_files d)(?t := Some (Gz []))"
    using attempts_ok [OF assms(1), of 3 ?d2] by simp
  let ?d4 = "put_file ?t (Some (Gz (file_bytes (ds_files d3 path)))) d3"
  obtain d5 where r: "os_rename o1 ?t (archive path 1) ?d4 = (True, d5)"
    using os_rename_ok [OF assms(1), of ?t "archive path 1" ?d4] by (metis prod.collapse)
  then have f5: "ds_files d5 = (ds_files d)(archive path 1 := Some (Gz (file_bytes (Some f))), ?t := None)"
    using os_rename_ok [OF assms(1), of ?t "archive path 1" ?d4] f3 assms(2) by (auto simp: fun_upd_twist)
  show ?thesis
    using assms a r f5 os_remove_ok [OF assms(1), of ?t d5]
    by (simp add: gzip_file_def drop_partial_def)
qed

section \<open>A queue of segments\<close>

text \<open>
  The specification, on records: the live segment's records, and the retired segments from the
  newest on.  A write that would take a live segment past the limit retires it whole.
\<close>

type_synonym segments = "string list \<times> string list list"

definition seg_write :: "int \<Rightarrow> nat \<Rightarrow> string \<Rightarrow> segments \<Rightarrow> segments" where
  "seg_write mx keep p sg =
     (if concat (fst sg) \<noteq> [] \<and> mx < int (length (concat (fst sg))) + int (length p)
      then ([p], take keep (fst sg # snd sg))
      else (fst sg @ [p], snd sg))"

text \<open>The disk holds the segments: the live file, the archives, and none past the last.\<close>

definition holds :: "writer \<Rightarrow> disk \<Rightarrow> segments \<Rightarrow> bool" where
  "holds w d sg \<longleftrightarrow> wr_open w \<and> wr_n w = int (length (concat (fst sg)))
     \<and> ds_files d (wr_path w) = Some (Plain (concat (fst sg)))
     \<and> length (snd sg) \<le> wr_keep w
     \<and> (\<forall>i. 1 \<le> i \<longrightarrow> i \<le> wr_keep w \<longrightarrow> ds_files d (archive (wr_path w) i)
          = (if i \<le> length (snd sg) then Some (Gz (concat (snd sg ! (i - 1)))) else None))"

lemma writer_open_ok:
  assumes "no_faults o1" and "ds_files d (wr_path w) = None"
  shows "\<exists>d'. writer_open o1 (w, d) = (True, w\<lparr>wr_open := True, wr_n := 0\<rparr>, d')
    \<and> ds_files d' = (ds_files d)(wr_path w := Some (Plain []))"
  using assms by (simp add: writer_open_def Let_def file_bytes_def)

lemma reopen_ok:
  assumes "no_faults o1"
  shows "\<exists>d'. reopen o1 w d = (True, w\<lparr>wr_open := True, wr_n := 0\<rparr>, d')
    \<and> ds_files d' = (ds_files d)(wr_path w := Some (Plain []))"
proof -
  obtain d1 where r: "os_remove o1 (wr_path w) d = (True, d1)" "ds_files d1 = (ds_files d)(wr_path w := None)"
    using os_remove_ok [OF assms, of "wr_path w" d] by (metis prod.collapse)
  then show ?thesis
    using writer_open_ok [OF assms, of d1 "w\<lparr>wr_n := 0\<rparr>"] by (auto simp: reopen_def)
qed

lemma rotate_holds:
  assumes nf: "no_faults o1" and h: "holds w d sg"
  shows "\<exists>w' d'. rotate o1 (w, d) = (True, w', d') \<and> wr_path w' = wr_path w \<and> wr_max w' = wr_max w
    \<and> wr_keep w' = wr_keep w \<and> holds w' d' ([], take (wr_keep w) (fst sg # snd sg))"
proof -
  let ?w = "w\<lparr>wr_open := False\<rparr>" and ?p = "wr_path w" and ?k = "wr_keep w"
  let ?d1 = "d\<lparr>ds_ops := Suc (ds_ops d)\<rparr>"
  let ?w' = "w\<lparr>wr_open := True, wr_n := 0\<rparr>"
  show ?thesis
  proof (cases "?k = 0")
    case True
    obtain d' where "reopen o1 ?w ?d1 = (True, ?w', d')" "ds_files d' = (ds_files d)(?p := Some (Plain []))"
      using reopen_ok [OF nf, of ?w ?d1] by auto
    then show ?thesis using nf True by (auto simp: rotate_def holds_def)
  next
    case False
    then obtain m where m: "?k = Suc m" by (cases ?k) auto
    obtain d2 where d2: "os_remove o1 (archive ?p ?k) ?d1 = (True, d2)"
        "ds_files d2 = (ds_files d)(archive ?p ?k := None)"
      using os_remove_ok [OF nf, of "archive ?p ?k" ?d1]
      by (cases "os_remove o1 (archive ?p ?k) ?d1") simp
    have gone: "ds_files d2 (archive ?p (Suc m)) = None" using d2(2) m by simp
    obtain b d3 where s3: "shift o1 ?p m d2 = (b, d3)" by fastforce
    have d3: "b" "\<And>j. ds_files d3 (archive ?p j) = (if j = 0 \<or> Suc m < j then ds_files d2 (archive ?p j)
           else if j = 1 then None else ds_files d2 (archive ?p (j - 1)))"
        "ds_files d3 ?p = ds_files d2 ?p"
      using shift_ok [OF nf gone] s3 by simp_all
    have live: "ds_files d3 ?p = Some (Plain (concat (fst sg)))"
      using d3(3) d2(2) h by (simp add: holds_def)
    obtain d4 where d4: "gzip_file o1 ?p (archive ?p 1) d3 = (True, d4)"
        "ds_files d4 = (ds_files d3)(archive ?p 1 := Some (Gz (concat (fst sg))), partial (archive ?p 1) := None)"
      using gzip_file_ok [OF nf live] by (cases "gzip_file o1 ?p (archive ?p 1) d3") (simp add: file_bytes_def)
    obtain d5 where d5: "reopen o1 ?w d4 = (True, ?w', d5)" "ds_files d5 = (ds_files d4)(?p := Some (Plain []))"
      using reopen_ok [OF nf, of ?w d4] by auto
    have run: "rotate o1 (w, d) = (True, ?w', d5)"
      using nf m d2(1) s3 d3(1) d4(1) d5(1) by (simp add: rotate_def)
    have arch: "ds_files d5 (archive ?p i) = (if i \<le> length (take ?k (fst sg # snd sg))
        then Some (Gz (concat (take ?k (fst sg # snd sg) ! (i - 1)))) else None)"
      if i: "1 \<le> i" "i \<le> ?k" for i
    proof (cases "i = 1")
      case True
      then show ?thesis using d5(2) d4(2) m by simp
    next
      case False
      then obtain n where n: "i = Suc (Suc n)" using i by (metis One_nat_def Suc_le_D le_SucE le_zero_eq not_less_eq_eq)
      have "ds_files d5 (archive ?p i) = ds_files d2 (archive ?p (Suc n))"
        using d5(2) d4(2) d3(2) n i m by simp
      also have "\<dots> = ds_files d (archive ?p (Suc n))" using d2(2) n i by simp
      also have "\<dots> = (if Suc n \<le> length (snd sg) then Some (Gz (concat (snd sg ! n))) else None)"
        using h n i by (simp add: holds_def)
      finally show ?thesis using n i by (auto simp: min_def)
    qed
    have "holds ?w' d5 ([], take ?k (fst sg # snd sg))"
      using arch d5(2) m by (auto simp: holds_def min_def)
    with run show ?thesis by (intro exI [of _ ?w'] exI [of _ d5]) simp
  qed
qed

lemma append_holds:
  assumes "no_faults o1" and "holds w d sg"
  shows "\<exists>w' d'. append_file o1 p (w, d) = ((length p, True), w', d') \<and> wr_path w' = wr_path w
    \<and> wr_max w' = wr_max w \<and> wr_keep w' = wr_keep w \<and> holds w' d' (fst sg @ [p], snd sg)"
  using assms by (auto simp: append_file_def Let_def holds_def file_bytes_def)

text \<open>Writing refines the queue.\<close>

lemma write_holds:
  assumes nf: "no_faults o1" and h: "holds w d sg"
  shows "\<exists>w' d'. rotate_write o1 p (w, d) = ((length p, True), w', d') \<and> wr_path w' = wr_path w
    \<and> wr_max w' = wr_max w \<and> wr_keep w' = wr_keep w
    \<and> holds w' d' (seg_write (wr_max w) (wr_keep w) p sg)"
proof (cases "concat (fst sg) \<noteq> [] \<and> wr_max w < int (length (concat (fst sg))) + int (length p)")
  case True
  obtain w1 d1 where r: "rotate o1 (w, d) = (True, w1, d1)" "wr_path w1 = wr_path w" "wr_max w1 = wr_max w"
      "wr_keep w1 = wr_keep w" "holds w1 d1 ([], take (wr_keep w) (fst sg # snd sg))"
    using rotate_holds [OF nf h] by blast
  have "rotate_write o1 p (w, d) = append_file o1 p (w1, d1)"
    using True h r(1) by (simp add: rotate_write_def holds_def del: concat_eq_Nil_conv)
  with append_holds [OF nf r(5), of p] r True show ?thesis by (simp add: seg_write_def)
next
  case False
  then have "rotate_write o1 p (w, d) = append_file o1 p (w, d)"
    using h by (auto simp: rotate_write_def holds_def simp del: concat_eq_Nil_conv)
  moreover have "seg_write (wr_max w) (wr_keep w) p sg = (fst sg @ [p], snd sg)"
    using False by (auto simp: seg_write_def simp del: concat_eq_Nil_conv)
  ultimately show ?thesis using append_holds [OF nf h, of p] by simp
qed

fun write_all :: "faults \<Rightarrow> string list \<Rightarrow> writer \<times> disk \<Rightarrow> writer \<times> disk" where
  "write_all o1 [] wd = wd"
| "write_all o1 (p # ps) wd = write_all o1 ps (snd (rotate_write o1 p wd))"

lemma write_all_holds:
  assumes "no_faults o1" and "holds w d sg"
  shows "\<exists>w' d'. write_all o1 ps (w, d) = (w', d') \<and> wr_path w' = wr_path w
    \<and> wr_max w' = wr_max w \<and> wr_keep w' = wr_keep w
    \<and> holds w' d' (fold (seg_write (wr_max w) (wr_keep w)) ps sg)"
  using assms(2)
proof (induction ps arbitrary: w d sg)
  case (Cons p ps)
  obtain w1 d1 where 1: "rotate_write o1 p (w, d) = ((length p, True), w1, d1)" "wr_path w1 = wr_path w"
      "wr_max w1 = wr_max w" "wr_keep w1 = wr_keep w" "holds w1 d1 (seg_write (wr_max w) (wr_keep w) p sg)"
    using write_holds [OF assms(1) Cons.prems] by blast
  from Cons.IH [OF 1(5)] 1 show ?case by simp
qed auto

text \<open>The records of all segments in the order they were written.\<close>

definition retained :: "segments \<Rightarrow> string list" where
  "retained sg = concat (rev (snd sg)) @ fst sg"

lemma seg_write_retained:
  "suffix (retained (seg_write mx keep p sg)) (retained sg @ [p])"
proof (cases "seg_write mx keep p sg = ([p], take keep (fst sg # snd sg))")
  case True
  obtain gone where "fst sg # snd sg = take keep (fst sg # snd sg) @ gone"
    by (metis append_take_drop_id)
  then have "retained sg = concat (rev gone) @ concat (rev (take keep (fst sg # snd sg)))"
    unfolding retained_def by (metis concat_append concat.simps rev.simps(2) rev_append append_Nil2)
  then show ?thesis using True by (simp add: retained_def suffix_def)
next
  case False
  then show ?thesis by (auto simp: seg_write_def retained_def split: if_splits)
qed

lemma segs_retained: "suffix (retained (fold (seg_write mx keep) ps sg)) (retained sg @ ps)"
proof (induction ps arbitrary: sg)
  case (Cons p ps)
  obtain xs where "retained sg @ [p] = xs @ retained (seg_write mx keep p sg)"
    using seg_write_retained unfolding suffix_def by blast
  then have "suffix (retained (seg_write mx keep p sg) @ ps) (retained sg @ p # ps)"
    unfolding suffix_def by (metis append.assoc append_Cons append_Nil)
  with Cons.IH [of "seg_write mx keep p sg"] show ?case
    by (auto intro: suffix_order.trans)
qed simp

text \<open>A live segment past the limit is one record that is longer than the limit.\<close>

lemma seg_write_live:
  assumes "int (length (concat (fst sg))) \<le> mx \<or> (\<exists>r. concat (fst sg) = r \<and> r \<in> set (fst sg))"
  shows "int (length (concat (fst (seg_write mx keep p sg)))) \<le> mx
    \<or> (\<exists>r. concat (fst (seg_write mx keep p sg)) = r \<and> r \<in> set (fst (seg_write mx keep p sg)))"
  using assms by (auto simp: seg_write_def simp del: concat_eq_Nil_conv)

section \<open>Frame\<close>

text \<open>Whatever fails, a writer touches only its own files.\<close>

definition own_file :: "string \<Rightarrow> nat \<Rightarrow> string \<Rightarrow> bool" where
  "own_file path keep f \<longleftrightarrow> f = path \<or> f = partial (archive path 1)
     \<or> (\<exists>i. 1 \<le> i \<and> i \<le> keep \<and> f = archive path i)"

lemma attempt_files [simp]: "ds_files (snd (attempt o1 d)) = ds_files d"
  by (simp add: attempt_def)

lemma attempt_filesD: "attempt o1 d = (b, d') \<Longrightarrow> ds_files d' = ds_files d"
  by (auto simp: attempt_def)

lemma attempts_filesD: "attempts n o1 d = (b, d') \<Longrightarrow> ds_files d' = ds_files d"
  by (induction n arbitrary: d) (auto dest: attempt_filesD split: prod.splits bool.splits)

lemma os_remove_frame: "os_remove o1 p d = (b, d') \<Longrightarrow> f \<noteq> p \<Longrightarrow> ds_files d' f = ds_files d f"
  by (auto simp: os_remove_def dest!: attempt_filesD split: prod.splits bool.splits)

lemma os_rename_frame:
  "os_rename o1 p q d = (b, d') \<Longrightarrow> f \<noteq> p \<Longrightarrow> f \<noteq> q \<Longrightarrow> ds_files d' f = ds_files d f"
  by (auto simp: os_rename_def dest!: attempt_filesD split: prod.splits bool.splits option.splits)

lemma os_rename_other: "f \<noteq> p \<Longrightarrow> f \<noteq> q \<Longrightarrow> ds_files (snd (os_rename o1 p q d)) f = ds_files d f"
  by (metis os_rename_frame prod.collapse)

lemma shift_frame:
  "shift o1 path i d = (b, d') \<Longrightarrow> i < keep \<Longrightarrow> \<not> own_file path keep f \<Longrightarrow> ds_files d' f = ds_files d f"
proof (induction i arbitrary: d)
  case (Suc i)
  have "f \<noteq> archive path (Suc i)" "f \<noteq> archive path (Suc (Suc i))"
    using Suc.prems(2,3) by (auto simp: own_file_def)
  then show ?case
    using Suc by (auto split: prod.splits bool.splits dest!: os_rename_frame [where f = f])
qed simp

lemma drop_partial_frame:
  "drop_partial o1 dst r = (b, d') \<Longrightarrow> f \<noteq> partial dst \<Longrightarrow> ds_files d' f = ds_files (snd r) f"
  by (cases "os_remove o1 (partial dst) (snd r)") (auto simp: drop_partial_def dest: os_remove_frame)

lemma gzip_file_frame:
  assumes "gzip_file o1 src dst d = (b, d')" and "f \<noteq> dst" and "f \<noteq> partial dst"
  shows "ds_files d' f = ds_files d f"
  using assms
  by (auto simp: gzip_file_def os_rename_other dest!: attempt_filesD attempts_filesD drop_partial_frame [where f = f]
      os_rename_frame [where f = f] split: prod.splits bool.splits if_splits)

lemma writer_open_frame:
  "writer_open o1 (w, d) = (b, w', d') \<Longrightarrow> f \<noteq> wr_path w \<Longrightarrow>
   ds_files d' f = ds_files d f \<and> wr_path w' = wr_path w \<and> wr_keep w' = wr_keep w"
  by (auto simp: writer_open_def Let_def dest!: attempt_filesD split: prod.splits bool.splits if_splits)

lemma reopen_frame:
  "reopen o1 w d = (b, w', d') \<Longrightarrow> f \<noteq> wr_path w \<Longrightarrow>
   ds_files d' f = ds_files d f \<and> wr_path w' = wr_path w \<and> wr_keep w' = wr_keep w"
  by (auto simp: reopen_def dest!: os_remove_frame [where f = f] writer_open_frame [where f = f]
      split: prod.splits bool.splits)

lemma rotate_frame:
  assumes "rotate o1 (w, d) = (b, w', d')" and "\<not> own_file (wr_path w) (wr_keep w) f"
  shows "ds_files d' f = ds_files d f \<and> wr_path w' = wr_path w \<and> wr_keep w' = wr_keep w"
proof -
  let ?p = "wr_path w" and ?k = "wr_keep w"
  have n: "f \<noteq> ?p" "f \<noteq> partial (archive ?p 1)" "0 < ?k \<Longrightarrow> f \<noteq> archive ?p ?k" "0 < ?k \<Longrightarrow> f \<noteq> archive ?p 1"
    using assms(2) by (auto simp: own_file_def)
  show ?thesis
    using assms n
    by (auto simp: rotate_def Let_def dest!: attempt_filesD reopen_frame [where f = f]
        os_remove_frame [where f = f] gzip_file_frame [where f = f] shift_frame [where f = f and keep = ?k]
        split: prod.splits bool.splits if_splits)
qed

lemma write_frame:
  assumes "rotate_write o1 p (w, d) = (r, w', d')" and "\<not> own_file (wr_path w) (wr_keep w) f"
  shows "ds_files d' f = ds_files d f \<and> wr_path w' = wr_path w \<and> wr_keep w' = wr_keep w"
proof -
  have n: "f \<noteq> wr_path w" using assms(2) by (simp add: own_file_def)
  show ?thesis
    using assms n
    by (auto simp: rotate_write_def append_file_def Let_def dest!: attempt_filesD rotate_frame [where f = f]
        split: prod.splits bool.splits if_splits)
qed

lemma write_all_frame:
  "write_all o1 ps (w, d) = (w', d') \<Longrightarrow> \<not> own_file (wr_path w) (wr_keep w) f \<Longrightarrow> ds_files d' f = ds_files d f"
proof (induction ps arbitrary: w d)
  case (Cons p ps)
  obtain r w1 d1 where s: "rotate_write o1 p (w, d) = (r, w1, d1)" by (metis surj_pair)
  from write_frame [OF this Cons.prems(2)] Cons.IH [of w1 d1] Cons.prems s show ?case by simp
qed simp

text \<open>Opening a path with no files of its own starts an empty queue.\<close>

lemma rotate_open_holds:
  assumes "no_faults o1" and "is_abs path" and "\<And>f. own_file path (nat keep) f \<Longrightarrow> ds_files d f = None"
  shows "\<exists>w d'. rotate_open o1 path mx keep d = (Inr w, d') \<and> wr_path w = path \<and> wr_keep w = nat keep
    \<and> wr_max w = (if mx \<le> 0 then default_max_bytes else mx) \<and> holds w d' ([], [])
    \<and> ds_files d' = (ds_files d)(path := Some (Plain []))"
proof -
  have "ds_files d path = None" using assms(3) by (simp add: own_file_def)
  moreover have "ds_files d (archive path i) = None" if "1 \<le> i" "i \<le> nat keep" for i
    using assms(3) that by (auto simp: own_file_def)
  moreover have "path \<noteq> []" using assms(2) by (auto simp: is_abs_def)
  ultimately show ?thesis
    using assms(1,2) by (simp add: rotate_open_def writer_open_def Let_def holds_def file_bytes_def)
qed

section \<open>When something fails\<close>

text \<open>A rotation that fails leaves the writer closed unless closing the old file failed.\<close>

lemma writer_open_fails: "writer_open o1 (w, d) = (False, w', d') \<Longrightarrow> w' = w"
  by (auto simp: writer_open_def Let_def split: prod.splits bool.splits)

lemma rotate_fails:
  "rotate o1 (w, d) = (False, w', d') \<Longrightarrow> ft_ok o1 (ds_ops d) \<Longrightarrow> \<not> wr_open w'"
  by (auto simp: rotate_def reopen_def attempt_def Let_def dest!: writer_open_fails
      split: prod.splits bool.splits if_splits)

text \<open>A closed writer stays closed and writes nothing.\<close>

lemma closed_writer: "\<not> wr_open w \<Longrightarrow> rotate_write o1 p (w, d) = ((0, False), w, d)"
  by (simp add: rotate_write_def)

lemma closed_forever: "\<not> wr_open w \<Longrightarrow> write_all o1 ps (w, d) = (w, d)"
  by (induction ps) (auto simp: closed_writer)

end
