(* ===== verification/History.thy ===== *)
theory History
  imports Rotate Job "HOL-Library.Multiset"
begin

text \<open>
  \<open>internal/history\<close>: finished jobs, one JSON line each, in a rotating file, and reading them
  back newest first.  The JSON codec is an argument; \<open>codec_ok\<close> is what reading back needs of
  it.  \<open>fetch\<close> opens a file: a file system error, or the text in it, \<open>None\<close> being an archive that
  gzip does not accept.
\<close>

section \<open>Writing\<close>

definition history_path :: string where "history_path = ''/var/lib/dup/history.jsonl''"
definition history_max_bytes :: int where "history_max_bytes = 8 * 1024 * 1024"
definition history_keep :: int where "history_keep = 4"

definition history_open ::
  "faults \<Rightarrow> string \<Rightarrow> int \<Rightarrow> int \<Rightarrow> disk \<Rightarrow> (rotate_error + writer) \<times> disk" where
  "history_open o1 path max_bytes keep d =
     rotate_open o1 (if path = [] then history_path else path)
       (if max_bytes \<le> 0 then history_max_bytes else max_bytes)
       (if keep \<le> 0 then history_keep else keep) d"

definition newline_char :: char where "newline_char = chr 10"

definition line_of :: "(snapshot \<Rightarrow> string) \<Rightarrow> snapshot \<Rightarrow> string" where
  "line_of enc s = enc s @ [newline_char]"

lemma line_of_nonempty [simp]: "line_of enc s \<noteq> []"
  by (simp add: line_of_def)

text \<open>\<open>Append\<close>; the result is whether there was no error.\<close>

definition history_append ::
  "faults \<Rightarrow> (snapshot \<Rightarrow> string) \<Rightarrow> snapshot \<Rightarrow> writer \<times> disk \<Rightarrow> bool \<times> writer \<times> disk" where
  "history_append o1 enc snap wd =
     (if \<not> terminal (sn_state snap) then (True, wd)
      else (case rotate_write o1 (line_of enc snap) wd of ((n, fine), wd') \<Rightarrow> (fine, wd')))"

fun append_all ::
  "faults \<Rightarrow> (snapshot \<Rightarrow> string) \<Rightarrow> snapshot list \<Rightarrow> writer \<times> disk \<Rightarrow> writer \<times> disk" where
  "append_all o1 enc [] wd = wd"
| "append_all o1 enc (s # ss) wd = append_all o1 enc ss (snd (history_append o1 enc s wd))"

section \<open>Reading\<close>

record history_query =
  qy_target :: string
  qy_job :: string
  qy_limit :: int

definition archive_index :: "string \<Rightarrow> string \<Rightarrow> int" where
  "archive_index name path =
     (case digits_value 0 (trim_suffix (trim_prefix name (path @ ''.'')) ''.gz'') of
        None \<Rightarrow> 2 ^ 30
      | Some n \<Rightarrow> n)"

text \<open>\<open>matches\<close> is what \<open>filepath.Glob\<close> found.\<close>

definition history_files :: "string \<Rightarrow> string list \<Rightarrow> string list" where
  "history_files path matches = path # sort_key (\<lambda>n. archive_index n path) matches"

definition max_line :: nat where "max_line = 4 * 1024 * 1024"

text \<open>\<open>bufio.ScanLines\<close>.\<close>

definition drop_cr :: "string \<Rightarrow> string" where
  "drop_cr l = (if l \<noteq> [] \<and> last l = chr 13 then butlast l else l)"

definition raw_lines :: "string \<Rightarrow> string list" where
  "raw_lines s =
     (let parts = split_on newline_char s in if last parts = [] then butlast parts else parts)"

definition wanted_snapshot :: "history_query \<Rightarrow> snapshot \<Rightarrow> bool" where
  "wanted_snapshot q s \<longleftrightarrow>
     (qy_target q = [] \<or> sn_target s = qy_target q) \<and> (qy_job q = [] \<or> has_prefix (sn_id s) (qy_job q))"

text \<open>The matching jobs of a file, and whether the scanner gave up on a line.\<close>

fun read_lines ::
  "(string \<Rightarrow> snapshot option) \<Rightarrow> history_query \<Rightarrow> string list \<Rightarrow> snapshot list \<times> bool" where
  "read_lines dec q [] = ([], False)"
| "read_lines dec q (l0 # ls) =
     (if max_line \<le> length l0 then ([], True)
      else
        (let l = drop_cr l0; rest = read_lines dec q ls in
         if l = [] \<or> hd l \<noteq> CHR ''{'' then rest
         else (case dec l of
                 None \<Rightarrow> rest
               | Some s \<Rightarrow> if wanted_snapshot q s then (s # fst rest, snd rest) else rest)))"

definition read_file ::
  "(string \<Rightarrow> fs_error + string option) \<Rightarrow> (string \<Rightarrow> snapshot option) \<Rightarrow> history_query \<Rightarrow> string
   \<Rightarrow> snapshot list \<times> bool" where
  "read_file fetch dec q path =
     (case fetch path of
        Inl e \<Rightarrow> ([], e \<noteq> NotExist)
      | Inr None \<Rightarrow> ([], False)
      | Inr (Some text) \<Rightarrow> read_lines dec q (raw_lines text))"

text \<open>The loop over the files; the second component is whether there was an error.\<close>

fun read_files ::
  "(string \<Rightarrow> fs_error + string option) \<Rightarrow> (string \<Rightarrow> snapshot option) \<Rightarrow> history_query \<Rightarrow> nat
   \<Rightarrow> snapshot list \<Rightarrow> string list \<Rightarrow> snapshot list \<times> bool" where
  "read_files fetch dec q limit out [] = (out, False)"
| "read_files fetch dec q limit out (f # fs) =
     (case read_file fetch dec q f of
        (found, True) \<Rightarrow> (out, True)
      | (found, False) \<Rightarrow>
          (let out' = out @ rev found in
           if found \<noteq> [] \<and> limit \<le> length out' then (take limit out', False)
           else read_files fetch dec q limit out' fs))"

definition history_read ::
  "(string \<Rightarrow> string list) \<Rightarrow> (string \<Rightarrow> fs_error + string option) \<Rightarrow> (string \<Rightarrow> snapshot option)
   \<Rightarrow> string \<Rightarrow> history_query \<Rightarrow> snapshot list \<times> bool" where
  "history_read glob fetch dec path0 q =
     (let path = (if path0 = [] then history_path else path0);
          limit = (if qy_limit q \<le> 0 then 20 else nat (qy_limit q))
      in read_files fetch dec q limit [] (history_files path (glob path)))"

section \<open>Reading back what was written\<close>

text \<open>What a disk answers.\<close>

definition disk_fetch :: "disk \<Rightarrow> string \<Rightarrow> fs_error + string option" where
  "disk_fetch d p = (case ds_files d p of None \<Rightarrow> Inl NotExist | Some f \<Rightarrow> Inr (Some (file_bytes (Some f))))"

definition line_ok :: "(snapshot \<Rightarrow> string) \<Rightarrow> (string \<Rightarrow> snapshot option) \<Rightarrow> snapshot \<Rightarrow> bool" where
  "line_ok enc dec s \<longleftrightarrow> dec (enc s) = Some s \<and> newline_char \<notin> set (enc s) \<and> length (enc s) < max_line
     \<and> enc s \<noteq> [] \<and> hd (enc s) = CHR ''{'' \<and> last (enc s) \<noteq> chr 13"

lemma raw_lines_of:
  "list_all (line_ok enc dec) ss \<Longrightarrow> raw_lines (concat (map (line_of enc) ss)) = map enc ss"
proof -
  assume a: "list_all (line_ok enc dec) ss"
  have "split_on newline_char (concat (map (line_of enc) ss)) = map enc ss @ [[]]"
    using a by (induction ss) (simp_all add: line_of_def line_ok_def)
  then show ?thesis by (simp add: raw_lines_def)
qed

lemma read_lines_of:
  "list_all (line_ok enc dec) ss \<Longrightarrow> read_lines dec q (map enc ss) = (filter (wanted_snapshot q) ss, False)"
  by (induction ss) (auto simp: line_ok_def drop_cr_def)

lemma archive_index_archive: "archive_index (archive path i) path = int i"
proof -
  have "trim_prefix (archive path i) (path @ ''.'') = nat_digits i @ ''.gz''"
    using trim_prefix_append [of "path @ ''.''" "nat_digits i @ ''.gz''"] by (simp add: archive_def)
  moreover have "trim_suffix (nat_digits i @ ''.gz'') ''.gz'' = nat_digits i"
    by (auto simp: trim_suffix_def has_suffix_iff)
  ultimately show ?thesis by (simp add: archive_index_def digits_value_nat_digits)
qed

lemma sorted_archives:
  assumes "set matches = archive path ` {1..n}" and "distinct matches"
  shows "sort_key (\<lambda>m. archive_index m path) matches = map (archive path) [1..<Suc n]"
proof -
  let ?k = "\<lambda>m. archive_index m path"
  let ?xs = "map (archive path) [1..<Suc n]"
  have k: "map ?k ?xs = map int [1..<Suc n]" by (simp add: archive_index_archive comp_def)
  have "sorted (map ?k ?xs)" unfolding k by (auto simp: sorted_map intro: sorted_wrt_mono_rel [OF _ sorted_upt] simp del: upt_Suc)
  moreover have "inj_on ?k (set ?xs)"
    by (auto simp: inj_on_def archive_index_archive)
  moreover have "mset matches = mset ?xs"
    using assms by (intro iffD1 [OF set_eq_iff_mset_eq_distinct])
      (auto simp: distinct_map inj_on_def atLeastLessThanSuc_atLeastAtMost simp del: upt_Suc)
  ultimately show ?thesis
    by (metis properties_for_sort_key sort_key_inj_key_eq mset_eq_setD)
qed

text \<open>The segments, newest first, as they are read.\<close>

lemma read_files_segments:
  assumes "list_all (\<lambda>f. read_file fetch dec q (fst f) = (filter (wanted_snapshot q) (snd f), False)) fs"
    and "length out < limit"
  shows "read_files fetch dec q limit out (map fst fs) =
    (take limit (out @ concat (map (\<lambda>f. rev (filter (wanted_snapshot q) (snd f))) fs)), False)"
  using assms
proof (induction fs arbitrary: out)
  case (Cons f fs)
  let ?found = "filter (wanted_snapshot q) (snd f)"
  show ?case
  proof (cases "length (out @ rev ?found) < limit")
    case True
    with Cons show ?thesis by simp
  next
    case False
    then have "?found \<noteq> []" using Cons.prems(2) by (cases "?found = []") auto
    with False Cons.prems show ?thesis by simp
  qed
qed simp

lemma rev_concat_rev: "concat (map rev xss) = rev (concat (rev xss))"
  by (induction xss) auto

lemma filter_concat_map: "concat (map (filter P) xss) = filter P (concat xss)"
  by (induction xss) auto

text \<open>The snapshots behind the segments of a disk.\<close>

definition snaps_hold ::
  "(snapshot \<Rightarrow> string) \<Rightarrow> writer \<Rightarrow> disk \<Rightarrow> snapshot list \<times> snapshot list list \<Rightarrow> bool" where
  "snaps_hold enc w d ss \<longleftrightarrow>
     holds w d (map (line_of enc) (fst ss), map (map (line_of enc)) (snd ss))"

definition snap_write ::
  "(snapshot \<Rightarrow> string) \<Rightarrow> int \<Rightarrow> nat \<Rightarrow> snapshot \<Rightarrow> snapshot list \<times> snapshot list list
   \<Rightarrow> snapshot list \<times> snapshot list list" where
  "snap_write enc mx keep s ss =
     (if fst ss \<noteq> [] \<and> mx < int (length (concat (map (line_of enc) (fst ss)))) + int (length (line_of enc s))
      then ([s], take keep (fst ss # snd ss))
      else (fst ss @ [s], snd ss))"

lemma snap_write_seg:
  "seg_write mx keep (line_of enc s) (map (line_of enc) (fst ss), map (map (line_of enc)) (snd ss))
   = (map (line_of enc) (fst (snap_write enc mx keep s ss)),
      map (map (line_of enc)) (snd (snap_write enc mx keep s ss)))"
proof -
  have [simp]: "take keep (map f x # map (map f) y) = map (map f) (take keep (x # y))"
    for f :: "snapshot \<Rightarrow> string" and x y
    by (cases keep) (simp_all add: take_map)
  show ?thesis
    by (auto simp: seg_write_def snap_write_def simp del: length_concat)
qed

definition kept_snaps :: "snapshot list \<times> snapshot list list \<Rightarrow> snapshot list" where
  "kept_snaps ss = concat (rev (snd ss)) @ fst ss"

lemma snap_write_kept: "suffix (kept_snaps (snap_write enc mx keep s ss)) (kept_snaps ss @ [s])"
proof (cases "snap_write enc mx keep s ss = ([s], take keep (fst ss # snd ss))")
  case True
  obtain gone where "fst ss # snd ss = take keep (fst ss # snd ss) @ gone"
    by (metis append_take_drop_id)
  then have "kept_snaps ss = concat (rev gone) @ concat (rev (take keep (fst ss # snd ss)))"
    unfolding kept_snaps_def by (metis concat_append concat.simps rev.simps(2) rev_append append_Nil2)
  then show ?thesis using True by (simp add: kept_snaps_def suffix_def)
qed (auto simp: snap_write_def kept_snaps_def split: if_splits)

lemma append_holds_snaps:
  assumes "no_faults o1" and "snaps_hold enc w d ss" and "terminal (sn_state s)"
  shows "\<exists>w' d'. history_append o1 enc s (w, d) = (True, w', d') \<and> wr_path w' = wr_path w
    \<and> wr_max w' = wr_max w \<and> wr_keep w' = wr_keep w
    \<and> snaps_hold enc w' d' (snap_write enc (wr_max w) (wr_keep w) s ss)"
  using write_holds [OF assms(1) assms(2)[unfolded snaps_hold_def], of "line_of enc s"] assms(3)
  by (auto simp: history_append_def snaps_hold_def snap_write_seg simp del: length_concat concat_eq_Nil_conv)

lemma append_all_holds:
  assumes "no_faults o1" and "snaps_hold enc w d ss"
  shows "\<exists>w' d' ss'. append_all o1 enc xs (w, d) = (w', d') \<and> wr_path w' = wr_path w
    \<and> snaps_hold enc w' d' ss'
    \<and> suffix (kept_snaps ss') (kept_snaps ss @ filter (\<lambda>s. terminal (sn_state s)) xs)"
  using assms(2)
proof (induction xs arbitrary: w d ss)
  case (Cons s xs)
  show ?case
  proof (cases "terminal (sn_state s)")
    case True
    obtain w1 d1 where 1: "history_append o1 enc s (w, d) = (True, w1, d1)" "wr_path w1 = wr_path w"
        "snaps_hold enc w1 d1 (snap_write enc (wr_max w) (wr_keep w) s ss)"
      using append_holds_snaps [OF assms(1) Cons.prems True] by blast
    obtain w' d' ss' where 2: "append_all o1 enc xs (w1, d1) = (w', d')" "wr_path w' = wr_path w1"
        "snaps_hold enc w' d' ss'"
        "suffix (kept_snaps ss') (kept_snaps (snap_write enc (wr_max w) (wr_keep w) s ss)
           @ filter (\<lambda>s. terminal (sn_state s)) xs)"
      using Cons.IH [OF 1(3)] by blast
    have "suffix (kept_snaps (snap_write enc (wr_max w) (wr_keep w) s ss) @ filter (\<lambda>s. terminal (sn_state s)) xs)
        (kept_snaps ss @ filter (\<lambda>s. terminal (sn_state s)) (s # xs))"
      using snap_write_kept [of enc "wr_max w" "wr_keep w" s ss] True
      unfolding suffix_def by (auto simp flip: append_assoc)
    from 1(1) 2(1) have "append_all o1 enc (s # xs) (w, d) = (w', d')" by simp
    moreover have "suffix (kept_snaps ss') (kept_snaps ss @ filter (\<lambda>s. terminal (sn_state s)) (s # xs))"
      by (rule suffix_order.trans [OF 2(4)]) fact
    ultimately show ?thesis using 1(2) 2(2,3) by metis
  next
    case False
    with Cons.IH [OF Cons.prems] show ?thesis by (simp add: history_append_def)
  qed
qed auto

text \<open>Reading a disk that holds snapshots gives the newest of them that match.\<close>

lemma read_holds:
  assumes "snaps_hold enc w d ss" and "list_all (line_ok enc dec) (kept_snaps ss)"
    and "wr_path w \<noteq> []" and "distinct (glob (wr_path w))"
    and "set (glob (wr_path w)) = archive (wr_path w) ` {1..length (snd ss)}"
  shows "history_read glob (disk_fetch d) dec (wr_path w) q =
    (take (if qy_limit q \<le> 0 then 20 else nat (qy_limit q))
       (filter (wanted_snapshot q) (rev (kept_snaps ss))), False)"
proof -
  let ?p = "wr_path w" and ?lim = "if qy_limit q \<le> 0 then 20 else nat (qy_limit q)"
  define fs where "fs = (?p, fst ss) # zip (map (archive ?p) [1..<Suc (length (snd ss))]) (snd ss)"
  have files: "history_files ?p (glob ?p) = map fst fs"
    using sorted_archives [OF assms(5,4)] by (simp add: history_files_def fs_def del: upt_Suc)
  have one: "read_file (disk_fetch d) dec q f = (filter (wanted_snapshot q) xs, False)"
    if "file_bytes (ds_files d f) = concat (map (line_of enc) xs)" "ds_files d f \<noteq> None"
      "list_all (line_ok enc dec) xs" for f xs
    using that raw_lines_of [OF that(3)] read_lines_of [OF that(3)]
    by (auto simp: read_file_def disk_fetch_def)
  have h: "ds_files d ?p = Some (Plain (concat (map (line_of enc) (fst ss))))"
    "\<And>i. 1 \<le> i \<Longrightarrow> i \<le> length (snd ss) \<Longrightarrow>
       ds_files d (archive ?p i) = Some (Gz (concat (map (line_of enc) (snd ss ! (i - 1)))))"
    using assms(1) by (auto simp: snaps_hold_def holds_def)
  have ok: "list_all (line_ok enc dec) (fst ss)" "\<And>xs. xs \<in> set (snd ss) \<Longrightarrow> list_all (line_ok enc dec) xs"
    using assms(2) by (auto simp: kept_snaps_def list_all_iff)
  have "read_file (disk_fetch d) dec q (fst f) = (filter (wanted_snapshot q) (snd f), False)"
    if f: "f \<in> set fs" for f
  proof (cases "f = (?p, fst ss)")
    case True
    then show ?thesis using one [of ?p "fst ss"] h(1) ok(1) by (simp add: file_bytes_def)
  next
    case False
    with f obtain n where n: "n < length (snd ss)" "f = (archive ?p (Suc n), snd ss ! n)"
      by (auto simp: fs_def set_zip simp del: upt_Suc)
    then show ?thesis
      using one [of "archive ?p (Suc n)" "snd ss ! n"] h(2) [of "Suc n"] ok(2) [of "snd ss ! n"]
      by (simp add: file_bytes_def)
  qed
  then have r: "list_all (\<lambda>f. read_file (disk_fetch d) dec q (fst f) = (filter (wanted_snapshot q) (snd f), False)) fs"
    by (simp add: list_all_iff)
  have "map snd fs = fst ss # snd ss"
    by (simp add: fs_def del: upt_Suc)
  then have "concat (map (\<lambda>f. rev (filter (wanted_snapshot q) (snd f))) fs)
      = concat (map rev (map (filter (wanted_snapshot q)) (fst ss # snd ss)))"
    by (metis (mono_tags, lifting) map_map comp_def map_cong)
  also have "\<dots> = rev (filter (wanted_snapshot q) (concat (rev (fst ss # snd ss))))"
    unfolding rev_concat_rev by (simp add: rev_map filter_concat_map)
  also have "\<dots> = filter (wanted_snapshot q) (rev (kept_snaps ss))"
    by (simp add: kept_snaps_def rev_filter)
  finally have c: "concat (map (\<lambda>f. rev (filter (wanted_snapshot q) (snd f))) fs)
      = filter (wanted_snapshot q) (rev (kept_snaps ss))" .
  show ?thesis
    unfolding history_read_def using assms(3) files read_files_segments [OF r, of "[]" ?lim] c by simp
qed

section \<open>From opening to reading\<close>

text \<open>What \<open>filepath.Glob\<close> promises for the pattern of the archives.\<close>

definition archive_match :: "string \<Rightarrow> string \<Rightarrow> bool" where
  "archive_match path f \<longleftrightarrow> (\<exists>x. slash \<notin> set x \<and> f = path @ ''.'' @ x @ ''.gz'')"

definition glob_ok :: "disk \<Rightarrow> string \<Rightarrow> string list \<Rightarrow> bool" where
  "glob_ok d path ms \<longleftrightarrow> distinct ms \<and> set ms = {f. ds_files d f \<noteq> None \<and> archive_match path f}"

text \<open>A path where no history has been kept.\<close>

definition fresh_path :: "disk \<Rightarrow> string \<Rightarrow> bool" where
  "fresh_path d path \<longleftrightarrow>
     (\<forall>f. f = path \<or> archive_match path f \<or> f = partial (archive path 1) \<longrightarrow> ds_files d f = None)"

lemma archive_matches [simp]: "archive_match path (archive path i)"
  unfolding archive_match_def archive_def
  using nat_digits_digits [of i]
  by (intro exI [of _ "nat_digits i"]) (auto simp: list_all_iff is_digit_def byte_def)

lemma partial_no_match: "\<not> archive_match path (partial dst)"
proof
  assume "archive_match path (partial dst)"
  then obtain x where "partial dst = path @ ''.'' @ x @ ''.gz''" by (auto simp: archive_match_def)
  then have "last (partial dst) = last (path @ ''.'' @ x @ ''.gz'')" by simp
  then show False by (simp add: partial_def)
qed

lemma match_not_own: "archive_match path f \<Longrightarrow> f \<noteq> path \<and> f \<noteq> partial dst"
proof
  show "archive_match path f \<Longrightarrow> f \<noteq> path" by (auto simp: archive_match_def)
  show "archive_match path f \<Longrightarrow> f \<noteq> partial dst" using partial_no_match by metis
qed

lemma fresh_own: "fresh_path d path \<Longrightarrow> own_file path k f \<Longrightarrow> ds_files d f = None"
  by (auto simp: fresh_path_def own_file_def)

lemma append_all_writes:
  "append_all o1 enc xs wd = write_all o1 (map (line_of enc) (filter (\<lambda>s. terminal (sn_state s)) xs)) wd"
  by (induction xs arbitrary: wd) (auto simp: history_append_def split: prod.splits)

lemma glob_archives:
  assumes "holds w d sg" and "glob_ok d (wr_path w) ms"
    and "\<And>f. archive_match (wr_path w) f \<Longrightarrow> ds_files d f \<noteq> None \<Longrightarrow> own_file (wr_path w) (wr_keep w) f"
  shows "set ms = archive (wr_path w) ` {1..length (snd sg)}"
proof -
  have arch: "ds_files d (archive (wr_path w) i) \<noteq> None \<longleftrightarrow> i \<le> length (snd sg)" if "1 \<le> i" "i \<le> wr_keep w" for i
    using assms(1) that by (simp add: holds_def)
  have len: "length (snd sg) \<le> wr_keep w" using assms(1) by (simp add: holds_def)
  show ?thesis
  proof (intro set_eqI iffI)
    fix f assume f: "f \<in> set ms"
    then have "archive_match (wr_path w) f" "ds_files d f \<noteq> None"
      using assms(2) by (auto simp: glob_ok_def)
    moreover from this(1) have "f \<noteq> wr_path w" "f \<noteq> partial (archive (wr_path w) 1)"
      by (blast dest: match_not_own)+
    ultimately show "f \<in> archive (wr_path w) ` {1..length (snd sg)}"
      using assms(3) [of f] arch by (auto simp: own_file_def) (metis atLeastAtMost_iff image_eqI option.distinct(1))
  next
    fix f assume "f \<in> archive (wr_path w) ` {1..length (snd sg)}"
    then show "f \<in> set ms" using assms(2) arch len by (auto simp: glob_ok_def)
  qed
qed

lemma history_reads_back:
  assumes nf: "no_faults o1" and abs: "is_abs path" and fresh: "fresh_path d0 path"
    and opened: "history_open o1 path mx keep d0 = (Inr w, d)"
    and ok: "list_all (line_ok enc dec) xs"
    and run: "append_all o1 enc xs (w, d) = (w', d')"
    and glob: "glob_ok d' path (glob path)"
  shows "\<exists>kept. suffix kept (filter (\<lambda>s. terminal (sn_state s)) xs)
    \<and> history_read glob (disk_fetch d') dec path q =
      (take (if qy_limit q \<le> 0 then 20 else nat (qy_limit q)) (filter (wanted_snapshot q) (rev kept)), False)"
proof -
  have p: "path \<noteq> []" using abs by (auto simp: is_abs_def)
  have w: "wr_path w = path" "holds w d ([], [])" "ds_files d = (ds_files d0)(path := Some (Plain []))"
    using rotate_open_holds [OF nf abs fresh_own [OF fresh], where mx = "if mx \<le> 0 then history_max_bytes else mx"
        and keep = "if keep \<le> 0 then history_keep else keep"] opened p
    by (auto simp: history_open_def)
  obtain ss' where s: "wr_path w' = path" "snaps_hold enc w' d' ss'"
      "suffix (kept_snaps ss') (filter (\<lambda>s. terminal (sn_state s)) xs)"
    using append_all_holds [OF nf, of enc w d "([], [])" xs] w run
    by (auto simp: snaps_hold_def kept_snaps_def)
  have keep: "wr_keep w' = wr_keep w"
    using write_all_holds [OF nf w(2), of "map (line_of enc) (filter (\<lambda>s. terminal (sn_state s)) xs)"] run
    unfolding append_all_writes by auto
  have own: "own_file path (wr_keep w') f" if m: "archive_match path f" "ds_files d' f \<noteq> None" for f
  proof (rule ccontr)
    assume no: "\<not> own_file path (wr_keep w') f"
    then have "ds_files d' f = ds_files d f"
      using write_all_frame [OF run [unfolded append_all_writes]] keep w(1) by metis
    also have "\<dots> = None"
      using w(3) fresh m(1) no by (auto simp: fresh_path_def own_file_def)
    finally show False using m(2) by simp
  qed
  have files: "set (glob path) = archive path ` {1..length (snd ss')}"
    using glob_archives [of w' d' _ "glob path"] s(1,2) glob own by (auto simp: snaps_hold_def)
  have "list_all (line_ok enc dec) (kept_snaps ss')"
    using ok set_mono_suffix [OF s(3)] by (auto simp: list_all_iff)
  with read_holds [OF s(2), of dec glob q] files glob s p show ?thesis
    by (intro exI [of _ "kept_snaps ss'"]) (auto simp: glob_ok_def)
qed

end
