(* ===== verification/Service.thy ===== *)
theory Service
  imports Server Serve Notify History
begin

text \<open>
  The service put together, as \<open>runServe\<close> wires it: the HTTP API, the manager and its store, the
  scheduler, the history file and the notifier, over one state.  A goroutine that the manager
  starts, or the tail of \<open>run\<close> after \<open>Complete\<close>, is a list of actions still to be performed;
  \<open>service_step\<close> interleaves them with requests, scheduler rounds and reports of the agent.
  What has been posted is a bag, kept as a list.
\<close>

section \<open>State and wiring\<close>

record service =
  se_store :: store
  se_throttle :: throttle
  se_sched :: sched
  se_log :: "(writer \<times> disk) option"
  se_posts :: "payload list"
  se_tails :: "manager_action list list"

record wiring =
  wi_server :: server
  wi_host :: host
  wi_crypto :: crypto
  wi_notifier :: "notifier option"
  wi_encode :: "snapshot \<Rightarrow> string"
  wi_faults :: faults

definition wired_manager :: "wiring \<Rightarrow> service \<Rightarrow> manager" where
  "wired_manager w sv =
     \<lparr>mg_notifier = (wi_notifier w \<noteq> None), mg_recorder = (se_log sv \<noteq> None), mg_on_done = True\<rparr>"

definition open_history :: "faults \<Rightarrow> config \<Rightarrow> disk \<Rightarrow> (writer \<times> disk) option" where
  "open_history o1 c d =
     (if c_history_file c = [] then None
      else (case history_open o1 (c_history_file c) (c_history_max_size_mb c * 1024 * 1024) (c_history_keep c) d of
              (Inl e, d1) \<Rightarrow> None
            | (Inr l, d1) \<Rightarrow> Some (l, d1)))"

text \<open>\<open>net.ParseIP\<close> and \<open>IP.IsLoopback\<close>; an address with a zone does not parse.\<close>

definition is_loopback :: "addr \<Rightarrow> bool" where
  "is_loopback a =
     (case unmap a of
        V4 x \<Rightarrow> drop_bit 24 x = 127
      | V6 x z \<Rightarrow> x = 1)"

definition parse_ip :: "host \<Rightarrow> string \<Rightarrow> addr option" where
  "parse_ip h s =
     (case hs_parse_addr h s of
        None \<Rightarrow> None
      | Some a \<Rightarrow> if without_zone a = a then Some a else None)"

datatype listen_error = ListenBad | ListenPlaintext string

definition check_listen :: "host \<Rightarrow> config \<Rightarrow> listen_error option" where
  "check_listen h c =
     (case split_host_port (c_listen c) of
        None \<Rightarrow> Some ListenBad
      | Some (hn, port) \<Rightarrow>
          if (case parse_ip h hn of None \<Rightarrow> False | Some a \<Rightarrow> is_loopback a) then None
          else if tls_is_enabled (c_tls c) \<or> c_allow_non_loopback c then None
          else Some (ListenPlaintext (c_listen c)))"

section \<open>Actions\<close>

definition add_post :: "payload option \<Rightarrow> service \<Rightarrow> service" where
  "add_post p sv = sv\<lparr>se_posts := se_posts sv @ (case p of None \<Rightarrow> [] | Some q \<Rightarrow> [q])\<rparr>"

definition perform :: "wiring \<Rightarrow> time \<Rightarrow> manager_action \<Rightarrow> service \<Rightarrow> service" where
  "perform w now a sv =
     (case a of
        OnDone t snap \<Rightarrow> sv\<lparr>se_sched := on_complete t snap (se_sched sv)\<rparr>
      | RecordJob snap \<Rightarrow>
          sv\<lparr>se_log := map_option (\<lambda>l. snd (history_append (wi_faults w) (wi_encode w) snap l)) (se_log sv)\<rparr>
      | _ \<Rightarrow> add_post (manager_post (wi_notifier w) now a) sv)"

text \<open>A start spawns its goroutines; each is a list of its own.\<close>

definition service_busy :: "string \<Rightarrow> service \<Rightarrow> bool" where
  "service_busy n sv = manager_busy n (se_store sv)"

definition spawn :: "manager_action list \<Rightarrow> service \<Rightarrow> service" where
  "spawn as sv = sv\<lparr>se_tails := se_tails sv @ map (\<lambda>a. [a]) as\<rparr>"

definition service_start ::
  "wiring \<Rightarrow> string \<Rightarrow> time \<Rightarrow> target \<Rightarrow> job_request \<Rightarrow> service \<Rightarrow> bool \<times> service" where
  "service_start w ident now t req sv =
     (case manager_start (wired_manager w sv) ident now t req (se_store sv) of
        ((e, j, as), st') \<Rightarrow> (e = None, spawn as (sv\<lparr>se_store := st'\<rparr>)))"

definition service_request ::
  "wiring \<Rightarrow> update_env \<Rightarrow> answer \<Rightarrow> time \<times> time \<Rightarrow> string list \<Rightarrow> http_request \<Rightarrow> service
   \<Rightarrow> answer option \<times> service" where
  "service_request w e fallback readings segs r sv =
     (case respond (wi_host w) (wi_crypto w) ((wi_server w)\<lparr>srv_sched := Some (se_sched sv)\<rparr>)
         (e\<lparr>ue_manager := wired_manager w sv\<rparr>) fallback readings segs r (se_throttle sv, se_store sv) of
        ((reply, as), thr', st') \<Rightarrow> (reply, spawn as (sv\<lparr>se_throttle := thr', se_store := st'\<rparr>)))"

text \<open>A report of the agent for the job at \<open>r\<close>, and the return of \<open>Update\<close>; \<open>None\<close> is a panic.\<close>

definition service_report :: "time \<Rightarrow> nat \<Rightarrow> sink_call \<Rightarrow> service \<Rightarrow> service" where
  "service_report now r c sv = sv\<lparr>se_store := store_call now r c (se_store sv)\<rparr>"

definition service_done ::
  "wiring \<Rightarrow> time \<Rightarrow> nat \<Rightarrow> string + job_state \<times> string \<Rightarrow> service \<Rightarrow> service option" where
  "service_done w now r res sv =
     (case manager_done (wired_manager w sv) now r res (se_store sv) of
        None \<Rightarrow> None
      | Some (as, st') \<Rightarrow> Some (sv\<lparr>se_store := st', se_tails := se_tails sv @ [as]\<rparr>))"

definition service_round ::
  "wiring \<Rightarrow> string \<Rightarrow> target \<Rightarrow> client_error + check_result \<Rightarrow> time \<times> time \<times> time \<times> time \<Rightarrow> service
   \<Rightarrow> service" where
  "service_round w ident t answer readings sv =
     (case watch_round service_busy (service_start w ident (fst (snd (snd readings))))
         (wi_notifier w \<noteq> None) t answer readings (se_sched sv, sv) of
        (as, s', sv') \<Rightarrow>
          fold (\<lambda>a. add_post (sched_post (wi_notifier w) (fst (snd (snd readings))) a)) as
            (sv'\<lparr>se_sched := s'\<rparr>))"

definition fresh_id :: "string \<Rightarrow> service \<Rightarrow> bool" where
  "fresh_id ident sv \<longleftrightarrow> (\<forall>r j. s_heap (se_store sv) r = Some j \<longrightarrow> j_id j \<noteq> ident)"

text \<open>
  A step.  Identifiers are fresh; the agent reports only on a job that is not finished, and the
  state it returns is a final one.
\<close>

inductive service_step :: "wiring \<Rightarrow> service \<Rightarrow> service \<Rightarrow> bool" for w where
  serve: "fresh_id (ue_ident e) sv \<Longrightarrow>
    service_step w sv (snd (service_request w e fallback readings segs r sv))"
| report: "s_heap (se_store sv) j = Some job \<Longrightarrow> \<not> terminal (j_state job) \<Longrightarrow>
    service_step w sv (service_report now j c sv)"
| complete: "s_heap (se_store sv) j = Some job \<Longrightarrow> \<not> terminal (j_state job) \<Longrightarrow>
    terminal (fst (run_result res)) \<Longrightarrow> service_done w now j res sv = Some sv' \<Longrightarrow> service_step w sv sv'"
| act: "se_tails sv = ts @ (a # as) # us \<Longrightarrow>
    service_step w sv (perform w now a (sv\<lparr>se_tails := ts @ as # us\<rparr>))"
| round: "fresh_id ident sv \<Longrightarrow> service_step w sv (service_round w ident t answer readings sv)"

definition service_init :: "(writer \<times> disk) option \<Rightarrow> service" where
  "service_init l =
     \<lparr>se_store = new_store, se_throttle = [], se_sched = new_sched, se_log = l, se_posts = [], se_tails = []\<rparr>"

inductive service_reachable :: "wiring \<Rightarrow> (writer \<times> disk) option \<Rightarrow> service \<Rightarrow> bool" for w l where
  init: "service_reachable w l (service_init l)"
| step: "service_reachable w l sv \<Longrightarrow> service_step w sv sv' \<Longrightarrow> service_reachable w l sv'"

section \<open>What steps change\<close>

lemma add_post_simps [simp]:
  "se_store (add_post p sv) = se_store sv" "se_throttle (add_post p sv) = se_throttle sv"
  "se_sched (add_post p sv) = se_sched sv" "se_log (add_post p sv) = se_log sv"
  "se_tails (add_post p sv) = se_tails sv"
  "set (se_posts (add_post p sv)) = set (se_posts sv) \<union> set_option p"
  by (auto simp: add_post_def split: option.splits)

lemma spawn_simps [simp]:
  "se_store (spawn as sv) = se_store sv" "se_throttle (spawn as sv) = se_throttle sv"
  "se_sched (spawn as sv) = se_sched sv" "se_log (spawn as sv) = se_log sv"
  "se_posts (spawn as sv) = se_posts sv" "se_tails (spawn as sv) = se_tails sv @ map (\<lambda>a. [a]) as"
  by (simp_all add: spawn_def)

lemma perform_posts:
  "set (se_posts (perform w now a sv)) = set (se_posts sv) \<union> set_option (manager_post (wi_notifier w) now a)"
  by (cases a) (simp_all add: perform_def manager_post_def)

lemma perform_simps [simp]:
  "se_store (perform w now a sv) = se_store sv" "se_throttle (perform w now a sv) = se_throttle sv"
  "se_tails (perform w now a sv) = se_tails sv"
  by (cases a; simp add: perform_def)+

lemma fold_posts:
  "se_store (fold (\<lambda>a. add_post (f a)) as sv) = se_store sv
   \<and> se_throttle (fold (\<lambda>a. add_post (f a)) as sv) = se_throttle sv
   \<and> se_log (fold (\<lambda>a. add_post (f a)) as sv) = se_log sv
   \<and> se_tails (fold (\<lambda>a. add_post (f a)) as sv) = se_tails sv
   \<and> set (se_posts (fold (\<lambda>a. add_post (f a)) as sv)) = set (se_posts sv) \<union> (\<Union>a \<in> set as. set_option (f a))"
  by (induction as arbitrary: sv) auto

text \<open>The jobs that goroutines are still to record and to report.\<close>

definition recorded_by :: "manager_action \<Rightarrow> snapshot option" where
  "recorded_by a = (case a of RecordJob s \<Rightarrow> Some s | _ \<Rightarrow> None)"

definition to_record :: "manager_action list list \<Rightarrow> snapshot list" where
  "to_record ts = List.map_filter recorded_by (concat ts)"

definition to_notify :: "manager_action list list \<Rightarrow> snapshot set" where
  "to_notify ts = {s. NotifyDone s \<in> set (concat ts)}"

lemma to_record_simps [simp]:
  "to_record [] = []" "to_record (ts @ us) = to_record ts @ to_record us"
  "to_record [as] = List.map_filter recorded_by as"
  "to_record ((a # as) # us) = to_record [[a]] @ to_record (as # us)"
  "to_record ([] # us) = to_record us"
  by (simp_all add: to_record_def List.map_filter_def recorded_by_def split: manager_action.split)

lemma to_notify_append [simp]: "to_notify (ts @ us) = to_notify ts \<union> to_notify us"
  by (auto simp: to_notify_def)

text \<open>A step that starts at most one job.\<close>

definition begins :: "service \<Rightarrow> service \<Rightarrow> bool" where
  "begins sv sv' \<longleftrightarrow> se_store sv' = se_store sv
     \<or> (\<exists>ident now n req. fresh_id ident sv \<and> se_store sv' = fst (store_begin ident now n req (se_store sv)))"

lemma begins_begin:
  "fresh_id ident sv \<Longrightarrow> se_store sv' = fst (store_begin ident now n req (se_store sv)) \<Longrightarrow> begins sv sv'"
  unfolding begins_def by blast

definition starts_only :: "service \<Rightarrow> service \<Rightarrow> bool" where
  "starts_only sv sv' \<longleftrightarrow> begins sv sv' \<and> se_log sv' = se_log sv \<and> set (se_posts sv) \<subseteq> set (se_posts sv')
     \<and> to_record (se_tails sv') = to_record (se_tails sv) \<and> to_notify (se_tails sv') = to_notify (se_tails sv)"

lemma manager_start_parts:
  assumes "manager_start m ident now t req st = ((e, j, as), st')"
  shows "st' = fst (store_begin ident now (t_name t) req st)"
    and "List.map_filter recorded_by as = []" and "NotifyDone s \<notin> set as"
  using assms
  by (auto simp: manager_start_def recorded_by_def List.map_filter_def split: option.splits prod.splits)

lemma to_record_spawned: "to_record (map (\<lambda>a. [a]) as) = List.map_filter recorded_by as"
  by (simp add: to_record_def comp_def)

lemma to_notify_spawned: "(\<And>s. NotifyDone s \<notin> set as) \<Longrightarrow> to_notify (map (\<lambda>a. [a]) as) = {}"
  by (auto simp: to_notify_def)

lemma service_start_only:
  "fresh_id ident sv \<Longrightarrow> starts_only sv (snd (service_start w ident now t req sv))"
  using manager_start_parts [of "wired_manager w sv" ident now t req "se_store sv"]
  by (auto simp: service_start_def starts_only_def to_record_spawned to_notify_spawned
      intro!: begins_begin split: prod.split)

lemma service_request_only:
  assumes "fresh_id (ue_ident e) sv"
  shows "starts_only sv (snd (service_request w e fallback readings segs r sv))"
proof -
  let ?e = "e\<lparr>ue_manager := wired_manager w sv\<rparr>" and ?s = "(wi_server w)\<lparr>srv_sched := Some (se_sched sv)\<rparr>"
  obtain reply as thr' st' where r: "respond (wi_host w) (wi_crypto w) ?s ?e fallback readings segs r
      (se_throttle sv, se_store sv) = ((reply, as), thr', st')"
    by (metis surj_pair)
  have "st' = se_store sv \<and> as = []
      \<or> (\<exists>t req j. manager_start (wired_manager w sv) (ue_ident e) (ue_now e) t req (se_store sv) = ((None, j, as), st'))"
    using respond_served [of "wi_host w" "wi_crypto w" ?s ?e r "(se_throttle sv, se_store sv)" fallback readings segs] r
    by (auto simp: served_ok_def update_allowed_def)
  then show ?thesis
  proof
    assume "st' = se_store sv \<and> as = []"
    with r show ?thesis by (simp add: service_request_def starts_only_def begins_def spawn_def)
  next
    assume "\<exists>t req j. manager_start (wired_manager w sv) (ue_ident e) (ue_now e) t req (se_store sv) = ((None, j, as), st')"
    then obtain t req j where m: "manager_start (wired_manager w sv) (ue_ident e) (ue_now e) t req (se_store sv) = ((None, j, as), st')"
      by blast
    from manager_start_parts [OF m] r assms show ?thesis
      by (auto simp: service_request_def starts_only_def to_record_spawned to_notify_spawned
          intro!: begins_begin)
  qed
qed

lemma tick_world:
  "snd (snd (tick busy start a t answer marked now (s, u))) \<in> {u, snd (start t (auto_request t) u)}"
  by (auto simp: tick_def offer_def apply_pending_def Let_def split: prod.splits sum.splits bool.splits if_splits)

lemma round_world:
  "snd (snd (watch_round busy start a t answer readings (s, u))) \<in> {u, snd (start t (auto_request t) u)}"
proof -
  obtain began marked now ended where r: "readings = (began, marked, now, ended)" by (metis surj_pair)
  show ?thesis
    using tick_world [of busy start a t answer marked now "set_last (t_name t) began s" u]
    by (auto simp: watch_round_def r split: prod.split)
qed

lemma starts_only_refl [simp]: "starts_only sv sv"
  by (simp add: starts_only_def begins_def)

lemma service_round_only:
  assumes "fresh_id ident sv"
  shows "starts_only sv (service_round w ident t answer readings sv)"
proof -
  let ?now = "fst (snd (snd readings))"
  obtain as s' sv' where r: "watch_round service_busy (service_start w ident ?now) (wi_notifier w \<noteq> None)
      t answer readings (se_sched sv, sv) = (as, s', sv')"
    by (metis surj_pair)
  then have "sv' = sv \<or> sv' = snd (service_start w ident ?now t (auto_request t) sv)"
    using round_world [of service_busy "service_start w ident ?now" "wi_notifier w \<noteq> None" t answer readings
        "se_sched sv" sv] by simp
  then have "starts_only sv sv'" using service_start_only [OF assms] by auto
  then show ?thesis
    using r by (auto simp: service_round_def starts_only_def begins_def fold_posts)
qed

section \<open>The store of a service\<close>

lemma service_done_parts:
  assumes "service_done w now r res sv = Some sv'"
  obtains as st' where "manager_done (wired_manager w sv) now r res (se_store sv) = Some (as, st')"
    and "sv' = sv\<lparr>se_store := st', se_tails := se_tails sv @ [as]\<rparr>"
  using assms by (auto simp: service_done_def split: option.splits)

lemma manager_done_steps:
  assumes "manager_done m now r res st = Some (as, st')"
  obtains st1 where "store_finish now r (fst (run_result res)) (snd (run_result res)) st = Some st1"
    and "st' = store_unregister r st1"
  using assms by (auto simp: manager_done_def store_complete_def Let_def split: option.splits)

lemma store_finish_job:
  assumes "store_finish now r x msg st = Some st1"
  obtains j j' where "s_heap st r = Some j" and "finish now x msg j = Some j'"
    and "st1 = st\<lparr>s_heap := (s_heap st)(r \<mapsto> j')\<rparr>"
  using assms by (auto simp: store_finish_def split: option.splits)

lemma begins_reachable: "begins sv sv' \<Longrightarrow> store_reachable (se_store sv) \<Longrightarrow> store_reachable (se_store sv')"
  unfolding begins_def fresh_id_def using store_reachable.step store_step.begin_job by metis

lemma service_step_store:
  assumes "service_step w sv sv'" and "store_reachable (se_store sv)"
  shows "store_reachable (se_store sv')"
  using assms
proof (cases rule: service_step.cases)
  case (complete j job res now)
  obtain as st' where d: "manager_done (wired_manager w sv) now j res (se_store sv) = Some (as, st')"
      "sv' = sv\<lparr>se_store := st', se_tails := se_tails sv @ [as]\<rparr>"
    using service_done_parts [OF complete(4)] .
  obtain st1 where f: "store_finish now j (fst (run_result res)) (snd (run_result res)) (se_store sv) = Some st1"
      "st' = store_unregister j st1"
    using manager_done_steps [OF d(1)] .
  have "store_step (se_store sv) st1" using store_step.finish_job [OF f(1) complete(3)] .
  moreover obtain j0 j' where "finish now (fst (run_result res)) (snd (run_result res)) j0 = Some j'"
      "st1 = (se_store sv)\<lparr>s_heap := (s_heap (se_store sv))(j \<mapsto> j')\<rparr>"
    using store_finish_job [OF f(1)] .
  ultimately show ?thesis
    using store_step.unregister [of st1 j j'] finish_terminal complete(3) assms(2) d(2) f(2)
    by (auto intro: store_reachable.step)
next
  case (serve e fallback readings segs r)
  then show ?thesis using service_request_only assms(2) begins_reachable unfolding starts_only_def by blast
next
  case (round ident t answer readings)
  then show ?thesis using service_round_only assms(2) begins_reachable unfolding starts_only_def by blast
qed (auto simp: service_report_def intro: store_reachable.step store_step.report)

lemma service_store_reachable: "service_reachable w l sv \<Longrightarrow> store_reachable (se_store sv)"
  by (induction rule: service_reachable.induct)
    (auto simp: service_init_def intro: store_reachable.start service_step_store)

section \<open>Finished jobs\<close>

definition finished_jobs :: "store \<Rightarrow> snapshot set" where
  "finished_jobs st = {s. \<exists>r j. s_heap st r = Some j \<and> terminal (j_state j) \<and> s = snapshot_of 0 j}"

definition stamped_inv :: "store \<Rightarrow> bool" where
  "stamped_inv st \<longleftrightarrow> (\<forall>r j. s_heap st r = Some j \<longrightarrow> terminal (j_state j) = (j_finished j \<noteq> None))"

lemma apply_call_state [simp]:
  "j_state (apply_call now c j) = j_state j" "j_finished (apply_call now c j) = j_finished j"
  by (cases c; simp add: start_step_def add_step_def Let_def)+

lemma snapshot_of_finished: "j_finished j \<noteq> None \<Longrightarrow> snapshot_of now j = snapshot_of 0 j"
  by (auto simp: snapshot_of_def)

lemma heap_put:
  assumes "s_heap st' = (s_heap st)(r \<mapsto> j')" and "\<And>j. s_heap st r = Some j \<Longrightarrow> \<not> terminal (j_state j)"
  shows "finished_jobs st' = (if terminal (j_state j') then insert (snapshot_of 0 j') (finished_jobs st) else finished_jobs st)"
    and "terminal (j_state j') = (j_finished j' \<noteq> None) \<Longrightarrow> stamped_inv st \<Longrightarrow> stamped_inv st'"
proof -
  have "s \<in> finished_jobs st' \<longleftrightarrow> terminal (j_state j') \<and> s = snapshot_of 0 j' \<or> s \<in> finished_jobs st" for s
  proof
    assume "s \<in> finished_jobs st'"
    then show "terminal (j_state j') \<and> s = snapshot_of 0 j' \<or> s \<in> finished_jobs st"
      using assms(1) by (auto simp: finished_jobs_def split: if_splits)
  next
    assume "terminal (j_state j') \<and> s = snapshot_of 0 j' \<or> s \<in> finished_jobs st"
    then show "s \<in> finished_jobs st'"
    proof
      assume "s \<in> finished_jobs st"
      then obtain q j where q: "s_heap st q = Some j" "terminal (j_state j)" "s = snapshot_of 0 j"
        by (auto simp: finished_jobs_def)
      with assms have "s_heap st' q = Some j" by auto
      with q show ?thesis unfolding finished_jobs_def by blast
    qed (use assms(1) in \<open>auto simp: finished_jobs_def\<close>)
  qed
  then show "finished_jobs st' = (if terminal (j_state j') then insert (snapshot_of 0 j') (finished_jobs st) else finished_jobs st)"
    by auto
  show "terminal (j_state j') = (j_finished j' \<noteq> None) \<Longrightarrow> stamped_inv st \<Longrightarrow> stamped_inv st'"
    using assms(1) unfolding stamped_inv_def by (metis fun_upd_apply option.inject)
qed

lemma heap_same:
  "s_heap st' = s_heap st \<Longrightarrow> finished_jobs st' = finished_jobs st"
  "s_heap st' = s_heap st \<Longrightarrow> stamped_inv st \<Longrightarrow> stamped_inv st'"
  by (simp_all add: finished_jobs_def stamped_inv_def)

lemma store_begin_heap:
  "s_heap (fst (store_begin ident now n req st)) =
     (case map_of (s_running st) n of
        Some r \<Rightarrow> s_heap st
      | None \<Rightarrow> (s_heap st)(s_next st \<mapsto> new_job ident now n req))"
  by (simp add: store_begin_def Let_def split: option.split prod.split)

lemma begins_finished:
  assumes "begins sv sv'" and "store_inv (se_store sv)"
  shows "finished_jobs (se_store sv') = finished_jobs (se_store sv)
    \<and> (stamped_inv (se_store sv) \<longrightarrow> stamped_inv (se_store sv'))"
proof -
  have free: "s_heap (se_store sv) (s_next (se_store sv)) = None"
    using assms(2) by (simp add: store_inv_defs)
  have fresh: "\<not> terminal (j_state (new_job ident now n req)) \<and> j_finished (new_job ident now n req) = None"
    for ident now n req by (simp add: new_job_def)
  show ?thesis
  proof (cases "s_heap (se_store sv') = s_heap (se_store sv)")
    case False
    then obtain ident now n req
      where "s_heap (se_store sv') = (s_heap (se_store sv))(s_next (se_store sv) \<mapsto> new_job ident now n req)"
      using assms(1) unfolding begins_def by (metis store_begin_heap option.case_eq_if)
    from heap_put [OF this] free fresh show ?thesis by simp
  qed (use heap_same in blast)
qed

lemma report_finished:
  assumes "s_heap st r = Some j" and "\<not> terminal (j_state j)"
  shows "finished_jobs (store_call now r c st) = finished_jobs st"
    and "stamped_inv st \<Longrightarrow> stamped_inv (store_call now r c st)"
proof -
  have "s_heap (store_call now r c st) = (s_heap st)(r \<mapsto> apply_call now c j)"
    using assms(1) by (simp add: store_call_def)
  from heap_put [OF this] assms
  show "finished_jobs (store_call now r c st) = finished_jobs st"
    and "stamped_inv st \<Longrightarrow> stamped_inv (store_call now r c st)"
    by (auto simp: stamped_inv_def)
qed

lemma heap_unregister [simp]: "s_heap (store_unregister r st) = s_heap st"
  by (simp add: store_unregister_def split: option.split)

lemma done_finished:
  assumes "manager_done m now r res st = Some (as, st')" and "s_heap st r = Some j"
    and "\<not> terminal (j_state j)" and "terminal (fst (run_result res))" and "store_inv st"
  shows "\<exists>s. finished_jobs st' = insert s (finished_jobs st) \<and> sn_id s \<notin> sn_id ` finished_jobs st
    \<and> as = (if mg_on_done m then [OnDone (sn_target s) s] else []) @ (if mg_recorder m then [RecordJob s] else [])
        @ (if mg_notifier m then [NotifyDone s] else [])
    \<and> (stamped_inv st \<longrightarrow> stamped_inv st')"
proof -
  obtain st1 where f: "store_finish now r (fst (run_result res)) (snd (run_result res)) st = Some st1"
      "st' = store_unregister r st1"
    using manager_done_steps [OF assms(1)] .
  obtain j' where j': "finish now (fst (run_result res)) (snd (run_result res)) j = Some j'"
      "st1 = st\<lparr>s_heap := (s_heap st)(r \<mapsto> j')\<rparr>"
    using store_finish_job [OF f(1)] assms(2) by auto
  have t: "terminal (j_state j')" "j_finished j' = Some now"
    using j'(1) assms(3,4) by (auto simp: finish_def split: if_splits)
  have heap: "s_heap st' = (s_heap st)(r \<mapsto> j')" using f(2) j'(2) by simp
  define s where "s = snapshot_of now j'"
  have s: "s = snapshot_of 0 j'" using snapshot_of_finished [of j' now] t(2) by (simp add: s_def)
  have "finished_jobs st' = insert s (finished_jobs st)"
    using heap_put(1) [OF heap] t(1) s assms(2,3) by simp
  moreover have "sn_id s \<notin> sn_id ` finished_jobs st"
  proof
    assume "sn_id s \<in> sn_id ` finished_jobs st"
    then obtain r0 j0 where 0: "s_heap st r0 = Some j0" "terminal (j_state j0)" "j_id j0 = j_id j'"
      by (auto simp: finished_jobs_def s snapshot_of_def)
    then have "r0 = r"
      using assms(2,5) finish_frame [OF j'(1)] unfolding store_inv_defs by metis
    with 0 assms(2,3) show False by simp
  qed
  moreover have "job_at st' r = j'" using heap by (simp add: job_at_def)
  then have "as = (if mg_on_done m then [OnDone (sn_target s) s] else []) @ (if mg_recorder m then [RecordJob s] else [])
        @ (if mg_notifier m then [NotifyDone s] else [])"
    using assms(1) f by (simp add: manager_done_def store_complete_def Let_def s_def eq_commute [of _ as])
  moreover have "stamped_inv st \<longrightarrow> stamped_inv st'"
    using heap_put(2) [OF heap] t assms(2,3) by simp
  ultimately show ?thesis by blast
qed

section \<open>Every finished job is recorded and reported\<close>

text \<open>
  The history is what appending some jobs to the opened file gives, and these jobs with those
  a goroutine is still to record are the finished jobs, each once.
\<close>

definition recorded_inv :: "wiring \<Rightarrow> (writer \<times> disk) option \<Rightarrow> service \<Rightarrow> bool" where
  "recorded_inv w l sv \<longleftrightarrow>
     (case l of
        None \<Rightarrow> se_log sv = None
      | Some l0 \<Rightarrow> \<exists>xs. se_log sv = Some (append_all (wi_faults w) (wi_encode w) xs l0)
          \<and> distinct (map sn_id (xs @ to_record (se_tails sv)))
          \<and> set (xs @ to_record (se_tails sv)) = finished_jobs (se_store sv))"

text \<open>A finished job has been posted, is to be, or nobody subscribed; nothing else is posted.\<close>

definition reported :: "wiring \<Rightarrow> service \<Rightarrow> snapshot \<Rightarrow> bool" where
  "reported w sv s \<longleftrightarrow>
     (case wi_notifier w of
        None \<Rightarrow> True
      | Some k \<Rightarrow> s \<in> to_notify (se_tails sv) \<or> \<not> wants (nt_cfg k) (event_for (sn_state s))
          \<or> (\<exists>p \<in> set (se_posts sv). truthful k s p))"

definition reported_inv :: "wiring \<Rightarrow> service \<Rightarrow> bool" where
  "reported_inv w sv \<longleftrightarrow> (\<forall>s \<in> finished_jobs (se_store sv). reported w sv s)
     \<and> (\<forall>p \<in> set (se_posts sv). subscribed (wi_notifier w) p)"

definition service_inv :: "wiring \<Rightarrow> (writer \<times> disk) option \<Rightarrow> service \<Rightarrow> bool" where
  "service_inv w l sv \<longleftrightarrow> store_reachable (se_store sv) \<and> stamped_inv (se_store sv)
     \<and> throttle_ok (se_throttle sv) \<and> recorded_inv w l sv \<and> reported_inv w sv"

lemma append_all_snoc:
  "append_all o1 enc (xs @ [s]) l = snd (history_append o1 enc s (append_all o1 enc xs l))"
  by (induction xs arbitrary: l) auto

lemma recorded_starts:
  assumes "starts_only sv sv'" and "recorded_inv w l sv" and "store_inv (se_store sv)"
  shows "recorded_inv w l sv'"
  using assms begins_finished [of sv sv']
  by (auto simp: recorded_inv_def starts_only_def split: option.splits)

lemma reported_mono:
  assumes "reported w sv s" and "to_notify (se_tails sv) \<subseteq> to_notify (se_tails sv')"
    and "set (se_posts sv) \<subseteq> set (se_posts sv')"
  shows "reported w sv' s"
  using assms by (auto simp: reported_def split: option.splits)

lemma map_filter_append [simp]: "List.map_filter f (xs @ ys) = List.map_filter f xs @ List.map_filter f ys"
  by (simp add: List.map_filter_def)

lemma to_record_insert:
  "to_record (ts @ (a # as) # us) = to_record ts @ (case recorded_by a of None \<Rightarrow> [] | Some s \<Rightarrow> [s]) @ to_record (as # us)"
  by (simp add: to_record_def List.map_filter_def split: option.split)

lemma distinct_move: "distinct (xs @ ts @ s # us) \<Longrightarrow> distinct ((xs @ [s]) @ ts @ us)"
  by auto

lemma recorded_act:
  assumes "se_tails sv = ts @ (a # as) # us" and "recorded_inv w l sv"
  shows "recorded_inv w l (perform w now a (sv\<lparr>se_tails := ts @ as # us\<rparr>))"
proof (cases "recorded_by a")
  case None
  then have "to_record (ts @ as # us) = to_record (se_tails sv)"
    using assms(1) by (simp add: to_record_insert del: to_record_simps(4)) (simp add: to_record_def)
  moreover have "se_log (perform w now a (sv\<lparr>se_tails := ts @ as # us\<rparr>)) = se_log sv"
    using None by (cases a) (simp_all add: perform_def recorded_by_def)
  ultimately show ?thesis
    using assms(2) by (cases l) (simp_all add: recorded_inv_def del: to_record_simps)
next
  case (Some s)
  then have a: "a = RecordJob s" by (cases a) (simp_all add: recorded_by_def)
  show ?thesis
  proof (cases l)
    case None
    with assms(2) a show ?thesis by (simp add: recorded_inv_def perform_def)
  next
    case (Some l0)
    then obtain xs where xs: "se_log sv = Some (append_all (wi_faults w) (wi_encode w) xs l0)"
        "distinct (map sn_id (xs @ to_record (se_tails sv)))"
        "set (xs @ to_record (se_tails sv)) = finished_jobs (se_store sv)"
      using assms(2) by (auto simp: recorded_inv_def)
    have before: "to_record (se_tails sv) = to_record ts @ s # to_record (as # us)"
      using assms(1) a by (simp add: to_record_insert recorded_by_def del: to_record_simps)
    have after: "to_record (ts @ as # us) = to_record ts @ to_record (as # us)"
      by (simp add: to_record_def)
    have "distinct (map sn_id ((xs @ [s]) @ to_record (ts @ as # us)))"
      using distinct_move [of "map sn_id xs" "map sn_id (to_record ts)" "sn_id s" "map sn_id (to_record (as # us))"] xs(2)
      unfolding before after by (simp only: map_append list.map append.assoc)
    moreover have "set ((xs @ [s]) @ to_record (ts @ as # us)) = finished_jobs (se_store sv)"
      using xs(3) unfolding before after by auto
    moreover have "se_log (perform w now a (sv\<lparr>se_tails := ts @ as # us\<rparr>))
        = Some (append_all (wi_faults w) (wi_encode w) (xs @ [s]) l0)"
      using xs(1) a by (simp add: perform_def append_all_snoc)
    moreover have "se_tails (perform w now a (sv\<lparr>se_tails := ts @ as # us\<rparr>)) = ts @ as # us"
      "se_store (perform w now a (sv\<lparr>se_tails := ts @ as # us\<rparr>)) = se_store sv"
      by simp_all
    ultimately show ?thesis unfolding recorded_inv_def Some option.case by metis
  qed
qed

lemma recorded_done:
  assumes "service_done w now r res sv = Some sv'" and "s_heap (se_store sv) r = Some j"
    and "\<not> terminal (j_state j)" and "terminal (fst (run_result res))" and "store_inv (se_store sv)"
    and "recorded_inv w l sv" and "reported_inv w sv" and "stamped_inv (se_store sv)"
  shows "recorded_inv w l sv' \<and> reported_inv w sv' \<and> stamped_inv (se_store sv')"
proof -
  obtain as st' where d: "manager_done (wired_manager w sv) now r res (se_store sv) = Some (as, st')"
      "sv' = sv\<lparr>se_store := st', se_tails := se_tails sv @ [as]\<rparr>"
    using service_done_parts [OF assms(1)] .
  obtain s where s: "finished_jobs st' = insert s (finished_jobs (se_store sv))"
      "sn_id s \<notin> sn_id ` finished_jobs (se_store sv)" "stamped_inv st'"
      "as = OnDone (sn_target s) s # (if se_log sv \<noteq> None then [RecordJob s] else [])
        @ (if wi_notifier w \<noteq> None then [NotifyDone s] else [])"
    using done_finished [OF d(1) assms(2-5)] assms(8) by (auto simp: wired_manager_def)
  have "recorded_inv w l sv'"
  proof (cases l)
    case None
    then show ?thesis using assms(6) d(2) by (simp add: recorded_inv_def)
  next
    case (Some l0)
    then obtain xs where xs: "se_log sv = Some (append_all (wi_faults w) (wi_encode w) xs l0)"
        "distinct (map sn_id (xs @ to_record (se_tails sv)))"
        "set (xs @ to_record (se_tails sv)) = finished_jobs (se_store sv)"
      using assms(6) by (auto simp: recorded_inv_def)
    let ?ys = "xs @ to_record (se_tails sv)"
    have one: "to_record [as] = [s]"
      using s(4) xs(1) by (simp add: recorded_by_def List.map_filter_def)
    have "sn_id s \<notin> set (map sn_id ?ys)" using s(2) xs(3) by (metis set_map)
    then have "distinct (map sn_id (?ys @ [s]))" using xs(2) by simp
    moreover have "set (?ys @ [s]) = finished_jobs st'" using xs(3) s(1) by auto
    ultimately show ?thesis
      using xs(1) d(2) Some one by (auto simp: recorded_inv_def simp del: to_record_simps(3))
  qed
  moreover have "reported w sv' s"
    using s(4) d(2) by (auto simp: reported_def to_notify_def split: option.split)
  moreover have "reported w sv' x" if "x \<in> finished_jobs (se_store sv)" for x
    using reported_mono [of w sv x sv'] assms(7) that d(2) by (auto simp: reported_inv_def)
  ultimately show ?thesis
    using s(1,3) d(2) assms(7) by (auto simp: reported_inv_def)
qed

lemma starts_posts:
  assumes "service_step w sv sv'" and "\<forall>p \<in> set (se_posts sv). subscribed (wi_notifier w) p"
  shows "\<forall>p \<in> set (se_posts sv'). subscribed (wi_notifier w) p"
  using assms
proof (cases rule: service_step.cases)
  case (act ts a as us now)
  then show ?thesis
    using assms(2) manager_post_subscribed [of "wi_notifier w" now a]
    by (auto simp: perform_posts option.pred_set)
next
  case (round ident t answer readings)
  let ?now = "fst (snd (snd readings))"
  obtain as s' sv1 where r: "watch_round service_busy (service_start w ident ?now) (wi_notifier w \<noteq> None)
      t answer readings (se_sched sv, sv) = (as, s', sv1)"
    by (metis surj_pair)
  then have "sv1 = sv \<or> sv1 = snd (service_start w ident ?now t (auto_request t) sv)"
    using round_world [of service_busy "service_start w ident ?now" "wi_notifier w \<noteq> None" t answer readings
        "se_sched sv" sv] by simp
  then have "se_posts sv1 = se_posts sv" by (auto simp: service_start_def split: prod.split)
  then show ?thesis
    using round(1) r assms(2) sched_post_subscribed [of "wi_notifier w" ?now]
    by (auto simp: service_round_def fold_posts option.pred_set)
qed (auto simp: service_request_def service_report_def service_done_def split: prod.splits option.splits)

lemma throttle_allow_ok: "throttle_ok a \<Longrightarrow> throttle_ok (snd (throttle_allow key now a))"
  using throttle_entry_ok [of a key now] by (auto simp: throttle_allow_def split: prod.split)

lemma authenticate_ok: "throttle_ok a \<Longrightarrow> throttle_ok (snd (authenticate h k c r body now a))"
  by (simp add: authenticate_def Let_def throttle_fail_ok)

lemma protected_ok:
  assumes "throttle_ok a"
  shows "throttle_ok (snd (protected h k c r readings a))"
proof -
  obtain b a1 where 1: "throttle_allow (client_ip h c r) (fst readings) a = (b, a1)" by fastforce
  obtain u a2 where 2: "authenticate h k c r (ht_body r) (snd readings) a1 = (u, a2)" by fastforce
  have "throttle_ok a1" using throttle_allow_ok [OF assms, of "client_ip h c r" "fst readings"] 1 by simp
  moreover from this have "throttle_ok a2"
    using authenticate_ok [of a1 h k c r "ht_body r" "snd readings"] 2 by simp
  ultimately show ?thesis
    using 1 2 by (auto simp: protected_def split: bool.split option.split)
qed

lemma respond_throttle:
  assumes "throttle_ok a"
  shows "throttle_ok (fst (snd (respond h k s e fallback readings segs r (a, st))))"
proof -
  obtain g a1 where g: "protected h k (srv_cfg s) r readings a = (g, a1)" by fastforce
  then have "throttle_ok a1" using protected_ok [OF assms, of h k "srv_cfg s" r readings] by simp
  with assms g show ?thesis
    by (auto simp: respond_def split: prod.split cors_step.split option.split endpoint.split gate.split)
qed

lemma service_step_throttle:
  assumes "service_step w sv sv'" and "throttle_ok (se_throttle sv)"
  shows "throttle_ok (se_throttle sv')"
  using assms
proof (cases rule: service_step.cases)
  case (serve e fallback readings segs r)
  obtain reply as thr' st' where out: "respond (wi_host w) (wi_crypto w) ((wi_server w)\<lparr>srv_sched := Some (se_sched sv)\<rparr>)
      (e\<lparr>ue_manager := wired_manager w sv\<rparr>) fallback readings segs r (se_throttle sv, se_store sv)
      = ((reply, as), thr', st')"
    by (metis surj_pair)
  have "throttle_ok (fst (snd ((reply, as), thr', st')))"
    unfolding out [symmetric] by (rule respond_throttle [OF assms(2)])
  with serve out show ?thesis by (simp add: service_request_def)
next
  case (round ident t answer readings)
  let ?now = "fst (snd (snd readings))"
  obtain as s' sv1 where r: "watch_round service_busy (service_start w ident ?now) (wi_notifier w \<noteq> None)
      t answer readings (se_sched sv, sv) = (as, s', sv1)"
    by (metis surj_pair)
  then have "sv1 = sv \<or> sv1 = snd (service_start w ident ?now t (auto_request t) sv)"
    using round_world [of service_busy "service_start w ident ?now" "wi_notifier w \<noteq> None" t answer readings
        "se_sched sv" sv] by simp
  then have "se_throttle sv1 = se_throttle sv" by (auto simp: service_start_def split: prod.split)
  then show ?thesis using round(1) r assms(2) by (simp add: service_round_def fold_posts)
qed (auto simp: service_report_def service_done_def split: option.splits)

lemma reported_starts:
  assumes "starts_only sv sv'" and "reported_inv w sv" and "store_inv (se_store sv)"
  shows "\<forall>s \<in> finished_jobs (se_store sv'). reported w sv' s"
  using assms begins_finished [of sv sv'] reported_mono [of w sv _ sv']
  by (auto simp: reported_inv_def starts_only_def)

lemma reported_act:
  assumes "se_tails sv = ts @ (a # as) # us" and "reported w sv s"
  shows "reported w (perform w now a (sv\<lparr>se_tails := ts @ as # us\<rparr>)) s"
proof (cases "a = NotifyDone s")
  case True
  then show ?thesis
    using job_payload_truthful [of _ s now False]
    by (auto simp: reported_def perform_posts manager_post_def notify_job_def when_wanted_def notifier_wants_def
        split: option.split)
next
  case False
  then have "s \<in> to_notify (se_tails sv) \<Longrightarrow> s \<in> to_notify (ts @ as # us)"
    using assms(1) by (auto simp: to_notify_def)
  then show ?thesis
    using assms(2) by (auto simp: reported_def perform_posts split: option.splits)
qed

lemma service_step_inv:
  assumes "service_step w sv sv'" and "service_inv w l sv"
  shows "service_inv w l sv'"
proof -
  have inv: "store_inv (se_store sv)" "stamped_inv (se_store sv)" "recorded_inv w l sv" "reported_inv w sv"
    using assms(2) store_reachable_inv by (auto simp: service_inv_def)
  have starts: "stamped_inv (se_store sv') \<and> recorded_inv w l sv' \<and> (\<forall>s \<in> finished_jobs (se_store sv'). reported w sv' s)"
    if "starts_only sv sv'"
    using that begins_finished [of sv sv'] recorded_starts [OF that inv(3,1)] reported_starts [OF that inv(4,1)] inv
    by (auto simp: starts_only_def)
  have "stamped_inv (se_store sv') \<and> recorded_inv w l sv' \<and> (\<forall>s \<in> finished_jobs (se_store sv'). reported w sv' s)"
    using assms(1)
  proof (cases rule: service_step.cases)
    case (serve e fallback readings segs r)
    then show ?thesis using starts service_request_only by blast
  next
    case (report j job now c)
    then show ?thesis
      using report_finished [OF report(2,3)] inv reported_mono [of w sv _ sv']
      by (auto simp: service_report_def recorded_inv_def reported_inv_def split: option.split)
  next
    case (complete j job res now)
    then show ?thesis
      using recorded_done [OF complete(4,1,2,3) inv(1,3,4,2)] by (simp add: reported_inv_def)
  next
    case (act ts a as us now)
    then show ?thesis
      using recorded_act [OF act(2) inv(3)] reported_act [OF act(2)] inv by (simp add: reported_inv_def)
  next
    case (round ident t answer readings)
    then show ?thesis using starts service_round_only by blast
  qed
  then show ?thesis
    using assms service_step_store service_step_throttle starts_posts inv(4)
    unfolding service_inv_def reported_inv_def by blast
qed

lemma service_reachable_inv: "service_reachable w l sv \<Longrightarrow> service_inv w l sv"
proof (induction rule: service_reachable.induct)
  case init
  have "finished_jobs new_store = {}" "stamped_inv new_store"
    by (simp_all add: finished_jobs_def stamped_inv_def new_store_def)
  then show ?case
    by (cases l) (simp_all add: service_inv_def service_init_def store_reachable.start throttle_ok_def
        recorded_inv_def reported_inv_def)
qed (rule service_step_inv)

text \<open>When no goroutine has anything left to do, the history holds exactly the finished jobs.\<close>

lemma quiet_to_record:
  assumes "list_all (\<lambda>as. as = []) ts"
  shows "to_record ts = [] \<and> to_notify ts = {}"
proof -
  have none: "concat ts = []" using assms by (induction ts) auto
  show ?thesis unfolding to_record_def to_notify_def none by simp
qed

section \<open>The service as a starter\<close>

text \<open>The scheduler of the service meets the manager through the same contract.\<close>

lemma service_start_manager:
  "fst (service_start w ident now t req sv) = fst (manager_starts (wired_manager w sv) ident now t req (se_store sv))"
  "se_store (snd (service_start w ident now t req sv)) = snd (manager_starts (wired_manager w sv) ident now t req (se_store sv))"
  by (simp_all add: service_start_def manager_starts_def split: prod.split)

interpretation svc: update_starter service_busy "service_start w ident now" for w ident now
proof
  fix t req n and sv :: service
  let ?m = "wired_manager w sv"
  show "fst (service_start w ident now t req sv) \<longleftrightarrow> \<not> service_busy (t_name t) sv"
    by (simp add: service_start_manager service_busy_def mgr.starts)
  show "service_busy (t_name t) (snd (service_start w ident now t req sv))"
    if "fst (service_start w ident now t req sv)"
    using that mgr.started [of ?m] by (simp add: service_start_manager service_busy_def)
  show "snd (service_start w ident now t req sv) = sv"
    if "\<not> fst (service_start w ident now t req sv)"
  proof -
    obtain e j as st' where m: "manager_start ?m ident now t req (se_store sv) = ((e, j, as), st')"
      by (metis surj_pair)
    then have "e \<noteq> None" using that by (simp add: service_start_def)
    with m manager_start_busy [OF m] show ?thesis
      by (auto simp: service_start_def spawn_def split: if_splits)
  qed
  show "service_busy n (snd (service_start w ident now t req sv)) = service_busy n sv" if "n \<noteq> t_name t"
    using mgr.others [OF that, of ?m] by (simp add: service_start_manager service_busy_def)
qed

end
