(* ===== verification/Cli_Root.thy ===== *)
theory Cli_Root
  imports Config
begin

text \<open>
  \<open>cli/root.go\<close> and \<open>version/version.go\<close>: the command table, the spellings of \<open>help\<close> and
  \<open>version\<close>, the dispatch, and the flags, with the part of package \<open>flag\<close> they use.  Text that
  is printed is a list of lines.
\<close>

section \<open>Text\<close>

text \<open>\<open>%-*s\<close>: the width counts runes.\<close>

definition pad_right :: "nat \<Rightarrow> string \<Rightarrow> string" where
  "pad_right n s = s @ replicate (n - length (utf8_chunks s)) (CHR '' '')"

definition plural_text :: "nat \<Rightarrow> string \<Rightarrow> string \<Rightarrow> string" where
  "plural_text n one many = (if n = 1 then one else many)"

definition joined_or :: "string list \<Rightarrow> string \<Rightarrow> string" where
  "joined_or values fallback = (if values = [] then fallback else join '','' values)"

definition or_dash :: "string \<Rightarrow> string" where
  "or_dash s = (if s = [] then ''-'' else s)"

definition clip_tail :: "string \<Rightarrow> nat \<Rightarrow> string" where
  "clip_tail s mx = (if length s \<le> mx then s else ''...'' @ drop (length s - mx + 3) s)"

definition clip_head :: "string \<Rightarrow> nat \<Rightarrow> string" where
  "clip_head s mx = (if length s \<le> mx then s else take (mx - 3) s @ ''...'')"

definition api_url :: "config \<Rightarrow> string" where
  "api_url c = (if tls_is_enabled (c_tls c) then ''https://'' else ''http://'') @ c_listen c"

section \<open>The build\<close>

record build =
  bd_version :: string
  bd_commit :: string
  bd_date :: string
  bd_go :: string
  bd_os :: string
  bd_arch :: string

definition short_commit :: "build \<Rightarrow> string" where
  "short_commit b = (if 7 < length (bd_commit b) then take 7 (bd_commit b) else bd_commit b)"

definition version_info :: "build \<Rightarrow> string \<Rightarrow> string" where
  "version_info b binary = binary @ '' '' @ bd_version b @ '' ('' @ short_commit b @ '')''"

definition source_url :: string where
  "source_url = ''https://github.com/9technologygroup/docker-updater''"

definition version_full :: "build \<Rightarrow> string \<Rightarrow> string list" where
  "version_full b binary =
     [binary @ '' '' @ bd_version b,
      ''  commit:  '' @ bd_commit b,
      ''  built:   '' @ bd_date b,
      ''  go:      '' @ bd_go b,
      ''  os/arch: '' @ bd_os b @ ''/'' @ bd_arch b,
      ''  licence: AGPL-3.0-or-later'',
      ''  source:  '' @ source_url]"

section \<open>Commands\<close>

definition default_config_path :: string where "default_config_path = ''/etc/dup/config.yml''"

datatype group = GroupSetup | GroupDaily | GroupUnit

fun group_title :: "group \<Rightarrow> string" where
  "group_title GroupSetup = ''Set up, in this order''"
| "group_title GroupDaily = ''Day to day''"
| "group_title GroupUnit = ''Run by systemd''"

definition group_order :: "group list" where
  "group_order = [GroupSetup, GroupDaily, GroupUnit]"

record command =
  cm_name :: string
  cm_group :: group
  cm_summary :: string

definition command_of :: "string \<Rightarrow> group \<Rightarrow> string \<Rightarrow> command" where
  "command_of n g s = \<lparr>cm_name = n, cm_group = g, cm_summary = s\<rparr>"

definition commands :: "command list" where
  "commands =
     [command_of ''check'' GroupSetup ''validate the config file and exit'',
      command_of ''audit'' GroupSetup ''verify the service account cannot rewrite what runs as root'',
      command_of ''cert'' GroupSetup ''generate the self-signed TLS certificate (root)'',
      command_of ''auth'' GroupSetup ''store per-stack registry credentials (root)'',
      command_of ''notify'' GroupSetup ''send a test notification to the outbound webhook'',
      command_of ''list'' GroupDaily ''show configured stacks, their update policy, and what dup is not covering'',
      command_of ''logs'' GroupDaily ''show finished updates, newest first. --job <id> for one in full'',
      command_of ''status'' GroupDaily ''alias for logs'',
      command_of ''scan'' GroupDaily ''check every stack against its registry now, without updating'',
      command_of ''update'' GroupDaily ''trigger an update for one stack, --force to recreate regardless'',
      command_of ''version'' GroupDaily ''print the version and check for a newer release'',
      command_of ''serve'' GroupUnit ''run the unprivileged HTTP API'']"

definition aliases :: "(string \<times> string) list" where
  "aliases =
     [(''v'', ''version''), (''ver'', ''version''), (''version'', ''version''),
      (''h'', ''help''), (''help'', ''help'')]"

text \<open>At most two dashes in front of an alias.\<close>

definition strip_dash :: "string \<Rightarrow> string" where
  "strip_dash s = (case s of c # cs \<Rightarrow> if c = CHR ''-'' then cs else s | [] \<Rightarrow> s)"

definition canonical :: "string \<Rightarrow> string option" where
  "canonical arg =
     (let trimmed = strip_dash (strip_dash arg)
      in if trimmed = [] \<or> has_prefix trimmed ''-'' then None
         else map_of aliases (to_lower trimmed))"

definition command_name :: "string \<Rightarrow> string" where
  "command_name arg = (case canonical arg of Some c \<Rightarrow> c | None \<Rightarrow> arg)"

datatype cli_action = PrintUsage | Execute string "string list" | UnknownCommand string

lemma strip_dash_help: "to_lower ''help'' = ''help''"
  by (simp add: to_lower_def utf8_chunks_ascii lower_chunk_def byte_def)

lemma canonical_help: "canonical ''help'' = Some ''help''"
  by (simp add: canonical_def strip_dash_def strip_dash_help aliases_def)

text \<open>\<open>Run\<close>: \<open>dup help x\<close> runs \<open>x -h\<close>, unless \<open>x\<close> is itself a spelling of \<open>help\<close>.\<close>

function cli_dispatch :: "string list \<Rightarrow> cli_action" where
  "cli_dispatch args =
     (case args of
        [] \<Rightarrow> PrintUsage
      | a # rest \<Rightarrow>
          (let name = command_name a
           in if name = ''help'' then
                (case rest of
                   [] \<Rightarrow> PrintUsage
                 | sub # others \<Rightarrow>
                     if canonical sub = Some ''help'' then PrintUsage else cli_dispatch [sub, ''-h''])
              else if list_ex (\<lambda>c. cm_name c = name) commands then Execute name rest
              else UnknownCommand a))"
  by pat_completeness auto

termination
proof (relation "measure (\<lambda>args. case args of [] \<Rightarrow> 0 | a # rest \<Rightarrow> if command_name a = ''help'' then 1 else 0)")
  fix args :: "string list" and a rest name sub others
  assume a: "args = a # rest" "name = command_name a" "name = ''help''" "rest = sub # others"
    and s: "canonical sub \<noteq> Some ''help''"
  have "command_name sub \<noteq> ''help''"
    using s canonical_help by (auto simp: command_name_def split: option.splits)
  then show "([sub, ''-h''], args) \<in> measure (\<lambda>args. case args of [] \<Rightarrow> 0 | a # rest \<Rightarrow> if command_name a = ''help'' then 1 else 0)"
    using a by simp
qed simp

declare cli_dispatch.simps [simp del]

definition usage :: "build \<Rightarrow> string list" where
  "usage b =
     (let width = Max (set (map (\<lambda>c. length (cm_name c)) commands))
      in [''dup '' @ bd_version b @ '' - webhook driven Docker Compose updates with health checks and rollback'', [],
          ''usage: dup <command> [flags]'']
         @ concat (map (\<lambda>g. [[], group_title g]
             @ map (\<lambda>c. ''  '' @ pad_right width (cm_name c) @ ''  '' @ cm_summary c)
                 [c \<leftarrow> commands. cm_group c = g]) group_order)
         @ [[], ''run 'dup <command> -h' for the flags a command takes'',
            ''config defaults to '' @ default_config_path])"

section \<open>Flags\<close>

text \<open>A flag is boolean, or takes a value that its parser accepts.\<close>

datatype flag_kind = BoolFlag | ValueFlag "string \<Rightarrow> bool"

type_synonym flag_set = "(string \<times> flag_kind) list"

datatype flag_error =
    BadSyntax string | NotDefined string | NeedsArgument string | BadValue string string | HelpRequested

definition parse_bool :: "string \<Rightarrow> bool option" where
  "parse_bool s =
     (if s \<in> set [''1'', ''t'', ''T'', ''TRUE'', ''true'', ''True''] then Some True
      else if s \<in> set [''0'', ''f'', ''F'', ''FALSE'', ''false'', ''False''] then Some False
      else None)"

text \<open>
  \<open>FlagSet.parseOne\<close>: \<open>None\<close> when the first argument is not a flag, with the arguments that are
  left; otherwise the name and value that were set.
\<close>

definition flag_value ::
  "flag_set \<Rightarrow> string \<Rightarrow> string option \<Rightarrow> string list \<Rightarrow> flag_error + string \<times> string list" where
  "flag_value fs name given rest =
     (case map_of fs name of
        None \<Rightarrow>
          if name = ''help'' \<or> name = ''h'' then Inl HelpRequested else Inl (NotDefined name)
      | Some BoolFlag \<Rightarrow>
          (let v = (case given of None \<Rightarrow> ''true'' | Some v \<Rightarrow> v)
           in if parse_bool v = None then Inl (BadValue name v) else Inr (v, rest))
      | Some (ValueFlag ok) \<Rightarrow>
          (case (given, rest) of
             (Some v, _) \<Rightarrow> if ok v then Inr (v, rest) else Inl (BadValue name v)
           | (None, v # rest') \<Rightarrow> if ok v then Inr (v, rest') else Inl (BadValue name v)
           | (None, []) \<Rightarrow> Inl (NeedsArgument name)))"

definition split_flag :: "string \<Rightarrow> string \<times> string option" where
  "split_flag nm =
     (case nm of
        [] \<Rightarrow> ([], None)
      | c # cs \<Rightarrow>
          (case cut (CHR ''='') cs of (b, v, found) \<Rightarrow> if found then (c # b, Some v) else (nm, None)))"

definition parse_one :: "flag_set \<Rightarrow> string list \<Rightarrow> flag_error + (string \<times> string) option \<times> string list" where
  "parse_one fs args =
     (case args of
        [] \<Rightarrow> Inr (None, [])
      | s # rest \<Rightarrow>
          if length s < 2 \<or> hd s \<noteq> CHR ''-'' then Inr (None, args)
          else if s = ''--'' then Inr (None, rest)
          else
            (let nm = (if s ! 1 = CHR ''-'' then drop 2 s else drop 1 s)
             in if nm = [] \<or> hd nm = CHR ''-'' \<or> hd nm = CHR ''='' then Inl (BadSyntax s)
                else (case split_flag nm of
                        (name, given) \<Rightarrow>
                          (case flag_value fs name given rest of
                             Inl e \<Rightarrow> Inl e
                           | Inr (v, rest') \<Rightarrow> Inr (Some (name, v), rest')))))"

lemma parse_one_shorter:
  "parse_one fs args = Inr (Some nv, rest) \<Longrightarrow> length rest < length args"
  by (auto simp: parse_one_def flag_value_def Let_def split: list.splits if_splits prod.splits
      sum.splits option.splits flag_kind.splits)

text \<open>\<open>FlagSet.Parse\<close>: the settings in the order they were made, and the arguments left.\<close>

function parse_set :: "flag_set \<Rightarrow> string list \<Rightarrow> flag_error + (string \<times> string) list \<times> string list" where
  "parse_set fs args =
     (case parse_one fs args of
        Inl e \<Rightarrow> Inl e
      | Inr (None, rest) \<Rightarrow> Inr ([], rest)
      | Inr (Some nv, rest) \<Rightarrow>
          (case parse_set fs rest of
             Inl e \<Rightarrow> Inl e
           | Inr (nvs, rest') \<Rightarrow> Inr (nv # nvs, rest')))"
  by pat_completeness auto
termination
  by (relation "measure (\<lambda>(fs, args). length args)") (auto dest: parse_one_shorter)

declare parse_set.simps [simp del]

lemma parse_one_rest: "parse_one fs args = Inr (nv, rest) \<Longrightarrow> length rest \<le> length args"
  by (auto simp: parse_one_def flag_value_def Let_def split: list.splits if_splits prod.splits
      sum.splits option.splits flag_kind.splits)

lemma parse_set_rest: "parse_set fs args = Inr (nvs, rest) \<Longrightarrow> length rest \<le> length args"
proof (induction fs args arbitrary: nvs rest rule: parse_set.induct)
  case (1 fs args)
  obtain nv r1 where p: "parse_one fs args = Inr (nv, r1)"
    using "1.prems" by (auto simp: parse_set.simps [of fs args] split: sum.splits)
  show ?case
  proof (cases nv)
    case None
    then show ?thesis using "1.prems" p parse_one_rest [OF p] by (simp add: parse_set.simps [of fs args])
  next
    case (Some x)
    then obtain nvs' where "parse_set fs r1 = Inr (nvs', rest)"
      using "1.prems" p by (auto simp: parse_set.simps [of fs args] split: sum.splits)
    with "1.IH" [OF p refl Some] parse_one_rest [OF p] show ?thesis by simp
  qed
qed

text \<open>\<open>parseFlags\<close>: parse again behind every positional argument.\<close>

function parse_flags :: "flag_set \<Rightarrow> string list \<Rightarrow> flag_error + string list \<times> (string \<times> string) list" where
  "parse_flags fs args =
     (case parse_set fs args of
        Inl e \<Rightarrow> Inl e
      | Inr (nvs, []) \<Rightarrow> Inr ([], nvs)
      | Inr (nvs, p # rest) \<Rightarrow>
          (case parse_flags fs rest of
             Inl e \<Rightarrow> Inl e
           | Inr (ps, nvs') \<Rightarrow> Inr (p # ps, nvs @ nvs')))"
  by pat_completeness auto
termination
  by (relation "measure (\<lambda>(fs, args). length args)") (auto dest: parse_set_rest)

declare parse_flags.simps [simp del]

datatype arg_error = FlagError flag_error | UsageError string

definition one_target ::
  "flag_set \<Rightarrow> string list \<Rightarrow> string \<Rightarrow> arg_error + string \<times> (string \<times> string) list" where
  "one_target fs args usage_line =
     (case parse_flags fs args of
        Inl e \<Rightarrow> Inl (FlagError e)
      | Inr ([], nvs) \<Rightarrow> Inr ([], nvs)
      | Inr ([p], nvs) \<Rightarrow> Inr (p, nvs)
      | Inr _ \<Rightarrow> Inl (UsageError (''usage: '' @ usage_line)))"

definition no_args :: "flag_set \<Rightarrow> string list \<Rightarrow> string \<Rightarrow> arg_error + (string \<times> string) list" where
  "no_args fs args name =
     (case parse_flags fs args of
        Inl e \<Rightarrow> Inl (FlagError e)
      | Inr ([], nvs) \<Rightarrow> Inr nvs
      | Inr (p # ps, nvs) \<Rightarrow> Inl (UsageError (''dup '' @ name @ '' takes no arguments, got '' @ quote p)))"

text \<open>The value a flag has in the end: the last one set, or its default.\<close>

definition flag_get :: "(string \<times> string) list \<Rightarrow> string \<Rightarrow> string \<Rightarrow> string" where
  "flag_get nvs name dflt = (case map_of (rev nvs) name of None \<Rightarrow> dflt | Some v \<Rightarrow> v)"

definition flag_bool :: "(string \<times> string) list \<Rightarrow> string \<Rightarrow> bool" where
  "flag_bool nvs name \<longleftrightarrow> parse_bool (flag_get nvs name ''false'') = Some True"

definition new_flag_set :: "flag_set" where
  "new_flag_set = [(''config'', ValueFlag (\<lambda>v. True))]"

section \<open>Flags and arguments in any order\<close>

text \<open>What a command line is made of; \<open>dashes\<close> is one dash or two.\<close>

datatype arg_item =
    Positional string
  | SetBool bool string
  | SetInline bool string string
  | SetNext bool string string

definition dashes :: "bool \<Rightarrow> string" where
  "dashes two = (if two then ''--'' else ''-'')"

fun tokens :: "arg_item \<Rightarrow> string list" where
  "tokens (Positional p) = [p]"
| "tokens (SetBool d n) = [dashes d @ n]"
| "tokens (SetInline d n v) = [dashes d @ n @ CHR ''='' # v]"
| "tokens (SetNext d n v) = [dashes d @ n, v]"

fun positionals :: "arg_item list \<Rightarrow> string list" where
  "positionals [] = []"
| "positionals (Positional p # items) = p # positionals items"
| "positionals (_ # items) = positionals items"

fun settings :: "arg_item list \<Rightarrow> (string \<times> string) list" where
  "settings [] = []"
| "settings (Positional p # items) = settings items"
| "settings (SetBool d n # items) = (n, ''true'') # settings items"
| "settings (SetInline d n v # items) = (n, v) # settings items"
| "settings (SetNext d n v # items) = (n, v) # settings items"

definition flag_name :: "string \<Rightarrow> bool" where
  "flag_name n \<longleftrightarrow> n \<noteq> [] \<and> hd n \<noteq> CHR ''-'' \<and> CHR ''='' \<notin> set n"

fun item_ok :: "flag_set \<Rightarrow> arg_item \<Rightarrow> bool" where
  "item_ok fs (Positional p) = (length p < 2 \<or> hd p \<noteq> CHR ''-'')"
| "item_ok fs (SetBool d n) = (flag_name n \<and> map_of fs n = Some BoolFlag)"
| "item_ok fs (SetInline d n v) =
     (flag_name n \<and> (case map_of fs n of
        None \<Rightarrow> False | Some BoolFlag \<Rightarrow> parse_bool v \<noteq> None | Some (ValueFlag ok) \<Rightarrow> ok v))"
| "item_ok fs (SetNext d n v) =
     (flag_name n \<and> (case map_of fs n of Some (ValueFlag ok) \<Rightarrow> ok v | _ \<Rightarrow> False))"

lemma split_flag_plain: "flag_name n \<Longrightarrow> split_flag n = (n, None)"
  by (cases n) (auto simp: split_flag_def flag_name_def)

lemma split_flag_inline: "flag_name n \<Longrightarrow> split_flag (n @ CHR ''='' # v) = (n, Some v)"
  by (cases n) (auto simp: split_flag_def flag_name_def)

lemma parse_one_flag:
  assumes "flag_name n"
  shows "parse_one fs ((dashes d @ n @ x) # rest) =
    (case split_flag (n @ x) of
       (name, given) \<Rightarrow>
         (case flag_value fs name given rest of
            Inl e \<Rightarrow> Inl e
          | Inr (v, rest') \<Rightarrow> Inr (Some (name, v), rest')))"
proof -
  obtain c cs where n: "n = c # cs" "c \<noteq> CHR ''-''" "c \<noteq> CHR ''=''"
    using assms by (cases n) (auto simp: flag_name_def)
  then show ?thesis by (simp add: parse_one_def dashes_def Let_def)
qed

lemma parse_flags_positional:
  assumes "length p < 2 \<or> hd p \<noteq> CHR ''-''"
  shows "parse_flags fs (p # rest) =
    (case parse_flags fs rest of Inl e \<Rightarrow> Inl e | Inr (ps, nvs) \<Rightarrow> Inr (p # ps, nvs))"
proof -
  have "parse_one fs (p # rest) = Inr (None, p # rest)" using assms by (simp add: parse_one_def)
  then have "parse_set fs (p # rest) = Inr ([], p # rest)" by (simp add: parse_set.simps)
  then show ?thesis by (simp add: parse_flags.simps [of fs "p # rest"] split: sum.split)
qed

lemma parse_flags_setting:
  assumes "parse_one fs args = Inr (Some nv, rest)"
  shows "parse_flags fs args =
    (case parse_flags fs rest of Inl e \<Rightarrow> Inl e | Inr (ps, nvs) \<Rightarrow> Inr (ps, nv # nvs))"
proof -
  note unfold = parse_flags.simps [of fs args] parse_flags.simps [of fs rest] parse_set.simps [of fs args]
  show ?thesis
  proof (cases "parse_set fs rest")
    case (Inl e)
    then show ?thesis using assms by (simp add: unfold)
  next
    case (Inr r)
    obtain nvs xs where r: "r = (nvs, xs)" by fastforce
    show ?thesis
    proof (cases xs)
      case Nil
      then show ?thesis using assms Inr r by (simp add: unfold)
    next
      case (Cons p ys)
      then show ?thesis
        using assms Inr r by (cases "parse_flags fs ys") (auto simp: unfold)
    qed
  qed
qed

lemma parse_one_tokens:
  assumes "item_ok fs it" and "positionals [it] = []"
  shows "parse_one fs (tokens it @ rest) = Inr (Some (hd (settings [it])), rest)"
proof (cases it)
  case (SetBool d n)
  have "parse_bool ''true'' = Some True" by (simp add: parse_bool_def)
  then show ?thesis
    using SetBool assms parse_one_flag [of n fs d "[]" rest] split_flag_plain [of n]
    by (simp add: flag_value_def)
next
  case (SetInline d n v)
  then have n: "flag_name n"
    and k: "case map_of fs n of None \<Rightarrow> False | Some BoolFlag \<Rightarrow> parse_bool v \<noteq> None | Some (ValueFlag ok) \<Rightarrow> ok v"
    using assms(1) by simp_all
  from k have v: "flag_value fs n (Some v) rest = Inr (v, rest)"
    unfolding flag_value_def by (cases "map_of fs n"; auto simp: Let_def split: flag_kind.splits)
  have "parse_one fs ((dashes d @ n @ CHR ''='' # v) # rest) = Inr (Some (n, v), rest)"
    unfolding parse_one_flag [OF n] split_flag_inline [OF n] by (simp add: v)
  then show ?thesis unfolding SetInline by simp
next
  case (SetNext d n v)
  then have n: "flag_name n"
    and k: "case map_of fs n of Some (ValueFlag ok) \<Rightarrow> ok v | _ \<Rightarrow> False"
    using assms(1) by simp_all
  from k have v: "flag_value fs n None (v # rest) = Inr (v, rest)"
    unfolding flag_value_def by (cases "map_of fs n"; auto split: flag_kind.splits)
  have "parse_one fs ((dashes d @ n) # v # rest) = Inr (Some (n, v), rest)"
    using parse_one_flag [OF n, of fs d "[]" "v # rest"] split_flag_plain [OF n] by (simp add: v)
  then show ?thesis unfolding SetNext by simp
qed (use assms in simp)

text \<open>However flags and arguments are mixed, what is read depends on neither's place.\<close>

lemma parse_flags_items:
  "list_all (item_ok fs) items \<Longrightarrow>
   parse_flags fs (concat (map tokens items)) = Inr (positionals items, settings items)"
proof (induction items)
  case Nil
  then show ?case by (simp add: parse_flags.simps [of fs "[]"] parse_set.simps [of fs "[]"] parse_one_def)
next
  case (Cons it items)
  show ?case
  proof (cases "positionals [it] = []")
    case True
    then have "parse_one fs (tokens it @ concat (map tokens items)) =
        Inr (Some (hd (settings [it])), concat (map tokens items))"
      using Cons.prems by (intro parse_one_tokens) auto
    from parse_flags_setting [OF this] Cons True show ?thesis by (cases it) auto
  next
    case False
    then obtain p where "it = Positional p" by (cases it) auto
    with Cons parse_flags_positional [of p fs] show ?thesis by auto
  qed
qed

text \<open>\<open>dup help\<close> never runs a command but to print its help, and a known command is run as given.\<close>

lemma cli_dispatch_known:
  assumes "command_name a \<noteq> ''help''" and "list_ex (\<lambda>c. cm_name c = command_name a) commands"
  shows "cli_dispatch (a # rest) = Execute (command_name a) rest"
  using assms by (simp add: cli_dispatch.simps Let_def)

lemma cli_dispatch_help:
  "command_name a = ''help'' \<Longrightarrow> cli_dispatch (a # rest) = PrintUsage
     \<or> (\<exists>n. cli_dispatch (a # rest) = Execute n [''-h'']) \<or> (\<exists>n. cli_dispatch (a # rest) = UnknownCommand n)"
proof (cases rest)
  case Nil
  assume "command_name a = ''help''"
  with Nil show ?thesis by (simp add: cli_dispatch.simps [of "[a]"])
next
  case (Cons b bs)
  assume h: "command_name a = ''help''"
  show ?thesis
  proof (cases "canonical b = Some ''help''")
    case True
    with h Cons show ?thesis by (simp add: cli_dispatch.simps [of "a # b # bs"])
  next
    case False
    then have "command_name b \<noteq> ''help''"
      using canonical_help by (auto simp: command_name_def split: option.splits)
    with h Cons False show ?thesis
      by (simp add: cli_dispatch.simps [of "a # b # bs"] cli_dispatch.simps [of "[b, ''-h'']"] Let_def)
  qed
qed

end
