(* ===== verification/Safe_Install.thy ===== *)
theory Safe_Install
  imports Main
begin

text \<open>
  The contract of a file that is replaced by writing a temporary file and renaming it: the store
  of credentials, a certificate, its key, and the cache of the update check.  \<open>put\<close> installs a
  content and tells whether it could, \<open>get\<close> is what a reader then finds, \<open>enc\<close> how it is written.
\<close>

fun put_all :: "('c \<Rightarrow> 'd \<Rightarrow> bool \<times> 'd) \<Rightarrow> 'c list \<Rightarrow> 'd \<Rightarrow> 'd" where
  "put_all put [] d = d"
| "put_all put (c # cs) d = put_all put cs (snd (put c d))"

locale safe_install =
  fixes put :: "'c \<Rightarrow> 'd \<Rightarrow> bool \<times> 'd" and get :: "'d \<Rightarrow> 'f option" and enc :: "'c \<Rightarrow> 'f"
  assumes put_ok: "put c d = (True, d') \<Longrightarrow> get d' = Some (enc c)"
    and put_failed: "put c d = (False, d') \<Longrightarrow> get d' = get d"
begin

lemma put_cases: "get (snd (put c d)) = (if fst (put c d) then Some (enc c) else get d)"
  using put_ok [of c d] put_failed [of c d] by (cases "put c d"; cases "fst (put c d)") auto

text \<open>A reader never finds a part of a content, whatever failed.\<close>

lemma never_torn: "get (put_all put cs d) \<in> insert (get d) (Some ` enc ` set cs)"
proof (induction cs arbitrary: d)
  case (Cons c cs)
  from Cons.IH [of "snd (put c d)"] show ?case by (auto simp: put_cases split: if_splits)
qed simp

text \<open>The last content that could be installed stays.\<close>

lemma put_all_append: "put_all put (cs @ [c]) d = snd (put c (put_all put cs d))"
  by (induction cs arbitrary: d) simp_all

lemma last_stays:
  "get (put_all put (cs @ [c]) d) =
     (if fst (put c (put_all put cs d)) then Some (enc c) else get (put_all put cs d))"
  by (simp add: put_all_append put_cases)

end

end
