(* ===== verification/Certs.thy ===== *)
theory Certs
  imports Cli_Root Service Safe_Install
begin

text \<open>
  \<open>internal/certs\<close> and \<open>cli/cert.go\<close>: generating a self-signed pair and installing it.  Keys,
  signatures, DER and the hash are library code, a record of parameters; a key is a number, and
  what the program relies on is which key a certificate was created for.
\<close>

section \<open>Files\<close>

record pem_file =
  pf_mode :: "32 word"
  pf_uid :: nat
  pf_gid :: nat
  pf_text :: string

type_synonym pem_disk = "string \<Rightarrow> pem_file option"

datatype pem_call =
    PemMkdir | PemOpen | PemEncode | PemClose | PemChmod | PemChown | PemRename | PemRemove

text \<open>
  Which calls fail for which path, how much a failing write leaves, the umask, and the effective
  user and group of the process.
\<close>

record pem_world =
  pw_fails :: "pem_call \<Rightarrow> string \<Rightarrow> bool"
  pw_written :: nat
  pw_umask :: "32 word"
  pw_euid :: nat
  pw_egid :: nat

datatype pem_error = CreateDir string | WritePem string | ChmodPem string | ChownPem string | RenamePem string

definition pem_remove :: "pem_world \<Rightarrow> string \<Rightarrow> pem_disk \<Rightarrow> pem_disk" where
  "pem_remove w p d = (if pw_fails w PemRemove p then d else d(p := None))"

text \<open>\<open>O_CREATE | O_TRUNC\<close>: an existing file keeps its mode and owner.\<close>

definition pem_open :: "pem_world \<Rightarrow> string \<Rightarrow> 32 word \<Rightarrow> pem_disk \<Rightarrow> pem_file" where
  "pem_open w p mode d =
     (case d p of
        None \<Rightarrow> \<lparr>pf_mode = and mode (not (pw_umask w)), pf_uid = pw_euid w, pf_gid = pw_egid w, pf_text = []\<rparr>
      | Some f \<Rightarrow> f\<lparr>pf_text := []\<rparr>)"

definition write_pem ::
  "pem_world \<Rightarrow> string \<Rightarrow> string \<Rightarrow> 32 word \<Rightarrow> int \<Rightarrow> pem_disk \<Rightarrow> pem_error option \<times> pem_disk" where
  "write_pem w path text mode gid d =
     (let tmp = path @ ''.tmp'' in
      if pw_fails w PemMkdir (dir path) then (Some (CreateDir (dir path)), d)
      else if pw_fails w PemOpen tmp then (Some (WritePem path), d)
      else
        (let f0 = pem_open w tmp mode d; f1 = f0\<lparr>pf_text := text\<rparr> in
         if pw_fails w PemEncode tmp
         then (Some (WritePem path), pem_remove w tmp (d(tmp \<mapsto> f0\<lparr>pf_text := take (pw_written w) text\<rparr>)))
         else if pw_fails w PemClose tmp then (Some (WritePem path), pem_remove w tmp (d(tmp \<mapsto> f1)))
         else if pw_fails w PemChmod tmp then (Some (ChmodPem path), pem_remove w tmp (d(tmp \<mapsto> f1)))
         else
           (let f2 = f1\<lparr>pf_mode := mode\<rparr>; own = (0 \<le> gid \<and> pw_euid w = 0);
                f3 = (if own then f2\<lparr>pf_uid := 0, pf_gid := nat gid\<rparr> else f2)
            in if own \<and> pw_fails w PemChown tmp then (Some (ChownPem path), pem_remove w tmp (d(tmp \<mapsto> f2)))
               else if pw_fails w PemRename tmp then (Some (RenamePem path), d(tmp \<mapsto> f3))
               else (None, d(tmp := None, path \<mapsto> f3)))))"

section \<open>Generating\<close>

record cert_template =
  ct_serial :: nat
  ct_common_name :: string
  ct_not_before :: time
  ct_not_after :: time
  ct_is_ca :: bool
  ct_ips :: "addr list"
  ct_dns :: "string list"

record cert_view =
  cv_dns :: "string list"
  cv_ips :: "addr list"
  cv_not_after :: time
  cv_raw :: string

record cert_crypto =
  cy_new_key :: "nat option"
  cy_serial :: "nat option"
  cy_create :: "cert_template \<Rightarrow> nat \<Rightarrow> string option"
  cy_marshal_key :: "nat \<Rightarrow> string option"
  cy_pem :: "string \<Rightarrow> string \<Rightarrow> string"
  cy_unpem :: "string \<Rightarrow> string option"
  cy_parse :: "string \<Rightarrow> cert_view option"
  cy_sha256 :: "string \<Rightarrow> nat list"
  cy_show_ip :: "addr \<Rightarrow> string"

record cert_result =
  cr_cert_file :: string
  cr_key_file :: string
  cr_fingerprint :: string
  cr_not_after :: time
  cr_hosts :: "string list"

definition validity :: duration where "validity = 5 * 365 * 24 * hour"

text \<open>\<open>there\<close> tells for which paths \<open>Stat\<close> succeeds.\<close>

definition certs_exists :: "(string \<Rightarrow> bool) \<Rightarrow> string \<Rightarrow> string \<Rightarrow> bool" where
  "certs_exists there cert_file key_file \<longleftrightarrow> there cert_file \<and> there key_file"

definition on_disk :: "pem_disk \<Rightarrow> string \<Rightarrow> bool" where
  "on_disk d p \<longleftrightarrow> d p \<noteq> None"

definition fingerprint :: "cert_crypto \<Rightarrow> string \<Rightarrow> string" where
  "fingerprint y der = join '':'' (map hex2 (cy_sha256 y der))"

definition primary_host :: "string list \<Rightarrow> string" where
  "primary_host hs = (case hs of [] \<Rightarrow> ''dup'' | h # _ \<Rightarrow> h)"

definition cert_template_of :: "host \<Rightarrow> time \<Rightarrow> time \<Rightarrow> nat \<Rightarrow> string list \<Rightarrow> cert_template" where
  "cert_template_of h now1 now2 serial hs =
     \<lparr>ct_serial = serial, ct_common_name = primary_host hs, ct_not_before = now1 - hour,
      ct_not_after = now2 + validity, ct_is_ca = False,
      ct_ips = List.map_filter (parse_ip h) hs, ct_dns = [x \<leftarrow> hs. parse_ip h x = None]\<rparr>"

datatype cert_error = KeyFailed | SerialFailed | CreateFailed | MarshalKeyFailed | PemFailed pem_error

definition cert_mode :: "32 word" where "cert_mode = 0x1A4"
definition key_mode :: "32 word" where "key_mode = 0x1A0"

definition generate ::
  "cert_crypto \<Rightarrow> pem_world \<Rightarrow> host \<Rightarrow> time \<Rightarrow> time \<Rightarrow> string \<Rightarrow> string \<Rightarrow> string list \<Rightarrow> int \<Rightarrow> pem_disk
   \<Rightarrow> (cert_error + cert_result) \<times> pem_disk" where
  "generate y w h now1 now2 cert_file key_file hs gid d =
     (case cy_new_key y of
        None \<Rightarrow> (Inl KeyFailed, d)
      | Some key \<Rightarrow>
     (case cy_serial y of
        None \<Rightarrow> (Inl SerialFailed, d)
      | Some serial \<Rightarrow>
          (let template = cert_template_of h now1 now2 serial hs in
     (case cy_create y template key of
        None \<Rightarrow> (Inl CreateFailed, d)
      | Some der \<Rightarrow>
     (case write_pem w cert_file (cy_pem y ''CERTIFICATE'' der) cert_mode gid d of
        (Some e, d1) \<Rightarrow> (Inl (PemFailed e), d1)
      | (None, d1) \<Rightarrow>
     (case cy_marshal_key y key of
        None \<Rightarrow> (Inl MarshalKeyFailed, d1)
      | Some kder \<Rightarrow>
     (case write_pem w key_file (cy_pem y ''EC PRIVATE KEY'' kder) key_mode gid d1 of
        (Some e, d2) \<Rightarrow> (Inl (PemFailed e), d2)
      | (None, d2) \<Rightarrow>
          (Inr \<lparr>cr_cert_file = cert_file, cr_key_file = key_file, cr_fingerprint = fingerprint y der,
                cr_not_after = ct_not_after template, cr_hosts = hs\<rparr>, d2))))))))"

datatype describe_error = CertUnread | NotPem string | NotCert string

definition describe_cert :: "cert_crypto \<Rightarrow> string \<Rightarrow> pem_disk \<Rightarrow> describe_error + cert_result" where
  "describe_cert y cert_file d =
     (case d cert_file of
        None \<Rightarrow> Inl CertUnread
      | Some f \<Rightarrow>
          (case cy_unpem y (pf_text f) of
             None \<Rightarrow> Inl (NotPem cert_file)
           | Some der \<Rightarrow>
               (case cy_parse y der of
                  None \<Rightarrow> Inl (NotCert cert_file)
                | Some v \<Rightarrow>
                    Inr \<lparr>cr_cert_file = cert_file, cr_key_file = [], cr_fingerprint = fingerprint y (cv_raw v),
                         cr_not_after = cv_not_after v,
                         cr_hosts = cv_dns v @ map (cy_show_ip y) (cv_ips v)\<rparr>)))"

fun dedupe_from :: "string list \<Rightarrow> string list \<Rightarrow> string list" where
  "dedupe_from seen [] = []"
| "dedupe_from seen (v # vs) =
     (if v = [] \<or> v \<in> set seen then dedupe_from seen vs else v # dedupe_from (v # seen) vs)"

definition dedupe :: "string list \<Rightarrow> string list" where "dedupe = dedupe_from []"

text \<open>\<open>DefaultHosts\<close>; \<open>host_name\<close> is what \<open>os.Hostname\<close> gives.\<close>

definition default_hosts :: "string option \<Rightarrow> string \<Rightarrow> string list" where
  "default_hosts host_name listen =
     dedupe
       ((case host_name of None \<Rightarrow> [] | Some n \<Rightarrow> if n = [] then [] else [n])
        @ [''localhost'', ''127.0.0.1'', ''::1'']
        @ (case split_host_port listen of
             None \<Rightarrow> []
           | Some (h, port) \<Rightarrow> if h \<noteq> [] \<and> h \<noteq> ''0.0.0.0'' \<and> h \<noteq> ''::'' then [h] else []))"

section \<open>\<open>dup cert\<close>\<close>

datatype cert_end =
    CertNotRoot | CertConfig config_error | CertTlsOff string | CertNotOurs string string string
  | CertNoPeer string | CertNoAccount string | CertKept cert_result | CertUndescribed describe_error
  | CertFailed cert_error | CertMade cert_result

definition write_cert ::
  "cert_crypto \<Rightarrow> pem_world \<Rightarrow> host \<Rightarrow> time \<Rightarrow> time \<Rightarrow> string \<Rightarrow> string \<Rightarrow> string list \<Rightarrow> int \<Rightarrow> bool \<Rightarrow> pem_disk
   \<Rightarrow> cert_end \<times> pem_disk" where
  "write_cert y w h now1 now2 cert_file key_file hs gid force d =
     (if certs_exists (on_disk d) cert_file key_file \<and> \<not> force
      then (case describe_cert y cert_file d of
              Inl e \<Rightarrow> (CertUndescribed e, d)
            | Inr r \<Rightarrow> (CertKept r, d))
      else (case generate y w h now1 now2 cert_file key_file hs gid d of
              (Inl e, d') \<Rightarrow> (CertFailed e, d')
            | (Inr r, d') \<Rightarrow> (CertMade r, d')))"

definition generate_default ::
  "cert_crypto \<Rightarrow> pem_world \<Rightarrow> host \<Rightarrow> string option \<Rightarrow> (string \<Rightarrow> int option) \<Rightarrow> time \<Rightarrow> time \<Rightarrow> bool \<Rightarrow> pem_disk
   \<Rightarrow> cert_end \<times> pem_disk" where
  "generate_default y w h host_name accounts now1 now2 force d =
     (case accounts ''dup'' of
        None \<Rightarrow> (CertNoAccount ''dup'', d)
      | Some gid \<Rightarrow>
          write_cert y w h now1 now2 default_cert_file default_key_file
            (default_hosts host_name default_listen) gid force d)"

definition run_cert ::
  "cert_crypto \<Rightarrow> pem_world \<Rightarrow> host \<Rightarrow> string option \<Rightarrow> (string \<Rightarrow> int option) \<Rightarrow> time \<Rightarrow> time \<Rightarrow> string
   \<Rightarrow> config_error + config \<Rightarrow> bool \<Rightarrow> bool \<Rightarrow> pem_disk \<Rightarrow> cert_end \<times> pem_disk" where
  "run_cert y w h host_name accounts now1 now2 cfg_path loaded force defaults d =
     (if pw_euid w \<noteq> 0 then (CertNotRoot, d)
      else if defaults then generate_default y w h host_name accounts now1 now2 force d
      else (case loaded of
        Inl e \<Rightarrow> (CertConfig e, d)
      | Inr c \<Rightarrow>
          let t = c_tls c in
          if \<not> tls_is_enabled t then (CertTlsOff cfg_path, d)
          else if \<not> tls_self_signed t then (CertNotOurs (tls_cert_file t) (tls_key_file t) cfg_path, d)
          else if c_agent_peer_user c = [] then (CertNoPeer cfg_path, d)
          else (case accounts (c_agent_peer_user c) of
                  None \<Rightarrow> (CertNoAccount (c_agent_peer_user c), d)
                | Some gid \<Rightarrow>
                    write_cert y w h now1 now2 (tls_cert_file t) (tls_key_file t)
                      (if tls_hosts t = [] then default_hosts host_name (c_listen c) else tls_hosts t)
                      gid force d)))"

section \<open>Installing one file\<close>

definition owned :: "pem_world \<Rightarrow> int \<Rightarrow> pem_file \<Rightarrow> bool" where
  "owned w gid f \<longleftrightarrow> (0 \<le> gid \<and> pw_euid w = 0 \<longrightarrow> pf_uid f = 0 \<and> pf_gid f = nat gid)"

lemma tmp_other [simp]: "path @ ''.tmp'' \<noteq> path" "path \<noteq> path @ ''.tmp''"
  by simp_all

lemma write_pem_result:
  assumes "write_pem w path text mode gid d = (e, d')"
  shows "e \<noteq> None \<Longrightarrow> d' path = d path"
    and "e = None \<Longrightarrow> d' (path @ ''.tmp'') = None
           \<and> (\<exists>f. d' path = Some f \<and> pf_mode f = mode \<and> pf_text f = text \<and> owned w gid f)"
    and "q \<noteq> path \<Longrightarrow> q \<noteq> path @ ''.tmp'' \<Longrightarrow> d' q = d q"
  using assms by (auto simp: write_pem_def pem_remove_def owned_def Let_def split: if_splits)

definition pem_put ::
  "pem_world \<Rightarrow> string \<Rightarrow> 32 word \<Rightarrow> int \<Rightarrow> string \<Rightarrow> pem_disk \<Rightarrow> bool \<times> pem_disk" where
  "pem_put w path mode gid text d = (case write_pem w path text mode gid d of (e, d') \<Rightarrow> (e = None, d'))"

interpretation pem_file: safe_install "pem_put w path mode gid"
    "\<lambda>d. map_option (\<lambda>f. (pf_mode f, pf_text f)) (d path)" "\<lambda>text. (mode, text)" for w path mode gid
  by unfold_locales (auto simp: pem_put_def dest: write_pem_result(1,2) split: prod.splits)

text \<open>Where no stale temporary file was, none is left that others than owner and group can use.\<close>

definition closed_to_others :: "pem_file \<Rightarrow> bool" where
  "closed_to_others f \<longleftrightarrow> and (pf_mode f) 7 = 0"

lemma key_mode_closed: "and (and key_mode m) 7 = 0" "and key_mode 7 = 0"
proof -
  have "and (and key_mode m) 7 = and (and key_mode 7) m" by (simp only: ac_simps)
  then show "and (and key_mode m) 7 = 0" "and key_mode 7 = 0" by (simp_all add: key_mode_def)
qed

lemma key_tmp_closed:
  assumes "write_pem w path text key_mode gid d = (e, d')" and "d (path @ ''.tmp'') = None"
    and "d' (path @ ''.tmp'') = Some f"
  shows "closed_to_others f"
  using assms
  by (auto simp: write_pem_def pem_remove_def pem_open_def closed_to_others_def key_mode_closed Let_def
      split: if_splits)

section \<open>The pair\<close>

definition new_cert :: "cert_crypto \<Rightarrow> pem_world \<Rightarrow> nat \<Rightarrow> cert_template \<Rightarrow> int \<Rightarrow> pem_file option \<Rightarrow> bool" where
  "new_cert y w key t gid f \<longleftrightarrow>
     (\<exists>der g. cy_create y t key = Some der \<and> f = Some g \<and> pf_text g = cy_pem y ''CERTIFICATE'' der
        \<and> pf_mode g = cert_mode \<and> owned w gid g)"

definition new_key :: "cert_crypto \<Rightarrow> pem_world \<Rightarrow> nat \<Rightarrow> int \<Rightarrow> pem_file option \<Rightarrow> bool" where
  "new_key y w key gid f \<longleftrightarrow>
     (\<exists>der g. cy_marshal_key y key = Some der \<and> f = Some g \<and> pf_text g = cy_pem y ''EC PRIVATE KEY'' der
        \<and> pf_mode g = key_mode \<and> closed_to_others g \<and> owned w gid g)"

definition apart :: "string \<Rightarrow> string \<Rightarrow> bool" where
  "apart p q \<longleftrightarrow> p \<noteq> q \<and> p \<noteq> q @ ''.tmp'' \<and> q \<noteq> p @ ''.tmp''"

lemma write_pem_apart:
  "write_pem w p text mode gid d = (e, d') \<Longrightarrow> apart p q \<Longrightarrow> d' q = d q"
  "write_pem w q text mode gid d = (e, d') \<Longrightarrow> apart p q \<Longrightarrow> d' p = d p"
  using write_pem_result(3) by (auto simp: apart_def)

lemma generate_ok:
  assumes "generate y w h now1 now2 cert_file key_file hs gid d = (Inr r, d')" and "apart cert_file key_file"
  shows "\<exists>key serial. cy_new_key y = Some key
    \<and> new_cert y w key (cert_template_of h now1 now2 serial hs) gid (d' cert_file)
    \<and> new_key y w key gid (d' key_file)"
proof -
  obtain key serial der kder d1 where k: "cy_new_key y = Some key"
    and c: "cy_create y (cert_template_of h now1 now2 serial hs) key = Some der"
    and w1: "write_pem w cert_file (cy_pem y ''CERTIFICATE'' der) cert_mode gid d = (None, d1)"
    and m: "cy_marshal_key y key = Some kder"
    and w2: "write_pem w key_file (cy_pem y ''EC PRIVATE KEY'' kder) key_mode gid d1 = (None, d')"
    using assms(1) by (auto simp: generate_def Let_def split: option.splits prod.splits)
  have "d' cert_file = d1 cert_file" by (rule write_pem_apart(2) [OF w2 assms(2)])
  with write_pem_result(2) [OF w1] c
  have "new_cert y w key (cert_template_of h now1 now2 serial hs) gid (d' cert_file)"
    by (auto simp: new_cert_def)
  moreover have "new_key y w key gid (d' key_file)"
    using write_pem_result(2) [OF w2] m by (auto simp: new_key_def closed_to_others_def key_mode_closed)
  ultimately show ?thesis using k by blast
qed

text \<open>A failure leaves the old key, beside the old certificate or beside one for the new key.\<close>

lemma generate_fails:
  assumes "generate y w h now1 now2 cert_file key_file hs gid d = (Inl e, d')" and "apart cert_file key_file"
  shows "d' key_file = d key_file
    \<and> (d' cert_file = d cert_file
       \<or> (\<exists>key t. cy_new_key y = Some key \<and> new_cert y w key t gid (d' cert_file)))"
proof -
  consider "d' = d"
    | key t der e1 where "cy_new_key y = Some key" "cy_create y t key = Some der"
        "write_pem w cert_file (cy_pem y ''CERTIFICATE'' der) cert_mode gid d = (Some e1, d')"
    | key t der where "cy_new_key y = Some key" "cy_create y t key = Some der"
        "write_pem w cert_file (cy_pem y ''CERTIFICATE'' der) cert_mode gid d = (None, d')"
    | key t der d1 kder e2 where "cy_new_key y = Some key" "cy_create y t key = Some der"
        "write_pem w cert_file (cy_pem y ''CERTIFICATE'' der) cert_mode gid d = (None, d1)"
        "write_pem w key_file (cy_pem y ''EC PRIVATE KEY'' kder) key_mode gid d1 = (Some e2, d')"
    using assms(1) by (auto simp: generate_def Let_def split: option.splits prod.splits)
  then show ?thesis
  proof cases
    case (2 key t der e1)
    then show ?thesis using write_pem_result(1) [OF 2(3)] write_pem_apart(1) [OF 2(3) assms(2)] by simp
  next
    case (3 key t der)
    then have "new_cert y w key t gid (d' cert_file)"
      using write_pem_result(2) [OF 3(3)] by (auto simp: new_cert_def)
    moreover have "d' key_file = d key_file" by (rule write_pem_apart(1) [OF 3(3) assms(2)])
    ultimately show ?thesis using 3(1) by blast
  next
    case (4 key t der d1 kder e2)
    have "new_cert y w key t gid (d1 cert_file)"
      using write_pem_result(2) [OF 4(3)] 4(2) by (auto simp: new_cert_def)
    moreover have "d' cert_file = d1 cert_file" "d' key_file = d1 key_file"
      using write_pem_result(1) [OF 4(4)] write_pem_apart(2) [OF 4(4) assms(2)] by simp_all
    moreover have "d1 key_file = d key_file" by (rule write_pem_apart(1) [OF 4(3) assms(2)])
    ultimately show ?thesis using 4(1) by auto
  qed simp
qed

section \<open>The names of a certificate\<close>

lemma dedupe_from_result:
  "distinct (dedupe_from seen vs) \<and> set (dedupe_from seen vs) = set vs - set seen - {[]}"
  by (induction vs arbitrary: seen) auto

lemma default_hosts_result:
  "distinct (default_hosts host_name listen) \<and> [] \<notin> set (default_hosts host_name listen)
   \<and> {''localhost'', ''127.0.0.1'', ''::1''} \<subseteq> set (default_hosts host_name listen)"
  using dedupe_from_result [of "[]"] by (simp add: default_hosts_def dedupe_def)

text \<open>Every name asked for is in the certificate, as an address or as a DNS name.\<close>

lemma template_names:
  "x \<in> set hs \<Longrightarrow> (case parse_ip h x of
      Some a \<Rightarrow> a \<in> set (ct_ips (cert_template_of h now1 now2 serial hs))
    | None \<Rightarrow> x \<in> set (ct_dns (cert_template_of h now1 now2 serial hs)))"
  by (cases "parse_ip h x") (force simp: cert_template_of_def List.map_filter_def)+

text \<open>Without \<open>--force\<close> an existing pair stays, and a pair the configuration does not own always does.\<close>

lemma run_cert_keeps:
  assumes "run_cert y w h host_name accounts now1 now2 cfg_path loaded force defaults d = (r, d')"
  shows "d' = d \<or>
    (pw_euid w = 0 \<and> (\<exists>cert_file key_file hs gid.
       (force \<or> \<not> certs_exists (on_disk d) cert_file key_file)
       \<and> snd (generate y w h now1 now2 cert_file key_file hs gid d) = d'
       \<and> (if defaults then cert_file = default_cert_file \<and> key_file = default_key_file
          else \<exists>c. loaded = Inr c \<and> tls_is_enabled (c_tls c) \<and> tls_self_signed (c_tls c)
             \<and> cert_file = tls_cert_file (c_tls c) \<and> key_file = tls_key_file (c_tls c))))"
proof -
  have wc: "d1 = d \<or> ((force \<or> \<not> certs_exists (on_disk d) cf kf) \<and> snd (generate y w h now1 now2 cf kf hs gid d) = d1)"
    if "write_cert y w h now1 now2 cf kf hs gid force d = (r1, d1)" for cf kf hs gid r1 d1
    using that by (auto simp: write_cert_def split: if_splits sum.splits prod.splits)
  show ?thesis
    using assms wc
    by (fastforce simp: run_cert_def generate_default_def Let_def split: if_splits sum.splits option.splits)
qed

end
