(* ===== verification/Cli_Render.thy ===== *)
theory Cli_Render
  imports Cli_Root Json
begin

text \<open>
  \<open>cli/render.go\<close>: drawing a job.  What is written is a list of operations on a terminal, a
  line or the sequence that moves up over the last block and clears to the end, and \<open>screen\<close>
  says what the terminal then shows.  The text of a duration below a minute, whose seconds are
  rounded by \<open>fmt\<close>, is the argument \<open>secs\<close>.
\<close>

section \<open>Durations\<close>

text \<open>\<open>Duration.Round\<close>: halves away from zero, saturating.\<close>

definition round_duration :: "duration \<Rightarrow> duration \<Rightarrow> duration" where
  "round_duration d m =
     (if m \<le> 0 then d
      else if d < 0 then
        (let r = (- d) mod m
         in if r + r < m then d + r
            else if d - m + r < - max_int64 - 1 then - max_int64 - 1 else d - m + r)
      else
        (let r = d mod m
         in if r + r < m then d - r
            else if max_int64 < d + m - r then max_int64 else d + m - r))"

definition short :: "duration \<Rightarrow> string" where
  "short d =
     (if d = 0 then ''0''
      else (let s = duration_string d;
                s1 = (if has_suffix s ''m0s'' then trim_suffix s ''0s'' else s)
            in if has_suffix s1 ''h0m'' then trim_suffix s1 ''0m'' else s1))"

definition brief_duration :: "(duration \<Rightarrow> string) \<Rightarrow> duration \<Rightarrow> string" where
  "brief_duration secs d =
     (if d < second then itoa (milliseconds d) @ ''ms''
      else if d < minute then secs d @ ''s''
      else short (round_duration d second))"

section \<open>The lines of a job\<close>

definition fallback_width :: nat where "fallback_width = 78"
definition min_width :: nat where "min_width = 40"
definition step_name_col :: nat where "step_name_col = 24"
definition step_mark_col :: nat where "step_mark_col = 6"
definition scan_result_col :: nat where "scan_result_col = 16"
definition max_step_output_lines :: nat where "max_step_output_lines = 12"
definition max_progress_lines :: nat where "max_progress_lines = 12"

definition live_width :: "nat \<Rightarrow> nat" where
  "live_width w = (if min_width \<le> w then w - 1 else fallback_width)"

definition one_row :: "string \<Rightarrow> string" where
  "one_row l = map (\<lambda>c. if c = chr 10 \<or> c = chr 9 then CHR '' '' else c) l"

definition fit_lines :: "nat \<Rightarrow> bool \<Rightarrow> string list \<Rightarrow> string list" where
  "fit_lines width live ls = (if live then map (\<lambda>l. clip_head (one_row l) width) ls else ls)"

definition ms_duration :: "int \<Rightarrow> duration" where
  "ms_duration ms = wrap64 (ms * millisecond)"

definition job_summary_lines :: "nat \<Rightarrow> bool \<Rightarrow> snapshot \<Rightarrow> string list" where
  "job_summary_lines width live snap =
     fit_lines width live
       ([sn_target snap @ ''  '' @ state_text (sn_state snap)]
        @ (if sn_message snap \<noteq> [] then [''  '' @ sn_message snap] else [])
        @ (if sn_changed snap \<noteq> [] then [''  changed: '' @ join '', '' (sn_changed snap)] else [])
        @ [''  job '' @ sn_id snap @ '' in '' @ duration_string (ms_duration (sn_duration snap))])"

definition step_line :: "(duration \<Rightarrow> string) \<Rightarrow> time \<Rightarrow> step \<Rightarrow> string" where
  "step_line secs now s =
     (let mark = (if st_running s then ''...'' else if \<not> st_ok s then ''FAILED'' else ''ok'');
          d = (if st_running s then time_sub now (st_started s) else ms_duration (st_duration s))
      in ''    '' @ pad_right step_name_col (st_name s) @ '' '' @ pad_right step_mark_col mark @ '' ''
         @ brief_duration secs (max 0 d))"

text \<open>The words of a line at the spaces of the regular expression, and the lines it matches.\<close>

definition progress_space :: "char \<Rightarrow> bool" where
  "progress_space c \<longleftrightarrow> byte c \<in> {9, 10, 12, 13, 32}"

fun re_words :: "string \<Rightarrow> string \<Rightarrow> string list" where
  "re_words w [] = (if w = [] then [] else [w])"
| "re_words w (c # s) =
     (if progress_space c then (if w = [] then re_words [] s else w # re_words [] s)
      else re_words (w @ [c]) s)"

definition progress_words :: "string list" where
  "progress_words =
     [''Pulling'', ''Pulled'', ''Interrupted'', ''Waiting'', ''Downloading'', ''Extracting'',
      ''Verifying'', ''Skipped'']"

definition progress_only :: "string \<Rightarrow> bool" where
  "progress_only line =
     (case re_words [] line of
        [w, st] \<Rightarrow> st \<in> set progress_words
      | [i, w, st] \<Rightarrow> i = ''Image'' \<and> st \<in> set progress_words
      | _ \<Rightarrow> False)"

definition meaningful_lines :: "string \<Rightarrow> string list" where
  "meaningful_lines output =
     map (trim_right {chr 13})
       [l \<leftarrow> split_on (chr 10) (trim_right {chr 10} output). trim_space l \<noteq> [] \<and> \<not> progress_only l]"

definition indent6 :: "string \<Rightarrow> string" where
  "indent6 l = ''      '' @ l"

definition step_detail :: "step \<Rightarrow> string list" where
  "step_detail s =
     (let err = (if st_error s \<noteq> [] then [indent6 (st_error s)] else [])
      in if st_ok s \<or> st_running s \<or> trim_space (st_output s) = [] then err
         else (let out = meaningful_lines (st_output s);
                   extra = length out - max_step_output_lines
               in if out = [] then err
                  else err
                    @ (if 0 < extra then [''      ...'' @ nat_digits extra @ '' earlier lines''] else [])
                    @ map (\<lambda>l. indent6 (trim_right {chr 13} l)) (drop extra out)))"

definition progress_lines :: "service_state list \<Rightarrow> string list" where
  "progress_lines states =
     (if states = [] then []
      else (let width = Max (set (map (length \<circ> sv_service) states));
                extra = length states - max_progress_lines
            in map (\<lambda>st. indent6 (pad_right width (sv_service st) @ ''  '' @ pad_right 10 (or_dash (sv_state st))
                     @ '' '' @ (if sv_health st = [] then ''no healthcheck'' else sv_health st)))
                 (take max_progress_lines states)
               @ (if 0 < extra then [''      and '' @ nat_digits extra @ '' more''] else [])))"

definition job_step_lines :: "nat \<Rightarrow> (duration \<Rightarrow> string) \<Rightarrow> time \<Rightarrow> bool \<Rightarrow> snapshot \<Rightarrow> string list" where
  "job_step_lines width secs now live snap =
     fit_lines width live
       (concat (map (\<lambda>s.
          [step_line secs now s]
          @ (if st_running s then progress_lines (sn_progress snap) else [])
          @ (if live then (if st_error s \<noteq> [] then [indent6 (st_error s)] else []) else step_detail s))
        (sn_steps snap)))"

section \<open>The renderer\<close>

datatype tty_op = Line string | EraseUp nat

record renderer =
  rd_tty :: bool
  rd_lines :: nat
  rd_emitted :: nat
  rd_started :: bool

definition new_renderer :: "bool \<Rightarrow> renderer" where
  "new_renderer tty = \<lparr>rd_tty = tty, rd_lines = 0, rd_emitted = 0, rd_started = False\<rparr>"

definition erase_ops :: "renderer \<Rightarrow> tty_op list" where
  "erase_ops r = (if rd_lines r = 0 then [] else [EraseUp (rd_lines r)])"

definition draw :: "renderer \<Rightarrow> string list \<Rightarrow> tty_op list \<times> renderer" where
  "draw r ls = (erase_ops r @ map Line ls, r\<lparr>rd_lines := length ls\<rparr>)"

definition begin_ops :: "renderer \<Rightarrow> snapshot \<Rightarrow> tty_op list \<times> renderer" where
  "begin_ops r snap =
     (if rd_started r then ([], r)
      else ([Line (sn_target snap @ ''  job '' @ sn_id snap @ '' started'')], r\<lparr>rd_started := True\<rparr>))"

text \<open>\<open>emitSteps\<close>, from the first step that was not printed to the first that is running.\<close>

fun emit_from :: "(step \<Rightarrow> string list) \<Rightarrow> nat \<Rightarrow> step list \<Rightarrow> tty_op list \<times> nat" where
  "emit_from f e [] = ([], e)"
| "emit_from f e (s # ss) =
     (if st_running s then ([], e)
      else (case emit_from f (Suc e) ss of (ops, e') \<Rightarrow> (map Line (f s) @ ops, e')))"

definition emit_steps :: "(duration \<Rightarrow> string) \<Rightarrow> time \<Rightarrow> renderer \<Rightarrow> snapshot \<Rightarrow> tty_op list \<times> renderer" where
  "emit_steps secs now r snap =
     (case emit_from (\<lambda>s. step_line secs now s # step_detail s) (rd_emitted r)
             (drop (rd_emitted r) (sn_steps snap)) of
        (ops, e) \<Rightarrow> (ops, r\<lparr>rd_emitted := e\<rparr>))"

definition block :: "nat \<Rightarrow> (duration \<Rightarrow> string) \<Rightarrow> time \<Rightarrow> bool \<Rightarrow> snapshot \<Rightarrow> string list" where
  "block width secs now live snap =
     job_summary_lines width live snap @ job_step_lines width secs now live snap"

definition render_update ::
  "nat \<Rightarrow> (duration \<Rightarrow> string) \<Rightarrow> time \<Rightarrow> renderer \<Rightarrow> snapshot \<Rightarrow> tty_op list \<times> renderer" where
  "render_update width secs now r snap =
     (if rd_tty r then draw r (block width secs now True snap)
      else (case begin_ops r snap of
              (ops, r1) \<Rightarrow> (case emit_steps secs now r1 snap of (ops', r2) \<Rightarrow> (ops @ ops', r2))))"

definition render_finish ::
  "nat \<Rightarrow> (duration \<Rightarrow> string) \<Rightarrow> time \<Rightarrow> renderer \<Rightarrow> snapshot \<Rightarrow> tty_op list \<times> renderer" where
  "render_finish width secs now r snap =
     (if rd_tty r then (erase_ops r @ map Line (block width secs now False snap), r\<lparr>rd_lines := 0\<rparr>)
      else (case begin_ops r snap of
              (ops, r1) \<Rightarrow>
                (case emit_steps secs now r1 snap of
                   (ops', r2) \<Rightarrow> (ops @ ops' @ map Line (job_summary_lines width False snap), r2))))"

section \<open>The scan table\<close>

record scan_table =
  tb_tty :: bool
  tb_stack :: nat
  tb_pending :: bool

definition new_scan_table :: "bool \<Rightarrow> string list \<Rightarrow> scan_table" where
  "new_scan_table tty targets =
     \<lparr>tb_tty = tty, tb_stack = Max (insert (length ''STACK'') (set (map length targets))), tb_pending = False\<rparr>"

definition table_row :: "scan_table \<Rightarrow> string \<Rightarrow> string \<Rightarrow> string \<Rightarrow> string" where
  "table_row t stack result detail =
     trim_right {CHR '' ''}
       (pad_right (tb_stack t) stack @ ''  '' @ pad_right scan_result_col result @ ''  '' @ detail)"

definition table_header :: "scan_table \<Rightarrow> tty_op list" where
  "table_header t = [Line (table_row t ''STACK'' ''RESULT'' ''DETAIL'')]"

definition table_checking :: "scan_table \<Rightarrow> string \<Rightarrow> tty_op list \<times> scan_table" where
  "table_checking t name =
     (if \<not> tb_tty t then ([], t)
      else ([Line (table_row t name ''checking...'' [])], t\<lparr>tb_pending := True\<rparr>))"

definition table_result :: "scan_table \<Rightarrow> string \<Rightarrow> string \<Rightarrow> string \<Rightarrow> tty_op list \<times> scan_table" where
  "table_result t name result detail =
     ((if tb_pending t then [EraseUp 1] else []) @ [Line (table_row t name result detail)],
      t\<lparr>tb_pending := False\<rparr>)"

section \<open>What the terminal shows\<close>

fun show_op :: "string list \<Rightarrow> tty_op \<Rightarrow> string list" where
  "show_op scr (Line l) = scr @ [l]"
| "show_op scr (EraseUp n) = take (length scr - n) scr"

definition screen :: "tty_op list \<Rightarrow> string list \<Rightarrow> string list" where
  "screen ops scr = foldl show_op scr ops"

lemma screen_lines [simp]: "screen (map Line ls) scr = scr @ ls"
  by (induction ls arbitrary: scr) (simp_all add: screen_def)

lemma screen_append [simp]: "screen (a @ b) scr = screen b (screen a scr)"
  by (simp add: screen_def)

lemma screen_erase: "rd_lines r = length b \<Longrightarrow> screen (erase_ops r) (scr @ b) = scr"
  by (simp add: erase_ops_def screen_def)

text \<open>A sequence of updates.\<close>

fun render_all ::
  "nat \<Rightarrow> (duration \<Rightarrow> string) \<Rightarrow> renderer \<Rightarrow> (time \<times> snapshot) list \<Rightarrow> tty_op list \<times> renderer" where
  "render_all width secs r [] = ([], r)"
| "render_all width secs r ((now, snap) # us) =
     (case render_update width secs now r snap of
        (ops, r1) \<Rightarrow> (case render_all width secs r1 us of (ops', r2) \<Rightarrow> (ops @ ops', r2)))"

definition last_block :: "nat \<Rightarrow> (duration \<Rightarrow> string) \<Rightarrow> (time \<times> snapshot) list \<Rightarrow> string list" where
  "last_block width secs us =
     (if us = [] then [] else block width secs (fst (last us)) True (snd (last us)))"

lemma render_all_tty:
  assumes "rd_tty r" and "rd_lines r = length b"
  shows "\<exists>r'. render_all width secs r us = (fst (render_all width secs r us), r') \<and> rd_tty r'
    \<and> screen (fst (render_all width secs r us)) (scr @ b) = scr @ (if us = [] then b else last_block width secs us)
    \<and> rd_lines r' = length (if us = [] then b else last_block width secs us)"
  using assms
proof (induction us arbitrary: r b)
  case (Cons u us)
  obtain now snap where u: "u = (now, snap)" by fastforce
  let ?b = "block width secs now True snap" and ?r = "r\<lparr>rd_lines := length (block width secs now True snap)\<rparr>"
  have step: "render_update width secs now r snap = (erase_ops r @ map Line ?b, ?r)"
    using Cons.prems(1) by (simp add: render_update_def draw_def)
  obtain ops r' where all: "render_all width secs ?r us = (ops, r')" by fastforce
  have ih: "rd_tty r'" "screen ops (scr @ ?b) = scr @ (if us = [] then ?b else last_block width secs us)"
    "rd_lines r' = length (if us = [] then ?b else last_block width secs us)"
    using Cons.IH [of ?r ?b] Cons.prems(1) all by auto
  have b: "(if us = [] then ?b else last_block width secs us) = last_block width secs (u # us)"
    by (simp add: last_block_def u)
  have out: "render_all width secs r (u # us) = ((erase_ops r @ map Line ?b) @ ops, r')"
    using step all by (simp add: u)
  show ?case
    using ih screen_erase [OF Cons.prems(2), of scr] unfolding out b by simp
qed (simp add: screen_def)

lemma render_session:
  assumes "render_all width secs (new_renderer True) us = (ops, r)"
    and "render_finish width secs now r snap = (ops', r')"
  shows "screen ops scr = scr @ last_block width secs us"
    and "screen (ops @ ops') scr = scr @ block width secs now False snap"
proof -
  have n: "rd_tty (new_renderer True)" "rd_lines (new_renderer True) = length ([] :: string list)"
    by (simp_all add: new_renderer_def)
  from render_all_tty [OF n, of width secs us scr] assms(1)
  have r: "rd_tty r" "screen ops scr = scr @ last_block width secs us"
    "rd_lines r = length (last_block width secs us)"
    by (auto simp: last_block_def)
  show "screen ops scr = scr @ last_block width secs us" by (rule r(2))
  have "ops' = erase_ops r @ map Line (block width secs now False snap)"
    using assms(2) r(1) by (simp add: render_finish_def)
  then show "screen (ops @ ops') scr = scr @ block width secs now False snap"
    using r screen_erase [OF r(3), of scr] by simp
qed

text \<open>A line that is redrawn takes one row: it has no line break and is not wider than the terminal.\<close>

definition fits :: "nat \<Rightarrow> string \<Rightarrow> bool" where
  "fits width l \<longleftrightarrow> chr 10 \<notin> set l \<and> length l \<le> width"

lemma fits_clip: "3 \<le> width \<Longrightarrow> fits width (clip_head (one_row l) width)"
proof -
  assume w: "3 \<le> width"
  have n: "chr 10 \<notin> set (one_row l)"
  proof -
    have "byte (CHR '' '') \<noteq> byte (chr 10)" by (simp add: byte_def [of "CHR '' ''"])
    then have "CHR '' '' \<noteq> chr 10" by metis
    then show ?thesis by (auto simp: one_row_def)
  qed
  have "byte (CHR ''.'') \<noteq> byte (chr 10)" by (simp add: byte_def [of "CHR ''.''"])
  then have "chr 10 \<noteq> CHR ''.''" by metis
  with w n show ?thesis by (auto simp: fits_def clip_head_def dest: in_set_takeD)
qed

lemma live_width_3: "3 \<le> live_width w"
  by (auto simp: live_width_def min_width_def fallback_width_def)

lemma block_fits: "list_all (fits (live_width w)) (block (live_width w) secs now True snap)"
  using fits_clip [OF live_width_3]
  by (auto simp: block_def job_summary_lines_def job_step_lines_def fit_lines_def list_all_iff)

section \<open>Away from a terminal\<close>

definition finished_prefix :: "step list \<Rightarrow> step list" where
  "finished_prefix ss = takeWhile (\<lambda>s. \<not> st_running s) ss"

definition step_text :: "(duration \<Rightarrow> string) \<Rightarrow> step \<Rightarrow> string list" where
  "step_text secs s = step_line secs 0 s # step_detail s"

lemma step_line_finished: "\<not> st_running s \<Longrightarrow> step_line secs now s = step_line secs 0 s"
  by (simp add: step_line_def Let_def)

lemma emit_from_finished:
  "emit_from f e ss = (map Line (concat (map f (finished_prefix ss))), e + length (finished_prefix ss))"
  by (induction ss arbitrary: e) (simp_all add: finished_prefix_def)

lemma finished_prefix_text:
  "concat (map (\<lambda>s. step_line secs now s # step_detail s) (finished_prefix ss)) =
   concat (map (step_text secs) (finished_prefix ss))"
proof -
  have "\<forall>s \<in> set (finished_prefix ss). step_line secs now s # step_detail s = step_text secs s"
    using step_line_finished by (auto simp: finished_prefix_def step_text_def dest!: set_takeWhileD)
  then show ?thesis by (intro arg_cong [where f = concat] map_cong refl) blast
qed

lemma finished_prefix_drop:
  assumes "finished_prefix ss = p @ q"
  shows "finished_prefix (drop (length p) ss) = q"
proof -
  obtain rest where "ss = finished_prefix ss @ rest" "rest = [] \<or> st_running (hd rest)"
    unfolding finished_prefix_def
    by (metis takeWhile_dropWhile_id hd_dropWhile)
  with assms have "drop (length p) ss = q @ rest" by simp
  moreover have "\<forall>s \<in> set q. \<not> st_running s"
    using assms by (metis Un_iff finished_prefix_def set_append set_takeWhileD)
  ultimately show ?thesis
    using \<open>rest = [] \<or> st_running (hd rest)\<close>
    by (cases rest) (auto simp: finished_prefix_def takeWhile_append2)
qed

text \<open>The finished steps of a job only grow.\<close>

fun growing :: "step list \<Rightarrow> (time \<times> snapshot) list \<Rightarrow> bool" where
  "growing p [] = True"
| "growing p ((now, snap) # us) =
     (prefix p (finished_prefix (sn_steps snap)) \<and> growing (finished_prefix (sn_steps snap)) us)"

definition last_finished :: "step list \<Rightarrow> (time \<times> snapshot) list \<Rightarrow> step list" where
  "last_finished p us = (if us = [] then p else finished_prefix (sn_steps (snd (last us))))"

lemma render_all_plain:
  assumes "\<not> rd_tty r" and "rd_started r" and "rd_emitted r = length p" and "growing p us"
  shows "\<exists>q. last_finished p us = p @ q
    \<and> fst (render_all width secs r us) = map Line (concat (map (step_text secs) q))"
  using assms
proof (induction us arbitrary: r p)
  case Nil
  then show ?case by (simp add: last_finished_def)
next
  case (Cons u us)
  obtain now snap where u: "u = (now, snap)" by fastforce
  obtain q where q: "finished_prefix (sn_steps snap) = p @ q"
    using Cons.prems(4) by (auto simp: u prefix_def)
  let ?r = "r\<lparr>rd_emitted := length (p @ q)\<rparr>"
  have step: "render_update width secs now r snap = (map Line (concat (map (step_text secs) q)), ?r)"
    using Cons.prems(1-3) finished_prefix_drop [OF q] finished_prefix_text [of secs now "drop (length p) (sn_steps snap)"]
    by (simp add: render_update_def begin_ops_def emit_steps_def emit_from_finished)
  have "growing (p @ q) us" using Cons.prems(4) by (simp add: u q)
  then obtain q' where q': "last_finished (p @ q) us = (p @ q) @ q'"
      "fst (render_all width secs ?r us) = map Line (concat (map (step_text secs) q'))"
    using Cons.IH [of ?r "p @ q"] Cons.prems(1,2) by auto
  have "last_finished p (u # us) = last_finished (p @ q) us"
    by (simp add: last_finished_def u q)
  moreover have "fst (render_all width secs r (u # us)) =
      map Line (concat (map (step_text secs) q)) @ fst (render_all width secs ?r us)"
    using step by (simp add: u split: prod.split)
  ultimately show ?case using q' by (intro exI [of _ "q @ q'"]) simp
qed

end
