(* ===== verification/Cli_Api.thy ===== *)
theory Cli_Api
  imports Cli_Render Server
begin

text \<open>
  \<open>cli/api.go\<close>, \<open>cli/scan.go\<close> and \<open>cli/diagnose.go\<close>: the client of the HTTP API.  A call is
  seen from its response on; following a job is a function of the clock readings, the ticker
  and the answers of the successive polls.
\<close>

section \<open>Reaching the API\<close>

text \<open>How a connection fails, as far as the program distinguishes it.\<close>

datatype net_error = ConnRefused | NetPermission | NetOther string

fun net_error_text :: "net_error \<Rightarrow> string" where
  "net_error_text ConnRefused = ''connection refused''"
| "net_error_text NetPermission = ''permission denied''"
| "net_error_text (NetOther e) = e"

definition api_unreachable :: "string \<Rightarrow> net_error \<Rightarrow> string list" where
  "api_unreachable base_url e =
     (if e = ConnRefused then
        [''the dup API is not running on '' @ base_url, [],
         ''  Start it:   sudo systemctl enable --now dup-agent dup'',
         ''  Check it:   systemctl status dup'',
         ''  Why not:    sudo journalctl -u dup -n 30 --no-pager'']
      else [''could not reach the dup API on '' @ base_url @ '': '' @ net_error_text e])"

definition agent_unreachable :: "host \<Rightarrow> string \<Rightarrow> net_error \<Rightarrow> string list" where
  "agent_unreachable h socket e =
     (case hs_stat h socket of
        Inl NotExist \<Rightarrow>
          [''The update agent is not running: there is no socket at '' @ socket @ ''.'', [],
           ''  Start it:   sudo systemctl enable --now dup-agent dup'',
           ''  Check it:   systemctl status dup-agent dup'',
           ''  Why not:    sudo journalctl -u dup-agent -n 30 --no-pager'']
      | Inl PermissionDenied \<Rightarrow>
          [''Cannot see '' @ socket @ ''.'', [],
           ''  Run as root, or join the group that owns it:'',
           ''    sudo usermod -aG dup $USER   (then log out and back in)'']
      | Inl (OtherError x) \<Rightarrow> [''Could not check '' @ socket @ '': '' @ x]
      | Inr info \<Rightarrow>
          if fi_kind info \<noteq> SocketFile then
            [socket @ '' exists but is not a socket. Remove it and restart the agent:'', [],
             ''  sudo rm '' @ socket @ '' && sudo systemctl restart dup-agent dup'']
          else if e = ConnRefused then
            [''The socket at '' @ socket @ '' is stale: nothing is listening on it.'', [],
             ''  Restart the agent:  sudo systemctl restart dup-agent dup'',
             ''  Check why:          sudo journalctl -u dup-agent -n 30 --no-pager'']
          else if e = NetPermission then
            [''Not allowed to connect to '' @ socket @ ''.'', [],
             ''  Run as root, or join the group that owns it:'',
             ''    sudo usermod -aG dup $USER   (then log out and back in)'']
          else [''Could not reach the update agent on '' @ socket @ ''.'', [], ''  '' @ net_error_text e])"

text \<open>\<open>net.JoinHostPort\<close>, and the URL the command line dials.\<close>

definition join_host_port :: "string \<Rightarrow> string \<Rightarrow> string" where
  "join_host_port hn port =
     (if CHR '':'' \<in> set hn \<or> CHR ''%'' \<in> set hn then ''['' @ hn @ '']:'' @ port else hn @ '':'' @ port)"

definition client_base :: "config \<Rightarrow> string" where
  "client_base c =
     (let scheme = (if tls_is_enabled (c_tls c) then ''https'' else ''http'')
      in case split_host_port (c_listen c) of
           None \<Rightarrow> scheme @ ''://'' @ c_listen c
         | Some (hn, port) \<Rightarrow>
             (let hn' = (if hn = [] \<or> hn = ''0.0.0.0'' \<or> hn = ''::'' then ''127.0.0.1'' else hn)
              in scheme @ ''://'' @ join_host_port hn' port))"

text \<open>
  Why there is no client.  \<open>clientTLS\<close> adds the configured certificate to the system's roots;
  whether a text holds a usable certificate is the argument \<open>usable\<close>.
\<close>

datatype client_fault = NoBearerToken | CertUnreadable string | CertUnusable string

record api_client =
  ap_base :: string
  ap_token :: string
  ap_root_cert :: "string option"

definition client_tls :: "host \<Rightarrow> (string \<Rightarrow> bool) \<Rightarrow> config \<Rightarrow> client_fault + string option" where
  "client_tls h usable c =
     (if tls_cert_file (c_tls c) = [] then Inr None
      else (case hs_read_file h (tls_cert_file (c_tls c)) of
              Inl e \<Rightarrow> Inl (CertUnreadable (tls_cert_file (c_tls c)))
            | Inr pem \<Rightarrow>
                if usable pem then Inr (Some pem) else Inl (CertUnusable (tls_cert_file (c_tls c)))))"

definition new_api_client :: "host \<Rightarrow> (string \<Rightarrow> bool) \<Rightarrow> config \<Rightarrow> client_fault + api_client" where
  "new_api_client h usable c =
     (let bearer = au_bearer (c_auth c)
      in if bearer = [] then Inl NoBearerToken
         else if tls_is_enabled (c_tls c) then
           (case client_tls h usable c of
              Inl e \<Rightarrow> Inl e
            | Inr cert \<Rightarrow> Inr \<lparr>ap_base = client_base c, ap_token = bearer, ap_root_cert = cert\<rparr>)
         else Inr \<lparr>ap_base = client_base c, ap_token = bearer, ap_root_cert = None\<rparr>)"

section \<open>A call\<close>

definition max_api_body :: nat where "max_api_body = 4 * 1024 * 1024"

datatype api_failure =
    ApiUnreachable net_error
  | ApiStatus nat string string
  | ApiGarbled string

definition api_error_text :: "(string \<Rightarrow> string option) \<Rightarrow> string \<Rightarrow> string" where
  "api_error_text dec raw =
     (case dec raw of Some e \<Rightarrow> if e \<noteq> [] then e else trim_space raw | None \<Rightarrow> trim_space raw)"

definition api_do ::
  "(string \<Rightarrow> string option) \<Rightarrow> (string \<Rightarrow> string + 'a) \<Rightarrow> net_error + nat \<times> string \<Rightarrow> api_failure + 'a" where
  "api_do dec_error dec resp =
     (case resp of
        Inl e \<Rightarrow> Inl (ApiUnreachable e)
      | Inr (status, body) \<Rightarrow>
          (let raw = take max_api_body body
           in if 400 \<le> status then Inl (ApiStatus status (api_error_text dec_error raw) raw)
              else (case dec raw of Inl e \<Rightarrow> Inl (ApiGarbled e) | Inr v \<Rightarrow> Inr v)))"

fun api_failure_text :: "string \<Rightarrow> api_failure \<Rightarrow> string" where
  "api_failure_text b (ApiUnreachable e) = join [chr 10] (api_unreachable b e)"
| "api_failure_text b (ApiStatus n m raw) =
     ''the API refused the request ('' @ nat_digits n @ ''): '' @ m"
| "api_failure_text b (ApiGarbled e) = ''could not read the API response: '' @ e"

text \<open>The paths the commands ask for.\<close>

definition update_path :: "string \<Rightarrow> string" where
  "update_path target = ''/v1/targets/'' @ target @ ''/update''"

definition check_path :: "string \<Rightarrow> string" where
  "check_path target = ''/v1/targets/'' @ target @ ''/check''"

definition job_path :: "string \<Rightarrow> string" where
  "job_path ident = ''/v1/jobs/'' @ ident"

section \<open>Following a job\<close>

definition job_poll_interval :: duration where "job_poll_interval = 700 * millisecond"

text \<open>
  One round: the clock when the deadline is looked at, whether the context ends before the
  next tick, and what the API answers a request for a path.
\<close>

record poll =
  pl_now :: time
  pl_cancelled :: bool
  pl_answer :: "string \<Rightarrow> api_failure + snapshot"

datatype followed =
    Followed snapshot | FollowCancelled snapshot | FollowFailed snapshot api_failure | Following snapshot

fun follow_job :: "time \<Rightarrow> snapshot \<Rightarrow> poll list \<Rightarrow> followed \<times> snapshot list" where
  "follow_job dl snap [] =
     (if terminal (sn_state snap) then (Followed snap, []) else (Following snap, [snap]))"
| "follow_job dl snap (p # ps) =
     (if terminal (sn_state snap) then (Followed snap, [])
      else if \<not> pl_now p < dl then (Followed snap, [snap])
      else if pl_cancelled p then (FollowCancelled snap, [snap])
      else (case pl_answer p (job_path (sn_id snap)) of
              Inl e \<Rightarrow> (FollowFailed snap e, [snap])
            | Inr next_snap \<Rightarrow>
                (case follow_job dl next_snap ps of (r, shown) \<Rightarrow> (r, snap # shown))))"

section \<open>The update command\<close>

record update_request =
  ub_tag :: string
  ub_reason :: string
  ub_dry_run :: bool
  ub_force :: bool

datatype update_result =
    UpdateNoStack
  | UpdateUnknown string
  | UpdateNoClient client_fault
  | UpdateBusy string
  | UpdateRefused api_failure
  | UpdateNoJob string
  | UpdateFollow followed
  | UpdateStillRunning string
  | UpdateEnded job_state
  | UpdateDone

definition clamp_wait :: "duration \<Rightarrow> duration" where
  "clamp_wait w = (if max_wait < w then max_wait else w)"

definition already_running ::
  "(time \<Rightarrow> string) \<Rightarrow> (string \<Rightarrow> snapshot option) \<Rightarrow> string \<Rightarrow> string \<Rightarrow> string list" where
  "already_running clock_text dec target raw =
     (case dec raw of
        None \<Rightarrow> [''an update is already running for '' @ target @ ''; follow it with: dup status '' @ target]
      | Some j \<Rightarrow>
          if sn_id j = []
          then [''an update is already running for '' @ target @ ''; follow it with: dup status '' @ target]
          else
            [''an update is already running for '' @ target @ '': job '' @ sn_id j @ '', started ''
               @ clock_text (sn_started j) @ '' ('' @ sn_trigger j @ '')'', [],
             ''Follow it with:  dup status '' @ target])"

definition unknown_stack :: "string \<Rightarrow> config \<Rightarrow> string list" where
  "unknown_stack name c =
     [''unknown stack '' @ quote name, [],
      ''Configured stacks: '' @ joined_or (target_names c) ''none'',
      ''Run 'dup list' to see them with their update policy'']"

text \<open>
  \<open>runUpdate\<close> from the parsed arguments on: \<open>post\<close> is the answer to the request with this
  body, \<open>polls\<close> the rounds that follow, \<open>start\<close> the clock before the first.
\<close>

definition end_of_update :: "string \<Rightarrow> followed \<Rightarrow> update_result" where
  "end_of_update target r =
     (case r of
        Followed final \<Rightarrow>
          if \<not> terminal (sn_state final) then UpdateStillRunning target
          else if \<not> state_ok (sn_state final) then UpdateEnded (sn_state final) else UpdateDone
      | other \<Rightarrow> UpdateFollow other)"

definition run_update_command ::
  "config \<Rightarrow> client_fault + api_client \<Rightarrow> (string \<Rightarrow> snapshot option) \<Rightarrow> (time \<Rightarrow> string)
   \<Rightarrow> string \<Rightarrow> update_request \<Rightarrow> duration \<Rightarrow> (string \<Rightarrow> update_request \<Rightarrow> api_failure + snapshot)
   \<Rightarrow> time \<Rightarrow> poll list \<Rightarrow> update_result" where
  "run_update_command c client dec_running clock_text target req wait post start polls =
     (if target = [] then UpdateNoStack
      else if target_by_name c target = None then UpdateUnknown target
      else (case client of
        Inl e \<Rightarrow> UpdateNoClient e
      | Inr cl \<Rightarrow>
          (case post (update_path target) req of
             Inl (ApiStatus n m raw) \<Rightarrow>
               if n = 409 then UpdateBusy (join [chr 10] (already_running clock_text dec_running target raw))
               else UpdateRefused (ApiStatus n m raw)
           | Inl e \<Rightarrow> UpdateRefused e
           | Inr snap \<Rightarrow>
               if sn_id snap = [] then UpdateNoJob target
               else end_of_update target (fst (follow_job (start + clamp_wait wait) snap polls)))))"

text \<open>Which of these ends are an error, i.e. a non-zero exit.\<close>

definition update_failed :: "update_result \<Rightarrow> bool" where
  "update_failed r \<longleftrightarrow> (case r of UpdateStillRunning t \<Rightarrow> False | UpdateDone \<Rightarrow> False | _ \<Rightarrow> True)"

section \<open>The scan command\<close>

record scan_result =
  sc_target :: string
  sc_available :: bool
  sc_changed :: "string list"
  sc_message :: string

datatype scan_outcome = ScanUpToDate | ScanAvailable | ScanBusy | ScanFailed

definition classify_scan :: "api_failure + scan_result \<Rightarrow> scan_outcome \<times> string \<times> string" where
  "classify_scan r =
     (case r of
        Inl (ApiStatus n m raw) \<Rightarrow>
          if n = 409 \<or> n = 503
          then (ScanBusy, ''busy'', ''already being checked or updated, try again shortly'')
          else (ScanFailed, ''check FAILED'', ''see below'')
      | Inl e \<Rightarrow> (ScanFailed, ''check FAILED'', ''see below'')
      | Inr out \<Rightarrow>
          if sc_available out then (ScanAvailable, ''update available'', clip_head (sc_message out) 64)
          else (ScanUpToDate, ''up to date'', clip_head (sc_message out) 64))"

record scan_tally =
  sy_available :: nat
  sy_failed :: nat
  sy_busy :: nat
  sy_problems :: "string list"

definition count_scan :: "string \<Rightarrow> string \<Rightarrow> api_failure + scan_result \<Rightarrow> scan_tally \<Rightarrow> scan_tally" where
  "count_scan b name r y =
     (case fst (classify_scan r) of
        ScanBusy \<Rightarrow> y\<lparr>sy_busy := Suc (sy_busy y)\<rparr>
      | ScanFailed \<Rightarrow>
          y\<lparr>sy_failed := Suc (sy_failed y),
            sy_problems := sy_problems y
              @ [name @ '': '' @ (case r of Inl e \<Rightarrow> api_failure_text b e | Inr x \<Rightarrow> [])]\<rparr>
      | ScanAvailable \<Rightarrow> y\<lparr>sy_available := Suc (sy_available y)\<rparr>
      | ScanUpToDate \<Rightarrow> y)"

text \<open>The loop over the targets; \<open>ask\<close> is what the API answers for a path.\<close>

fun scan_loop ::
  "string \<Rightarrow> (string \<Rightarrow> api_failure + scan_result) \<Rightarrow> scan_table \<Rightarrow> string list \<Rightarrow> scan_tally
   \<Rightarrow> tty_op list \<times> scan_tally" where
  "scan_loop b ask t [] y = ([], y)"
| "scan_loop b ask t (name # names) y =
     (case table_checking t name of
        (ops1, t1) \<Rightarrow>
          (case classify_scan (ask (check_path name)) of
             (oc, result, detail) \<Rightarrow>
               (case table_result t1 name result detail of
                  (ops2, t2) \<Rightarrow>
                    (case scan_loop b ask t2 names (count_scan b name (ask (check_path name)) y) of
                       (ops3, y') \<Rightarrow> (ops1 @ ops2 @ ops3, y')))))"

definition scan_report :: "nat \<Rightarrow> scan_tally \<Rightarrow> string list \<times> string option" where
  "scan_report n y =
     (let problems = concat (map (\<lambda>p. [[], p]) (sy_problems y)) @ [[]];
          busy = (if 0 < sy_busy y then
            [nat_digits (sy_busy y) @ '' '' @ plural_text (sy_busy y) ''stack was'' ''stacks were''
               @ '' busy, so nothing was learned about '' @ plural_text (sy_busy y) ''it'' ''them''
               @ ''. The scheduler checks on its own'',
             ''interval anyway, and dup list shows anything waiting out a soak.'', []] else []);
          found = (if 0 < sy_available y then
            [nat_digits (sy_available y) @ '' '' @ plural_text (sy_available y) ''stack has'' ''stacks have''
               @ '' an update waiting. Apply one with:'', [], ''  sudo dup update <stack>'']
            else if sy_failed y = 0 \<and> sy_busy y = 0 then [''Everything is on its latest image.''] else [])
      in if 0 < sy_failed y then
           (problems @ busy @ found
            @ [nat_digits (sy_failed y) @ '' '' @ plural_text (sy_failed y) ''stack'' ''stacks''
                 @ '' could not be checked. See:  dup logs''],
            Some (nat_digits (sy_failed y) @ '' of '' @ nat_digits n @ '' ''
                  @ plural_text n ''stack'' ''stacks'' @ '' could not be checked''))
         else
           (problems @ busy @ found
            @ [[], ''This did not change anything. Auto-update stacks still wait out their soak.''], None))"

definition empty_tally :: scan_tally where
  "empty_tally = \<lparr>sy_available = 0, sy_failed = 0, sy_busy = 0, sy_problems = []\<rparr>"

datatype scan_end = ScanUnknown string | ScanNothing | ScanNoClient client_fault | ScanDone "string option"

definition run_scan ::
  "config \<Rightarrow> client_fault + api_client \<Rightarrow> bool \<Rightarrow> string \<Rightarrow> (string \<Rightarrow> api_failure + scan_result)
   \<Rightarrow> tty_op list \<times> scan_end" where
  "run_scan c client tty target ask =
     (if target \<noteq> [] \<and> target_by_name c target = None then ([], ScanUnknown target)
      else
        (let targets = (if target \<noteq> [] then [target] else target_names c)
         in if targets = [] then
              ([Line ''no stacks configured, so there is nothing to check''], ScanNothing)
            else (case client of
              Inl e \<Rightarrow> ([], ScanNoClient e)
            | Inr cl \<Rightarrow>
                (let n = length targets; t = new_scan_table tty targets
                 in case scan_loop (ap_base cl) ask t targets empty_tally of
                      (ops, y) \<Rightarrow>
                        (case scan_report n y of
                           (ls, err) \<Rightarrow>
                             ([Line (''Checking '' @ nat_digits n @ '' '' @ plural_text n ''stack'' ''stacks''
                                 @ '' against '' @ plural_text n ''its registry'' ''their registries''
                                 @ ''. This pulls images, so it can take a while.''), Line []]
                              @ table_header t @ ops @ map Line ls, ScanDone err))))))"

section \<open>Following ends\<close>

lemma follow_ends:
  "list_ex (\<lambda>p. dl \<le> pl_now p) ps \<Longrightarrow> fst (follow_job dl snap ps) \<noteq> Following s"
proof (induction ps arbitrary: snap)
  case (Cons p ps)
  then show ?case by (auto split: sum.split prod.split) (metis fst_conv)
qed simp

text \<open>The snapshots a run has seen: the answer to the request and those of the polls.\<close>

definition seen_snapshots :: "snapshot \<Rightarrow> poll list \<Rightarrow> snapshot set" where
  "seen_snapshots snap ps = insert snap {n. \<exists>p \<in> set ps. \<exists>path. pl_answer p path = Inr n}"

lemma follow_seen:
  "fst (follow_job dl snap ps) = Followed final \<Longrightarrow>
   final \<in> seen_snapshots snap ps \<and> (terminal (sn_state final) \<or> list_ex (\<lambda>p. dl \<le> pl_now p) ps)"
proof (induction ps arbitrary: snap)
  case (Cons p ps)
  show ?case
  proof (cases "terminal (sn_state snap) \<or> \<not> pl_now p < dl \<or> pl_cancelled p")
    case True
    then show ?thesis using Cons.prems by (auto simp: seen_snapshots_def split: if_splits)
  next
    case False
    then obtain n where n: "pl_answer p (job_path (sn_id snap)) = Inr n" "fst (follow_job dl n ps) = Followed final"
      using Cons.prems by (auto split: sum.splits prod.splits)
    with Cons.IH [OF n(2)] show ?thesis by (auto simp: seen_snapshots_def)
  qed
qed (simp add: seen_snapshots_def split: if_splits)

lemma update_done:
  assumes "run_update_command c client dec ct target req wait post start polls = UpdateDone"
  shows "target_by_name c target \<noteq> None
    \<and> (\<exists>snap final. post (update_path target) req = Inr snap \<and> sn_id snap \<noteq> []
         \<and> final \<in> seen_snapshots snap polls \<and> state_ok (sn_state final))"
proof -
  obtain snap where post: "post (update_path target) req = Inr snap" "sn_id snap \<noteq> []"
    and t: "target_by_name c target \<noteq> None"
    and e: "end_of_update target (fst (follow_job (start + clamp_wait wait) snap polls)) = UpdateDone"
    using assms by (auto simp: run_update_command_def split: if_splits sum.splits api_failure.splits)
  then obtain final where "fst (follow_job (start + clamp_wait wait) snap polls) = Followed final"
      "state_ok (sn_state final)"
    by (auto simp: end_of_update_def split: followed.splits if_splits)
  with follow_seen post t show ?thesis by blast
qed

section \<open>The command line and the server agree on the paths\<close>

definition path_segments :: "string \<Rightarrow> string list" where
  "path_segments p = tl (split_on slash p)"

lemma segments:
  assumes "slash \<notin> set n"
  shows "path_segments (update_path n) = [''v1'', ''targets'', n, ''update'']"
    and "path_segments (check_path n) = [''v1'', ''targets'', n, ''check'']"
    and "path_segments (job_path n) = [''v1'', ''jobs'', n]"
  using assms by (simp_all add: path_segments_def update_path_def check_path_def job_path_def)

lemma target_name_plain:
  assumes "target_name_re n" shows "n \<noteq> []" and "slash \<notin> set n"
proof -
  show "n \<noteq> []" using assms by (auto simp: target_name_re_def matches_word_def)
  show "slash \<notin> set n"
  proof
    assume "slash \<in> set n"
    from matches_word_set [OF assms [unfolded target_name_re_def] this]
    show False by (simp add: is_lower_def is_digit_def byte_def)
  qed
qed

lemma paths_routed:
  assumes "target_name_re n"
  shows "route ''POST'' (path_segments (update_path n)) = Some (UpdateTarget n)"
    and "route ''POST'' (path_segments (check_path n)) = Some (CheckTarget n)"
  using target_name_plain [OF assms] by (simp_all add: segments route_def)

section \<open>The scan tells the truth\<close>

definition outcome_of :: "(string \<Rightarrow> api_failure + scan_result) \<Rightarrow> string \<Rightarrow> scan_outcome" where
  "outcome_of ask n = fst (classify_scan (ask (check_path n)))"

definition result_row :: "(string \<Rightarrow> api_failure + scan_result) \<Rightarrow> scan_table \<Rightarrow> string \<Rightarrow> string" where
  "result_row ask t n = (case classify_scan (ask (check_path n)) of (oc, r, d) \<Rightarrow> table_row t n r d)"

lemma result_row_pending [simp]: "result_row ask (t\<lparr>tb_pending := b\<rparr>) n = result_row ask t n"
  by (simp add: result_row_def table_row_def)

lemma count_scan_counts:
  "sy_failed (count_scan b n (ask (check_path n)) y) = sy_failed y + (if outcome_of ask n = ScanFailed then 1 else 0)"
  "sy_busy (count_scan b n (ask (check_path n)) y) = sy_busy y + (if outcome_of ask n = ScanBusy then 1 else 0)"
  "sy_available (count_scan b n (ask (check_path n)) y) =
     sy_available y + (if outcome_of ask n = ScanAvailable then 1 else 0)"
  by (simp_all add: count_scan_def outcome_of_def split: scan_outcome.split)

text \<open>What is left on the terminal is one row per target, and the counts are those of the rows.\<close>

lemma scan_loop_result:
  assumes "scan_loop b ask t names y = (ops, y')" and "\<not> tb_pending t"
  shows "screen ops scr = scr @ map (result_row ask t) names
    \<and> sy_failed y' = sy_failed y + length [n \<leftarrow> names. outcome_of ask n = ScanFailed]
    \<and> sy_busy y' = sy_busy y + length [n \<leftarrow> names. outcome_of ask n = ScanBusy]
    \<and> sy_available y' = sy_available y + length [n \<leftarrow> names. outcome_of ask n = ScanAvailable]"
  using assms
proof (induction names arbitrary: t y ops scr)
  case (Cons n names)
  obtain ops1 t1 where c: "table_checking t n = (ops1, t1)" by fastforce
  obtain oc r d where k: "classify_scan (ask (check_path n)) = (oc, r, d)" by (rule prod_cases3)
  obtain ops2 t2 where res: "table_result t1 n r d = (ops2, t2)" by fastforce
  obtain ops3 where rest: "scan_loop b ask t2 names (count_scan b n (ask (check_path n)) y) = (ops3, y')"
    and ops: "ops = ops1 @ ops2 @ ops3"
    using Cons.prems(1) by (auto simp: c k res split: prod.splits)
  have t2: "t2 = t\<lparr>tb_pending := False\<rparr>" and p2: "\<not> tb_pending t2"
    using c res by (auto simp: table_checking_def table_result_def split: if_splits)
  have row: "screen ops2 (screen ops1 scr) = scr @ [result_row ask t n]"
    using c res k Cons.prems(2)
    by (auto simp: table_checking_def table_result_def screen_def result_row_def table_row_def split: if_splits)
  note ih = Cons.IH [OF rest p2, of "scr @ [result_row ask t n]"]
  have "screen ops scr = scr @ map (result_row ask t) (n # names)"
    using ih row by (simp add: ops t2)
  with ih show ?case by (simp add: count_scan_counts)
qed (simp add: screen_def)

end
