(* ===== verification/Pipeline_Wait.thy ===== *)
theory Pipeline_Wait
  imports Pipeline_Trace
begin

text \<open>
  The health loop in time.  Under the laws of the clock and of the ticker the loop returns,
  with fuel for one poll per tick up to the deadline; and it reports success only after the
  watched services were settled in every poll of a stretch as long as the stability window.
\<close>

section \<open>Laws of the clock\<close>

text \<open>
  The clock does not run backwards (Go compares monotonic readings), and the \<open>i\<close>-th tick of a
  ticker does not come before \<open>i\<close> periods have passed.
\<close>

definition time_at :: "'w docker \<Rightarrow> 'w \<Rightarrow> time" where
  "time_at d w = fst (dk_clock d w)"

definition clock_laws :: "'w docker \<Rightarrow> bool" where
  "clock_laws d \<longleftrightarrow>
     (\<forall>w. time_at d w \<le> time_at d (snd (dk_clock d w)))
     \<and> (\<forall>b args wd env c w. time_at d w \<le> time_at d (snd (dk_run d b args wd env c w)))
     \<and> (\<forall>c due w. time_at d w \<le> time_at d (snd (dk_wait d c due w)))
     \<and> (\<forall>c due w. fst (dk_wait d c due w) \<longrightarrow> due \<le> time_at d (snd (dk_wait d c due w)))"

definition now_in :: "'w docker \<Rightarrow> 'w run \<Rightarrow> time" where
  "now_in d s = time_at d (r_world s)"

section \<open>Operations between two polls\<close>

definition is_progress :: "event \<Rightarrow> bool" where
  "is_progress e \<longleftrightarrow> (case e of Called c \<Rightarrow> (case c of SetProgress ss \<Rightarrow> True | _ \<Rightarrow> False) | _ \<Rightarrow> False)"

definition extends :: "'w docker \<Rightarrow> 'w run \<Rightarrow> 'w run \<Rightarrow> bool" where
  "extends d s s' \<longleftrightarrow> now_in d s \<le> now_in d s' \<and>
     (\<exists>es ts. r_trace s' = r_trace s @ es \<and> r_stamps s' = r_stamps s @ ts \<and> length ts = length es
        \<and> list_all (\<lambda>e. \<not> is_progress e) es \<and> list_all (\<lambda>x. now_in d s \<le> x) ts)"

definition calm :: "'w docker \<Rightarrow> ('w, 'a) act \<Rightarrow> bool" where
  "calm d m \<longleftrightarrow> (\<forall>s. extends d s (snd (run_state m s)))"

lemma extends_refl: "extends d s s"
  by (simp add: extends_def)

lemma extends_trans:
  assumes "extends d s s'" and "extends d s' s''"
  shows "extends d s s''"
proof -
  obtain es ts where 1: "r_trace s' = r_trace s @ es" "r_stamps s' = r_stamps s @ ts"
      "length ts = length es" "list_all (\<lambda>e. \<not> is_progress e) es"
      "list_all (\<lambda>x. now_in d s \<le> x) ts" "now_in d s \<le> now_in d s'"
    using assms(1) unfolding extends_def by blast
  obtain es' ts' where 2: "r_trace s'' = r_trace s' @ es'" "r_stamps s'' = r_stamps s' @ ts'"
      "length ts' = length es'" "list_all (\<lambda>e. \<not> is_progress e) es'"
      "list_all (\<lambda>x. now_in d s' \<le> x) ts'" "now_in d s' \<le> now_in d s''"
    using assms(2) unfolding extends_def by blast
  have "list_all (\<lambda>x. now_in d s \<le> x) ts'"
    using 2(5) 1(6) by (auto simp: list_all_iff)
  with 1 2 show ?thesis
    unfolding extends_def by (intro conjI exI [of _ "es @ es'"] exI [of _ "ts @ ts'"]) auto
qed

named_theorems calm_intros \<open>operations that make no progress report\<close>

lemma calm_return [calm_intros]: "calm d (State_Monad.return a)"
  by (simp add: calm_def extends_refl)

lemma calm_bind [calm_intros]:
  assumes "calm d m" and "\<And>a. calm d (f a)"
  shows "calm d (State_Monad.bind m f)"
  unfolding calm_def
proof
  fix s
  obtain a s1 where 1: "run_state m s = (a, s1)" by fastforce
  have "extends d s s1" using assms(1) 1 unfolding calm_def by (metis snd_conv)
  moreover have "extends d s1 (snd (run_state (f a) s1))" using assms(2) unfolding calm_def by blast
  ultimately show "extends d s (snd (run_state (State_Monad.bind m f) s))"
    using 1 by (auto intro: extends_trans)
qed

lemma calm_if [calm_intros]:
  "(b \<Longrightarrow> calm d m) \<Longrightarrow> (\<not> b \<Longrightarrow> calm d n) \<Longrightarrow> calm d (if b then m else n)"
  by simp

lemma calm_option [calm_intros]:
  "(x = None \<Longrightarrow> calm d m) \<Longrightarrow> (\<And>a. x = Some a \<Longrightarrow> calm d (f a)) \<Longrightarrow>
   calm d (case x of None \<Rightarrow> m | Some a \<Rightarrow> f a)"
  by (cases x) auto

lemma calm_sum [calm_intros]:
  "(\<And>a. x = Inl a \<Longrightarrow> calm d (f a)) \<Longrightarrow> (\<And>a. x = Inr a \<Longrightarrow> calm d (g a)) \<Longrightarrow>
   calm d (case x of Inl a \<Rightarrow> f a | Inr a \<Rightarrow> g a)"
  by (cases x) auto

lemma calm_world_get [calm_intros]: "calm d (world_get f)"
  by (simp add: calm_def world_get_def extends_refl)

lemma calm_emit: "\<not> is_progress e \<Longrightarrow> calm d (emit d e)"
  by (simp add: calm_def emit_def extends_def now_in_def time_at_def)

lemma calm_world_do [calm_intros]:
  "clock_laws d \<Longrightarrow> calm d (world_do (dk_clock d))"
  "clock_laws d \<Longrightarrow> calm d (world_do (dk_run d b args wd env c))"
  "clock_laws d \<Longrightarrow> calm d (world_do (dk_wait d c due))"
  by (simp_all add: calm_def world_do_def extends_def clock_laws_def now_in_def)

lemma calm_clock [calm_intros]: "clock_laws d \<Longrightarrow> calm d (clock d)"
  unfolding clock_def by (rule calm_intros)

lemma calm_ctx_err [calm_intros]: "clock_laws d \<Longrightarrow> calm d (ctx_err d c)"
  unfolding ctx_err_def by (rule calm_intros | assumption)+

lemma calm_exec [calm_intros]: "clock_laws d \<Longrightarrow> calm d (exec_docker d c wd env args)"
  unfolding exec_docker_def Let_def
  by (rule calm_intros calm_emit | assumption | simp add: is_progress_def)+

lemma calm_containers [calm_intros]: "clock_laws d \<Longrightarrow> calm d (containers d c t env)"
  unfolding containers_def attach_image_ids_def by (rule calm_intros | assumption)+

lemma calm_call [calm_intros]:
  "calm d (call d k (StartStep n))" "calm d (call d k (AddStep x))"
  unfolding call_def by (cases k; simp add: calm_return calm_emit is_progress_def)+

lemma calm_steps [calm_intros]:
  "clock_laws d \<Longrightarrow> calm d (begin_step d k n)"
  "clock_laws d \<Longrightarrow> calm d (done_step d k n st e out)"
  unfolding begin_step_def done_step_def by (rule calm_intros | assumption)+

lemma calmD:
  assumes "calm d m" and "run_state m s = (a, s')"
  shows "extends d s s'"
  using assms unfolding calm_def by (metis snd_conv)


section \<open>The loop returns\<close>

lemma calm_later: "calm d m \<Longrightarrow> run_state m s = (a, s') \<Longrightarrow> now_in d s \<le> now_in d s'"
  by (drule (1) calmD) (simp add: extends_def)

lemma run_clock:
  assumes "clock_laws d" and "run_state (clock d) s = (n, s')"
  shows "n = now_in d s \<and> now_in d s \<le> now_in d s' \<and> r_trace s' = r_trace s \<and> r_stamps s' = r_stamps s"
  using assms by (auto simp: clock_def world_do_def now_in_def time_at_def clock_laws_def)

lemma run_wait_tick:
  assumes "clock_laws d" and "run_state (world_do (dk_wait d c due)) s = (True, s')"
  shows "due \<le> now_in d s'"
  using assms by (auto simp: world_do_def now_in_def clock_laws_def)

lemma later_progress: "run_state (call d k c) s = (u, s') \<Longrightarrow> now_in d s' = now_in d s"
  by (cases k) (auto simp: call_def emit_def now_in_def)

lemma calm_judge [calm_intros]:
  "clock_laws d \<Longrightarrow> calm d (judge_poll d t k hs n b st cs since)"
  unfolding judge_poll_def Let_def by (rule calm_intros | assumption)+

lemma later_poll:
  assumes "clock_laws d" and "run_state (poll_health d t k hs n b st cs since) s = (r, s')"
  shows "now_in d s \<le> now_in d s'"
proof -
  define s1 where "s1 = snd (run_state (call d k (SetProgress (to_service_states (watched_only cs hs)))) s)"
  have 1: "run_state (call d k (SetProgress (to_service_states (watched_only cs hs)))) s = ((), s1)"
    by (simp add: s1_def prod_eq_iff)
  with assms(2) have "run_state (judge_poll d t k hs n b st cs since) s1 = (r, s')"
    by (simp add: poll_health_def)
  from calm_later [OF calm_judge [OF assms(1)] this] later_progress [OF 1] show ?thesis by simp
qed

text \<open>
  \<open>i\<close> ticks have passed since \<open>t0\<close>; the fuel reaches beyond the deadline.
\<close>

lemma wait_loop_returns:
  assumes "clock_laws d"
    and "t0 + int i * health_poll_interval \<le> now_in d s"
    and "0 < fuel" and "st + t_health_timeout t < t0 + (int i + int fuel - 1) * health_poll_interval"
  shows "fst (run_state (wait_loop fuel d c t k env hs n b st t0 i prev since) s) \<noteq> None"
  using assms(2-)
proof (induction fuel arbitrary: i prev since s)
  case (Suc fuel)
  obtain r s1 where 1: "run_state (containers d c t env) s = (r, s1)" by fastforce
  obtain p s2 where 2: "run_state (if rs_err (snd r) = None then poll_health d t k hs n b st (fst r) since
      else State_Monad.return (None, since)) s1 = (p, s2)" by fastforce
  obtain now s3 where 3: "run_state (clock d) s2 = (now, s3)" by fastforce
  have "now_in d s \<le> now_in d s1" by (rule calm_later [OF calm_containers [OF assms(1)] 1])
  moreover have "now_in d s1 \<le> now_in d s2"
    using 2 later_poll [OF assms(1)] by (auto split: if_splits)
  ultimately have now: "t0 + int i * health_poll_interval \<le> now"
    using run_clock [OF assms(1) 3] Suc.prems(1) by simp
  show ?case
  proof (cases "fst p = None \<and> \<not> st + t_health_timeout t < now")
    case False
    then show ?thesis using 1 2 3 by (auto simp: Let_def case_prod_beta split: option.splits)
  next
    case True
    define due where "due = t0 + int (Suc i) * health_poll_interval"
    obtain tick s4 where 4: "run_state (world_do (dk_wait d c due)) s3 = (tick, s4)" by fastforce
    have fuel: "0 < fuel"
      using True now Suc.prems(3) by (cases fuel) auto
    show ?thesis
    proof (cases tick)
      case True
      with 4 have "due \<le> now_in d s4" using run_wait_tick [OF assms(1)] by simp
      then have "fst (run_state (wait_loop fuel d c t k env hs n b st t0 (Suc i) pr si) s4) \<noteq> None" for pr si
        using Suc.prems(3) by (intro Suc.IH fuel) (simp_all add: due_def algebra_simps)
      with True \<open>fst p = None \<and> _\<close> 1 2 3 4 [unfolded due_def] show ?thesis
        by (simp add: Let_def del: of_nat_Suc)
    next
      case False
      with \<open>fst p = None \<and> _\<close> 1 2 3 4 [unfolded due_def] show ?thesis
        by (simp add: Let_def del: of_nat_Suc split: prod.split)
    qed
  qed
qed simp

definition enough_fuel :: "target \<Rightarrow> nat" where
  "enough_fuel t = nat (t_health_timeout t div health_poll_interval) + 3"

lemma enough_fuel_reaches:
  "st \<le> t0 \<Longrightarrow> enough_fuel t \<le> fuel \<Longrightarrow>
   st + t_health_timeout t < t0 + (int fuel - 1) * health_poll_interval"
proof -
  assume a: "st \<le> t0" "enough_fuel t \<le> fuel"
  let ?q = "t_health_timeout t div health_poll_interval"
  have "t_health_timeout t < (?q + 1) * health_poll_interval"
    unfolding health_poll_interval_def second_def by presburger
  also have "\<dots> \<le> (int fuel - 1) * health_poll_interval"
    using a(2) by (intro mult_right_mono) (auto simp: enough_fuel_def health_poll_interval_def second_def)
  finally show ?thesis using a(1) by simp
qed

lemma wait_healthy_returns:
  assumes "clock_laws d" and "enough_fuel t \<le> fuel"
  shows "fst (run_state (wait_healthy fuel d c t k env hs n) s) \<noteq> None"
proof -
  obtain b s1 where 1: "run_state (begin_step d k n) s = (b, s1)" by fastforce
  obtain st s2 where 2: "run_state (clock d) s1 = (st, s2)" by fastforce
  obtain t0 s3 where 3: "run_state (clock d) s2 = (t0, s3)" by fastforce
  have "st \<le> t0" "t0 \<le> now_in d s3" "0 < fuel"
    using run_clock [OF assms(1) 2] run_clock [OF assms(1) 3] assms(2) by (auto simp: enough_fuel_def)
  then have "fst (run_state (wait_loop fuel d c t k env hs n b st t0 0 [] None) s3) \<noteq> None"
    using enough_fuel_reaches [of st t0 t fuel] assms(2)
    by (intro wait_loop_returns [OF assms(1)]) simp_all
  with 1 2 3 show ?thesis by (simp add: wait_healthy_def)
qed

text \<open>Every fuel the pipeline needs is that of its two health checks.\<close>

definition gives :: "('w, 'a option) act \<Rightarrow> bool" where
  "gives m \<longleftrightarrow> (\<forall>s. fst (run_state m s) \<noteq> None)"

lemma gives_return: "gives (State_Monad.return (Some v))"
  by (simp add: gives_def)

lemma gives_bind: "(\<And>a. gives (f a)) \<Longrightarrow> gives (State_Monad.bind m f)"
  by (auto simp: gives_def split: prod.splits)

lemma gives_wait:
  assumes "gives m" and "\<And>v. gives (f v)"
  shows "gives (State_Monad.bind m (\<lambda>w. case w of None \<Rightarrow> State_Monad.return None | Some v \<Rightarrow> f v))"
  using assms unfolding gives_def by (auto split: prod.splits option.splits) (metis fst_conv option.distinct(1))

lemma gives_if: "gives m \<Longrightarrow> gives n \<Longrightarrow> gives (if b then m else n)"
  by simp

lemma gives_option: "gives m \<Longrightarrow> (\<And>a. gives (f a)) \<Longrightarrow> gives (case x of None \<Rightarrow> m | Some a \<Rightarrow> f a)"
  by (cases x) auto

lemma gives_wait_healthy:
  "clock_laws d \<Longrightarrow> enough_fuel t \<le> fuel \<Longrightarrow> gives (wait_healthy fuel d c t k env hs n)"
  unfolding gives_def using wait_healthy_returns by blast

lemma gives_pipeline:
  assumes "clock_laws d" and "enough_fuel t \<le> fuel"
  shows "gives (pipeline fuel d c t k req)"
proof -
  note wait = gives_wait [OF gives_wait_healthy [OF assms]]
  have rb: "gives (rollback fuel d c t k prior ss hs cause)" for prior ss hs cause
    unfolding rollback_def Let_def
    by (rule gives_if gives_option wait gives_bind gives_return)+
  have ap: "gives (apply_update fuel d c t k env prior changed)" for env prior changed
    unfolding apply_update_def Let_def
    by (rule rb gives_if gives_option wait gives_bind gives_return)+
  have "gives (case plan of Inl result \<Rightarrow> State_Monad.return (Some result)
      | Inr (env, prior, changed) \<Rightarrow> apply_update fuel d c t k env prior changed)" for plan
    by (cases plan) (auto simp: gives_return ap split: prod.split)
  then show ?thesis unfolding pipeline_def by (rule gives_bind)
qed

section \<open>Success means settled for the whole stability window\<close>

text \<open>
  \<open>settled_run hs i es\<close>: from the \<open>i\<close>-th event on, which is a progress report, every progress
  report shows containers in which the watched services are settled.
\<close>

definition settled_event :: "string list \<Rightarrow> event \<Rightarrow> bool" where
  "settled_event hs e \<longleftrightarrow> (\<exists>cs. e = Called (SetProgress (to_service_states (watched_only cs hs)))
     \<and> fst (settled cs hs))"

definition settled_run :: "string list \<Rightarrow> nat \<Rightarrow> event list \<Rightarrow> bool" where
  "settled_run hs i es \<longleftrightarrow> i < length es \<and> is_progress (es ! i)
     \<and> list_all (\<lambda>e. is_progress e \<longrightarrow> settled_event hs e) (drop i es)"

text \<open>The loop's invariant for \<open>settledSince\<close>, \<open>n0\<close> being the length of the trace at its start.\<close>

definition since_ok :: "string list \<Rightarrow> nat \<Rightarrow> time option \<Rightarrow> 'w run \<Rightarrow> bool" where
  "since_ok hs n0 since s \<longleftrightarrow> length (r_stamps s) = length (r_trace s) \<and> n0 \<le> length (r_trace s)
     \<and> (case since of None \<Rightarrow> True
        | Some x \<Rightarrow> \<exists>i. n0 \<le> i \<and> settled_run hs i (r_trace s) \<and> r_stamps s ! i \<le> x)"

lemma settled_run_calm:
  "settled_run hs i es \<Longrightarrow> list_all (\<lambda>e. \<not> is_progress e) fs \<Longrightarrow> settled_run hs i (es @ fs)"
  by (auto simp: settled_run_def nth_append list_all_iff)

lemma since_ok_extends:
  assumes "since_ok hs n0 since s" and "extends d s s'"
  shows "since_ok hs n0 since s'"
proof -
  obtain es ts where e: "r_trace s' = r_trace s @ es" "r_stamps s' = r_stamps s @ ts"
      "length ts = length es" "list_all (\<lambda>e. \<not> is_progress e) es"
    using assms(2) unfolding extends_def by blast
  show ?thesis
  proof (cases since)
    case None
    then show ?thesis using assms(1) e by (simp add: since_ok_def)
  next
    case (Some x)
    then obtain i where i: "n0 \<le> i" "settled_run hs i (r_trace s)" "r_stamps s ! i \<le> x"
      and len: "length (r_stamps s) = length (r_trace s)" "n0 \<le> length (r_trace s)"
      using assms(1) by (auto simp: since_ok_def)
    then have "r_stamps s' ! i \<le> x" using e by (simp add: nth_append settled_run_def)
    then show ?thesis
      using Some i len e settled_run_calm [OF i(2) e(4)] by (auto simp: since_ok_def)
  qed
qed

lemma since_ok_report:
  assumes "since_ok hs n0 since s" and "fst (settled cs hs)" and "x = (case since of None \<Rightarrow> now_in d s | Some y \<Rightarrow> y)"
  shows "since_ok hs n0 (Some x)
    (s\<lparr>r_trace := r_trace s @ [Called (SetProgress (to_service_states (watched_only cs hs)))],
       r_stamps := r_stamps s @ [now_in d s]\<rparr>)"
proof -
  let ?e = "Called (SetProgress (to_service_states (watched_only cs hs)))"
  have e: "is_progress ?e" "settled_event hs ?e"
    using assms(2) by (auto simp: is_progress_def settled_event_def)
  have len: "length (r_stamps s) = length (r_trace s)" "n0 \<le> length (r_trace s)"
    using assms(1) by (auto simp: since_ok_def)
  show ?thesis
  proof (cases since)
    case None
    with assms(3) len e show ?thesis
      by (auto simp: since_ok_def settled_run_def nth_append intro!: exI [of _ "length (r_trace s)"])
  next
    case (Some y)
    then obtain i where i: "n0 \<le> i" "settled_run hs i (r_trace s)" "r_stamps s ! i \<le> y"
      using assms(1) by (auto simp: since_ok_def)
    with Some assms(3) len e show ?thesis
      by (auto simp: since_ok_def settled_run_def nth_append list_all_iff intro!: exI [of _ i])
  qed
qed

text \<open>What success leaves in the trace: a settled run that ends with the trace, \<open>w\<close> or more long.\<close>

definition stable_for :: "string list \<Rightarrow> nat \<Rightarrow> duration \<Rightarrow> event list \<Rightarrow> time list \<Rightarrow> bool" where
  "stable_for hs n0 w es ts \<longleftrightarrow> (\<exists>i. n0 \<le> i \<and> settled_run hs i es \<and> ts ! i + w \<le> last ts)"

lemma run_call_job:
  "run_state (call d JobSink c) s = ((), s\<lparr>r_trace := r_trace s @ [Called c],
     r_stamps := r_stamps s @ [now_in d s]\<rparr>)"
  by (simp add: call_def emit_def now_in_def time_at_def)

lemma done_last_stamp:
  assumes "clock_laws d" and "run_state (done_step d JobSink n b e out) s = (u, s')"
    and "length (r_stamps s) = length (r_trace s)"
  shows "extends d s s' \<and> now_in d s \<le> last (r_stamps s')"
proof -
  have ext: "extends d s s'"
    by (rule calmD [OF _ assms(2)]) (rule calm_intros assms(1))+
  then obtain es ts where e: "r_trace s' = r_trace s @ es" "r_stamps s' = r_stamps s @ ts"
      "length ts = length es" "list_all (\<lambda>x. now_in d s \<le> x) ts"
    unfolding extends_def by blast
  obtain now where "r_trace s' = r_trace s @ [Called (AddStep (make_step n [] b now e out))]"
    using emitsE [OF emits_done [of d n b e out] assms(2)[unfolded surjective_pairing [symmetric]]]
    by auto
  with e have "ts \<noteq> []" by auto
  with e(4) have "now_in d s \<le> last ts" by (simp add: list_all_iff)
  with ext e(2) \<open>ts \<noteq> []\<close> show ?thesis by simp
qed

lemma judge_stable:
  assumes laws: "clock_laws d" and w: "0 \<le> t_stability_window t" and set: "fst (settled cs hs)"
    and inv: "\<And>x. x = (case since of None \<Rightarrow> now_in d s | Some y \<Rightarrow> y) \<Longrightarrow> since_ok hs n0 (Some x) s"
    and run: "run_state (judge_poll d t JobSink hs n b st cs since) s = (r, s')"
  shows "(fst r = Some None \<longrightarrow> stable_for hs n0 (t_stability_window t) (r_trace s') (r_stamps s'))
    \<and> (fst r = None \<longrightarrow> since_ok hs n0 (snd r) s')"
proof -
  obtain x s1 where 1: "run_state (case since of Some x \<Rightarrow> State_Monad.return x | None \<Rightarrow> clock d) s = (x, s1)"
    by fastforce
  obtain now s2 where 2: "run_state (clock d) s1 = (now, s2)" by fastforce
  have x: "x = (case since of None \<Rightarrow> now_in d s | Some y \<Rightarrow> y)"
    using 1 run_clock [OF laws] by (auto split: option.splits)
  have "extends d s s1"
    by (rule calmD [OF _ 1]) (rule calm_intros laws)+
  moreover have "extends d s1 s2" by (rule calmD [OF calm_clock [OF laws] 2])
  ultimately have ok: "since_ok hs n0 (Some x) s2"
    using since_ok_extends inv [OF x] extends_trans by blast
  show ?thesis
  proof (cases "t_stability_window t \<le> time_sub now x")
    case False
    with run 1 2 set ok show ?thesis by (auto simp: judge_poll_def)
  next
    case True
    define s3 where "s3 = snd (run_state (done_step d JobSink n b None (describe cs)) s2)"
    have 3: "run_state (done_step d JobSink n b None (describe cs)) s2 = ((), s3)"
      by (simp add: s3_def prod_eq_iff)
    have r: "r = (Some None, Some x)" "s' = s3"
      using run 1 2 3 set True by (auto simp: judge_poll_def)
    have "x + t_stability_window t \<le> now"
      using time_sub_ge [OF True] w by (simp add: max_int64_def)
    also have "now \<le> now_in d s2" using run_clock [OF laws 2] by simp
    also have "now_in d s2 \<le> last (r_stamps s3)"
      using done_last_stamp [OF laws 3] ok by (simp add: since_ok_def)
    finally have last: "x + t_stability_window t \<le> last (r_stamps s3)" .
    have "extends d s2 s3" using done_last_stamp [OF laws 3] ok by (simp add: since_ok_def)
    then have "since_ok hs n0 (Some x) s3" by (rule since_ok_extends [OF ok])
    then obtain i where "n0 \<le> i" "settled_run hs i (r_trace s3)" "r_stamps s3 ! i \<le> x"
      by (auto simp: since_ok_def)
    with last r show ?thesis unfolding stable_for_def by fastforce
  qed
qed

lemma judge_unsettled:
  assumes laws: "clock_laws d" and set: "\<not> fst (settled cs hs)"
    and ok: "since_ok hs n0 None s"
    and run: "run_state (judge_poll d t JobSink hs n b st cs since) s = (r, s')"
  shows "fst r \<noteq> Some None \<and> (fst r = None \<longrightarrow> since_ok hs n0 (snd r) s')"
proof -
  have "since_ok hs n0 None s'"
    by (rule since_ok_extends [OF ok calmD [OF calm_judge [OF laws] run]])
  moreover have "fst r \<noteq> Some None \<and> (fst r = None \<longrightarrow> snd r = None)"
    using run set by (auto simp: judge_poll_def Let_def split: prod.splits option.splits if_splits)
  ultimately show ?thesis by auto
qed

lemma poll_stable:
  assumes laws: "clock_laws d" and w: "0 \<le> t_stability_window t" and ok: "since_ok hs n0 since s"
    and run: "run_state (poll_health d t JobSink hs n b st cs since) s = (r, s')"
  shows "(fst r = Some None \<longrightarrow> stable_for hs n0 (t_stability_window t) (r_trace s') (r_stamps s'))
    \<and> (fst r = None \<longrightarrow> since_ok hs n0 (snd r) s')"
proof -
  let ?s1 = "s\<lparr>r_trace := r_trace s @ [Called (SetProgress (to_service_states (watched_only cs hs)))],
       r_stamps := r_stamps s @ [now_in d s]\<rparr>"
  have j: "run_state (judge_poll d t JobSink hs n b st cs since) ?s1 = (r, s')"
    using run by (simp add: poll_health_def run_call_job)
  show ?thesis
  proof (cases "fst (settled cs hs)")
    case True
    have now: "now_in d ?s1 = now_in d s" by (simp add: now_in_def)
    show ?thesis
      by (rule judge_stable [OF laws w True _ j]) (rule since_ok_report [OF ok True], simp only: now)
  next
    case False
    have "since_ok hs n0 None ?s1" using ok by (auto simp: since_ok_def)
    from judge_unsettled [OF laws False this j] show ?thesis by simp
  qed
qed

lemma wait_loop_stable:
  assumes laws: "clock_laws d" and w: "0 \<le> t_stability_window t"
    and "since_ok hs n0 since s"
    and "run_state (wait_loop fuel d c t JobSink env hs n b st t0 i prev since) s = (Some None, s')"
  shows "stable_for hs n0 (t_stability_window t) (r_trace s') (r_stamps s')"
  using assms(3-)
proof (induction fuel arbitrary: i prev since s)
  case (Suc fuel)
  obtain r s1 where 1: "run_state (containers d c t env) s = (r, s1)" by fastforce
  obtain p s2 where 2: "run_state (if rs_err (snd r) = None then poll_health d t JobSink hs n b st (fst r) since
      else State_Monad.return (None, since)) s1 = (p, s2)" by fastforce
  obtain now s3 where 3: "run_state (clock d) s2 = (now, s3)" by fastforce
  have ok1: "since_ok hs n0 since s1"
    by (rule since_ok_extends [OF Suc.prems(1) calmD [OF calm_containers [OF laws] 1]])
  have ok2: "(fst p = Some None \<longrightarrow> stable_for hs n0 (t_stability_window t) (r_trace s2) (r_stamps s2))
    \<and> (fst p = None \<longrightarrow> since_ok hs n0 (snd p) s2)"
    using 2 ok1 poll_stable [OF laws w ok1] by (auto split: if_splits)
  show ?case
  proof (cases "fst p = None \<and> \<not> st + t_health_timeout t < now")
    case False
    with Suc.prems(2) 1 2 3 ok2 show ?thesis
      by (auto simp: Let_def split: option.splits prod.splits)
  next
    case True
    define due where "due = t0 + int (Suc i) * health_poll_interval"
    obtain tick s4 where 4: "run_state (world_do (dk_wait d c due)) s3 = (tick, s4)" by fastforce
    have "since_ok hs n0 (snd p) s2" using ok2 True by simp
    then have "since_ok hs n0 (snd p) s4"
      by (rule since_ok_extends) (rule extends_trans [OF calmD [OF calm_clock [OF laws] 3]
          calmD [OF calm_world_do(3) [OF laws] 4]])
    moreover have "tick \<and> run_state (wait_loop fuel d c t JobSink env hs n b st t0 (Suc i)
        (if rs_err (snd r) = None then fst r else prev) (snd p)) s4 = (Some None, s')"
      using Suc.prems(2) True 1 2 3 4 [unfolded due_def]
      by (auto simp: Let_def simp del: of_nat_Suc split: prod.splits if_splits)
    ultimately show ?thesis by (blast intro: Suc.IH)
  qed
qed simp

lemma wait_healthy_stable:
  assumes laws: "clock_laws d" and w: "0 \<le> t_stability_window t"
    and len: "length (r_stamps s) = length (r_trace s)"
    and run: "run_state (wait_healthy fuel d c t JobSink env hs n) s = (Some None, s')"
  shows "stable_for hs (length (r_trace s)) (t_stability_window t) (r_trace s') (r_stamps s')"
proof -
  obtain b s1 where 1: "run_state (begin_step d JobSink n) s = (b, s1)" by fastforce
  obtain st s2 where 2: "run_state (clock d) s1 = (st, s2)" by fastforce
  obtain t0 s3 where 3: "run_state (clock d) s2 = (t0, s3)" by fastforce
  have "since_ok hs (length (r_trace s)) None s" using len by (simp add: since_ok_def)
  then have "since_ok hs (length (r_trace s)) None s3"
    by (rule since_ok_extends) (rule extends_trans [OF extends_trans
        [OF calmD [OF calm_steps(1) [OF laws] 1] calmD [OF calm_clock [OF laws] 2]]
        calmD [OF calm_clock [OF laws] 3]])
  from wait_loop_stable [OF laws w this] run 1 2 3 show ?thesis
    by (auto simp: wait_healthy_def)
qed

end
