(* ===== verification/Agentd.thy ===== *)
theory Agentd
  imports Wire Pipeline_Wait
begin

text \<open>
  Package \<open>internal/agentd\<close>: the root agent's request handlers.  Every handler is a function of
  the request and the server's state; the handlers of concurrent requests interleave at the
  mutex and at the slot channel, which the relation \<open>agent_step\<close> takes one at a time.
\<close>

section \<open>Who may call\<close>

text \<open>
  What \<open>peerUID\<close> finds behind a connection: no connection in the request's context, none
  readable, or the caller's uid.
\<close>

datatype peer = NoConn | PeerUnreadable | PeerUid "32 word"

record agent =
  ag_cfg :: config
  ag_allowed_uid :: "32 word"
  ag_check_peer :: bool
  ag_peer_supported :: bool
  ag_has_checker :: bool
  ag_has_imager :: bool
  ag_config_path :: string
  ag_config_loaded :: time

text \<open>A refusal is the status and the error message of \<open>writeError\<close>.\<close>

type_synonym refusal = "nat \<times> string"

definition authorise_peer :: "agent \<Rightarrow> peer \<Rightarrow> refusal option" where
  "authorise_peer s p =
     (if \<not> ag_check_peer s then None
      else (case p of
              NoConn \<Rightarrow> Some (403, ''peer identity unavailable'')
            | PeerUnreadable \<Rightarrow>
                if \<not> ag_peer_supported s then None
                else Some (403, ''could not verify caller identity'')
            | PeerUid uid \<Rightarrow>
                if uid \<noteq> 0 \<and> uid \<noteq> ag_allowed_uid s
                then Some (403, ''caller is not permitted to use the update agent'')
                else None))"

section \<open>Checks on a request\<close>

definition clip :: "string \<Rightarrow> string" where
  "clip s = (if 64 < length s then take 64 s @ ellipsis else s)"

text \<open>\<open>current\<close> is what loading the configuration file again gives.\<close>

definition unknown_target :: "agent \<Rightarrow> config_error + config \<Rightarrow> string \<Rightarrow> string" where
  "unknown_target s current name =
     (if ag_config_path s = [] then ''unknown target''
      else (case current of
              Inl e \<Rightarrow> ''unknown target''
            | Inr c \<Rightarrow>
                if c_fingerprint c = c_fingerprint (ag_cfg s)
                then ''unknown target '' @ quote (clip name) @ ''; it is not in '' @ ag_config_path s
                else if target_by_name c name = None
                then ''unknown target '' @ quote (clip name) @ ''; '' @ ag_config_path s
                     @ '' has changed since this agent started but still does not list it''
                else ''target '' @ quote (clip name) @ '' was added to '' @ ag_config_path s
                     @ '' after this agent started, so the agent has not loaded it yet. ''
                     @ ''Apply it with: sudo systemctl restart dup-agent dup''))"

definition validate_tag :: "target \<Rightarrow> string \<Rightarrow> string option" where
  "validate_tag t tag =
     (if tag = [] then None
      else if t_image_tag_env t = [] then Some ''this target does not accept a tag''
      else if \<not> valid_image_tag tag then Some ''tag is not a valid container image tag''
      else None)"

text \<open>The part the three POST handlers share: the body, its JSON and the target it names.\<close>

definition decode_body :: "(string \<Rightarrow> string + 'r) \<Rightarrow> string \<Rightarrow> refusal + 'r" where
  "decode_body dec body =
     (if max_body_bytes < length body then Inl (413, ''request body too large'')
      else (case dec body of
              Inl e \<Rightarrow> Inl (400, ''invalid request: '' @ e)
            | Inr r \<Rightarrow> Inr r))"

definition find_target :: "agent \<Rightarrow> config_error + config \<Rightarrow> string \<Rightarrow> refusal + target" where
  "find_target s current name =
     (case target_by_name (ag_cfg s) name of
        None \<Rightarrow> Inl (404, unknown_target s current name)
      | Some t \<Rightarrow> Inr t)"

section \<open>The locks\<close>

definition max_concurrent :: nat where "max_concurrent = 3"

record locks =
  lk_running :: "string set"
  lk_slots :: nat

definition acquire :: "string \<Rightarrow> locks \<Rightarrow> bool \<times> locks" where
  "acquire n l = (if n \<in> lk_running l then (False, l) else (True, l\<lparr>lk_running := insert n (lk_running l)\<rparr>))"

definition release :: "string \<Rightarrow> locks \<Rightarrow> locks" where
  "release n l = l\<lparr>lk_running := lk_running l - {n}\<rparr>"

definition take_slot :: "locks \<Rightarrow> bool \<times> locks" where
  "take_slot l = (if lk_slots l < max_concurrent then (True, l\<lparr>lk_slots := Suc (lk_slots l)\<rparr>) else (False, l))"

definition give_slot :: "locks \<Rightarrow> locks" where
  "give_slot l = l\<lparr>lk_slots := lk_slots l - 1\<rparr>"

text \<open>
  Taking both locks; on failure the deferred \<open>release\<close> has run.  \<open>leave\<close> runs the deferred
  calls of a handler that got both, in the reverse order of their registration.
\<close>

definition enter :: "string \<Rightarrow> string \<Rightarrow> locks \<Rightarrow> (refusal option) \<times> locks" where
  "enter busy n l =
     (case acquire n l of
        (False, l1) \<Rightarrow> (Some (409, ''an update is already running for this target''), l1)
      | (True, l1) \<Rightarrow>
          (case take_slot l1 of
             (False, l2) \<Rightarrow> (Some (503, busy), release n l2)
           | (True, l2) \<Rightarrow> (None, l2)))"

definition leave :: "string \<Rightarrow> locks \<Rightarrow> locks" where
  "leave n l = release n (give_slot l)"

section \<open>The handlers\<close>

definition exec_gate ::
  "agent \<Rightarrow> config_error + config \<Rightarrow> (string \<Rightarrow> string + exec_request) \<Rightarrow> peer \<Rightarrow> string
   \<Rightarrow> refusal + (target \<times> exec_request)" where
  "exec_gate s current dec p body =
     (case authorise_peer s p of
        Some r \<Rightarrow> Inl r
      | None \<Rightarrow>
          (case decode_body dec body of
             Inl r \<Rightarrow> Inl r
           | Inr req \<Rightarrow>
               (case find_target s current (ex_target req) of
                  Inl r \<Rightarrow> Inl r
                | Inr t \<Rightarrow>
                    (case validate_tag t (ex_tag req) of
                       Some e \<Rightarrow> Inl (400, e)
                     | None \<Rightarrow> Inr (t, req)))))"

definition exec_busy :: string where
  "exec_busy = ''the update agent is already running its maximum number of concurrent updates''"

text \<open>
  What the agent runs for an accepted request: the pipeline under the target's job timeout,
  cut loose from the caller's connection, and the stream its sink and its result make.
\<close>

definition job_request_of :: "exec_request \<Rightarrow> job_request" where
  "job_request_of req =
     \<lparr>rq_tag = ex_tag req, rq_reason = [], rq_trigger = [], rq_dry_run = ex_dry_run req,
      rq_force = ex_force req\<rparr>"

definition run_update ::
  "nat \<Rightarrow> 'w docker \<Rightarrow> target \<Rightarrow> exec_request \<Rightarrow> ('w, (job_state \<times> string) option) act" where
  "run_update fuel d t req = do {
     c \<leftarrow> with_timeout d (WithoutCancel CallerCtx) (t_job_timeout t);
     pipeline fuel d c t JobSink (job_request_of req)
   }"

datatype 'a reply = Refused nat string | Reply 'a

text \<open>
  \<open>handleExec\<close> for one request with nothing else running meanwhile: the reply, the locks and
  the run after it.  \<open>None\<close> is the fuel of the health loop running out.
\<close>

definition handle_exec ::
  "nat \<Rightarrow> 'w docker \<Rightarrow> agent \<Rightarrow> config_error + config \<Rightarrow> (string \<Rightarrow> string + exec_request) \<Rightarrow> peer \<Rightarrow> string
   \<Rightarrow> locks \<times> 'w run \<Rightarrow> wire_event list reply option \<times> locks \<times> 'w run" where
  "handle_exec fuel d s current dec p body lr =
     (case exec_gate s current dec p body of
        Inl (n, e) \<Rightarrow> (Some (Refused n e), lr)
      | Inr (t, req) \<Rightarrow>
          (case enter exec_busy (t_name t) (fst lr) of
             (Some (n, e), l1) \<Rightarrow> (Some (Refused n e), l1, snd lr)
           | (None, l1) \<Rightarrow>
               (case run_state (run_update fuel d t req) (snd lr) of
                  (res, r1) \<Rightarrow>
                    (map_option (\<lambda>v. Reply (exec_stream
                       (calls (drop (length (r_trace (snd lr))) (r_trace r1))) v)) res,
                     leave (t_name t) l1, r1))))"

definition check_gate ::
  "agent \<Rightarrow> config_error + config \<Rightarrow> (string \<Rightarrow> string + string) \<Rightarrow> peer \<Rightarrow> string \<Rightarrow> refusal + target" where
  "check_gate s current dec p body =
     (case authorise_peer s p of
        Some r \<Rightarrow> Inl r
      | None \<Rightarrow>
          if \<not> ag_has_checker s then Inl (501, ''this agent cannot check for updates'')
          else (case decode_body dec body of
                  Inl r \<Rightarrow> Inl r
                | Inr name \<Rightarrow> find_target s current name))"

definition handle_check ::
  "'w docker \<Rightarrow> agent \<Rightarrow> config_error + config \<Rightarrow> (string \<Rightarrow> string + string) \<Rightarrow> peer \<Rightarrow> string
   \<Rightarrow> locks \<times> 'w run \<Rightarrow> check_result reply \<times> locks \<times> 'w run" where
  "handle_check d s current dec p body lr =
     (case check_gate s current dec p body of
        Inl (n, e) \<Rightarrow> (Refused n e, lr)
      | Inr t \<Rightarrow>
          (case enter ''the update agent is busy'' (t_name t) (fst lr) of
             (Some (n, e), l1) \<Rightarrow> (Refused n e, l1, snd lr)
           | (None, l1) \<Rightarrow>
               (case run_state (check d CallerCtx t) (snd lr) of
                  (Inl e, r1) \<Rightarrow> (Refused 500 e, leave (t_name t) l1, r1)
                | (Inr c, r1) \<Rightarrow> (Reply c, leave (t_name t) l1, r1))))"

definition images_gate ::
  "agent \<Rightarrow> config_error + config \<Rightarrow> (string \<Rightarrow> string + string) \<Rightarrow> peer \<Rightarrow> string \<Rightarrow> refusal + target" where
  "images_gate s current dec p body =
     (case authorise_peer s p of
        Some r \<Rightarrow> Inl r
      | None \<Rightarrow>
          if \<not> ag_has_imager s then Inl (501, ''this agent cannot resolve images'')
          else (case decode_body dec body of
                  Inl r \<Rightarrow> Inl r
                | Inr name \<Rightarrow> find_target s current name))"

definition handle_images ::
  "'w docker \<Rightarrow> agent \<Rightarrow> config_error + config \<Rightarrow> (string \<Rightarrow> string + string) \<Rightarrow> peer \<Rightarrow> string
   \<Rightarrow> 'w run \<Rightarrow> images_result reply \<times> 'w run" where
  "handle_images d s current dec p body r =
     (case images_gate s current dec p body of
        Inl (n, e) \<Rightarrow> (Refused n e, r)
      | Inr t \<Rightarrow>
          (case run_state (images d CallerCtx t) r of
             (Inl e, r1) \<Rightarrow> (Refused 500 e, r1)
           | (Inr i, r1) \<Rightarrow> (Reply i, r1)))"

record health_result =
  hr_status :: string
  hr_fingerprint :: string
  hr_loaded :: time
  hr_targets :: "string list"

definition handle_health :: "agent \<Rightarrow> health_result" where
  "handle_health s =
     \<lparr>hr_status = ''ok'', hr_fingerprint = c_fingerprint (ag_cfg s),
      hr_loaded = ag_config_loaded s, hr_targets = target_names (ag_cfg s)\<rparr>"

text \<open>\<open>Listen\<close> up to the system calls that bind: what it does about the path.\<close>

datatype listen_plan = ListenRefused string | RemoveStale | BindFresh

definition listen_plan_of :: "host \<Rightarrow> string \<Rightarrow> listen_plan" where
  "listen_plan_of h path =
     (if \<not> is_abs path then ListenRefused ''agent socket path must be absolute''
      else (case hs_lstat h path of
              Inr i \<Rightarrow>
                if fi_kind i \<noteq> SocketFile
                then ListenRefused (''refusing to replace '' @ path @ '': it exists and is not a socket'')
                else RemoveStale
            | Inl NotExist \<Rightarrow> BindFresh
            | Inl e \<Rightarrow> ListenRefused ''stat agent socket''))"

section \<open>One handler\<close>

lemma enter_leave:
  "enter busy n l = (None, l') \<Longrightarrow> leave n l' = l"
  by (auto simp: enter_def leave_def acquire_def take_slot_def give_slot_def release_def
      split: if_splits)

lemma enter_refused: "enter busy n l = (Some r, l') \<Longrightarrow> l' = l"
  by (auto simp: enter_def acquire_def take_slot_def release_def split: if_splits)

lemma enter_None:
  "enter busy n l = (None, l') \<longleftrightarrow>
   n \<notin> lk_running l \<and> lk_slots l < max_concurrent
   \<and> l' = l\<lparr>lk_running := insert n (lk_running l), lk_slots := Suc (lk_slots l)\<rparr>"
  by (auto simp: enter_def acquire_def take_slot_def split: if_splits)

lemma handle_exec_locks: "fst (snd (handle_exec fuel d s cur dec p body lr)) = fst lr"
  by (auto simp: handle_exec_def enter_leave split: sum.split option.split prod.split
      dest: enter_refused enter_leave)

lemma handle_check_locks: "fst (snd (handle_check d s cur dec p body lr)) = fst lr"
  by (auto simp: handle_check_def enter_leave split: sum.split option.split prod.split
      dest: enter_refused enter_leave)

section \<open>Concurrent handlers\<close>

text \<open>
  A handler that has passed its gate, with the target it is about: it has the target's lock,
  then a slot too, then it has given the slot back.
\<close>

datatype phase = Acquired | Holding | Releasing

record pool =
  pl_locks :: locks
  pl_flight :: "(nat \<times> string \<times> phase) list"

inductive agent_step :: "pool \<Rightarrow> pool \<Rightarrow> bool" where
  step_acquire: "i \<notin> fst ` set (pl_flight p) \<Longrightarrow> acquire n (pl_locks p) = (True, l) \<Longrightarrow>
    agent_step p \<lparr>pl_locks = l, pl_flight = al_put i (n, Acquired) (pl_flight p)\<rparr>"
| step_slot: "map_of (pl_flight p) i = Some (n, Acquired) \<Longrightarrow> take_slot (pl_locks p) = (True, l) \<Longrightarrow>
    agent_step p \<lparr>pl_locks = l, pl_flight = al_put i (n, Holding) (pl_flight p)\<rparr>"
| step_busy: "map_of (pl_flight p) i = Some (n, Acquired) \<Longrightarrow> take_slot (pl_locks p) = (False, l) \<Longrightarrow>
    agent_step p \<lparr>pl_locks = release n l, pl_flight = al_del i (pl_flight p)\<rparr>"
| step_give: "map_of (pl_flight p) i = Some (n, Holding) \<Longrightarrow>
    agent_step p \<lparr>pl_locks = give_slot (pl_locks p), pl_flight = al_put i (n, Releasing) (pl_flight p)\<rparr>"
| step_release: "map_of (pl_flight p) i = Some (n, Releasing) \<Longrightarrow>
    agent_step p \<lparr>pl_locks = release n (pl_locks p), pl_flight = al_del i (pl_flight p)\<rparr>"

inductive agent_reachable :: "pool \<Rightarrow> bool" where
  idle: "agent_reachable \<lparr>pl_locks = \<lparr>lk_running = {}, lk_slots = 0\<rparr>, pl_flight = []\<rparr>"
| step: "agent_reachable p \<Longrightarrow> agent_step p q \<Longrightarrow> agent_reachable q"

definition holds_slot :: "nat \<times> string \<times> phase \<Rightarrow> bool" where
  "holds_slot h \<longleftrightarrow> snd (snd h) = Holding"

definition pool_inv :: "pool \<Rightarrow> bool" where
  "pool_inv p \<longleftrightarrow> distinct (map fst (pl_flight p)) \<and> distinct (map (fst \<circ> snd) (pl_flight p))
     \<and> lk_running (pl_locks p) = (fst \<circ> snd) ` set (pl_flight p)
     \<and> lk_slots (pl_locks p) = length (filter holds_slot (pl_flight p))
     \<and> lk_slots (pl_locks p) \<le> max_concurrent"

lemma al_put_new: "k \<notin> fst ` set ps \<Longrightarrow> al_put k v ps = ps @ [(k, v)]"
  by (induction ps) auto

lemma al_put_same_target:
  "map_of ps i = Some (n, a) \<Longrightarrow> map (fst \<circ> snd) (al_put i (n, b) ps) = map (fst \<circ> snd) ps"
  by (induction ps) auto

lemma holding_al_put:
  "map_of ps i = Some (n, a) \<Longrightarrow>
   length (filter holds_slot (al_put i (n, b) ps)) + (if a = Holding then 1 else 0)
   = length (filter holds_slot ps) + (if b = Holding then 1 else 0)"
  by (induction ps) (auto simp: holds_slot_def)

lemma holding_al_del:
  "map_of ps i = Some (n, a) \<Longrightarrow> distinct (map fst ps) \<Longrightarrow> a \<noteq> Holding \<Longrightarrow>
   length (filter holds_slot (al_del i ps)) = length (filter holds_slot ps)"
proof (induction ps)
  case (Cons q ps)
  show ?case
  proof (cases "fst q = i")
    case True
    with Cons.prems(2) have "al_del i ps = ps"
      by (simp add: al_del_def filter_id_conv) (metis True distinct.simps(2) image_eqI list.set_map)
    with True Cons.prems show ?thesis by (auto simp: al_del_def holds_slot_def)
  next
    case False
    with Cons show ?thesis by (auto simp: al_del_def)
  qed
qed simp

lemma targets_al_del:
  assumes "map_of ps i = Some (n, a)" and "distinct (map fst ps)" and "distinct (map (fst \<circ> snd) ps)"
  shows "(fst \<circ> snd) ` set (al_del i ps) = (fst \<circ> snd) ` set ps - {n}"
    and "distinct (map (fst \<circ> snd) (al_del i ps))"
proof -
  have mem: "(i, n, a) \<in> set ps" using assms(1) by (rule map_of_SomeD)
  have "fst q \<noteq> i \<longleftrightarrow> (fst \<circ> snd) q \<noteq> n" if "q \<in> set ps" for q
    using that mem assms(2,3) unfolding distinct_map inj_on_def comp_def
    by (metis fst_conv snd_conv)
  then have del: "al_del i ps = filter (\<lambda>q. (fst \<circ> snd) q \<noteq> n) ps"
    unfolding al_del_def by (rule filter_cong [OF refl])
  show "(fst \<circ> snd) ` set (al_del i ps) = (fst \<circ> snd) ` set ps - {n}"
    unfolding del by auto
  show "distinct (map (fst \<circ> snd) (al_del i ps))"
    using assms(3) by (simp add: al_del_def distinct_map_filter)
qed

lemma targets_set: "map (fst \<circ> snd) ps = map (fst \<circ> snd) qs \<Longrightarrow> (fst \<circ> snd) ` set ps = (fst \<circ> snd) ` set qs"
  by (metis list.set_map)

lemma agent_step_inv: "agent_step p q \<Longrightarrow> pool_inv p \<Longrightarrow> pool_inv q"
proof (induction rule: agent_step.induct)
  case (step_acquire i p n l)
  have l: "n \<notin> lk_running (pl_locks p)" "l = (pl_locks p)\<lparr>lk_running := insert n (lk_running (pl_locks p))\<rparr>"
    using step_acquire(2) by (auto simp: acquire_def split: if_splits)
  have f: "al_put i (n, Acquired) (pl_flight p) = pl_flight p @ [(i, n, Acquired)]"
    by (rule al_put_new) (rule step_acquire(1))
  have h: "\<not> holds_slot (i, n, Acquired)" by (simp add: holds_slot_def)
  show ?case
    using step_acquire(1,3) l h unfolding pool_inv_def f by simp
next
  case (step_slot p i n l)
  then have l: "lk_slots (pl_locks p) < max_concurrent"
      "l = (pl_locks p)\<lparr>lk_slots := Suc (lk_slots (pl_locks p))\<rparr>"
    by (auto simp: take_slot_def split: if_splits)
  show ?case
    using step_slot(1,3) l holding_al_put [OF step_slot(1), of Holding]
      al_put_same_target [OF step_slot(1), of Holding]
      targets_set [OF al_put_same_target [OF step_slot(1), of Holding]]
    unfolding pool_inv_def by (simp del: comp_apply)
next
  case (step_busy p i n l)
  then have l: "l = pl_locks p" by (auto simp: take_slot_def split: if_splits)
  show ?case
    using step_busy(1,3) l holding_al_del [OF step_busy(1)] targets_al_del [OF step_busy(1)]
    unfolding pool_inv_def release_def by (simp del: comp_apply)
next
  case (step_give p i n)
  then show ?case
    using holding_al_put [OF step_give(1), of Releasing]
      al_put_same_target [OF step_give(1), of Releasing]
      targets_set [OF al_put_same_target [OF step_give(1), of Releasing]]
    unfolding pool_inv_def give_slot_def by (simp del: comp_apply) linarith
next
  case (step_release p i n)
  then show ?case
    using holding_al_del [OF step_release(1)] targets_al_del [OF step_release(1)]
    unfolding pool_inv_def release_def by (simp del: comp_apply)
qed

lemma agent_reachable_inv: "agent_reachable p \<Longrightarrow> pool_inv p"
proof (induction rule: agent_reachable.induct)
  case (step p q)
  then show ?case by (blast intro: agent_step_inv)
qed (simp add: pool_inv_def)

end
