(* ===== verification/Discover.thy ===== *)
theory Discover
  imports Agentd Go_Order
begin

text \<open>
  \<open>internal/discover\<close>: the compose projects and the loose containers of a host, which the agent
  reports so that the operator sees what no target covers; the agent's handler and the
  client's calls around it.  The decoder of docker's JSON is a record of parameters.
\<close>

section \<open>The records on the wire\<close>

record project =
  pj_name :: string
  pj_status :: string
  pj_files :: "string list"
  pj_dir :: string
  pj_target :: string

record loose =
  lo_name :: string
  lo_image :: string
  lo_state :: string
  lo_project :: string

record discover_result =
  di_projects :: "project list"
  di_loose :: "loose list"
  di_warning :: string

definition uncovered :: "discover_result \<Rightarrow> project list" where
  "uncovered r = [p \<leftarrow> di_projects r. pj_target p = []]"

section \<open>Docker's JSON\<close>

record project_entry =
  pn_name :: string
  pn_status :: string
  pn_config_files :: string

record container_entry =
  cn_names :: string
  cn_image :: string
  cn_state :: string
  cn_labels :: string

text \<open>
  \<open>jc_marshal\<close> is \<open>json.Marshal\<close> of a list of raw messages, which it validates; the others are
  \<open>json.Unmarshal\<close> of an array.
\<close>

record json_codec =
  jc_marshal :: "string list \<Rightarrow> string + string"
  jc_projects :: "string \<Rightarrow> string + project_entry list"
  jc_containers :: "string \<Rightarrow> string + container_entry list"

definition decode_json_stream :: "json_codec \<Rightarrow> (string \<Rightarrow> string + 'a list) \<Rightarrow> string \<Rightarrow> string + 'a list" where
  "decode_json_stream jc dec out0 =
     (let out = trim_space out0 in
      if out = [] then Inr []
      else if has_prefix out ''['' then dec out
      else (case jc_marshal jc [l \<leftarrow> map trim_space (split_on (chr 10) out). l \<noteq> []] of
              Inl e \<Rightarrow> Inl e
            | Inr joined \<Rightarrow> dec joined))"

section \<open>Projects\<close>

definition resolve :: "host \<Rightarrow> string \<Rightarrow> string" where
  "resolve h d =
     (if d = [] then []
      else (case hs_eval_symlinks h d of Inr r \<Rightarrow> r | Inl e \<Rightarrow> clean d))"

text \<open>The map \<open>targetDirs\<close>: a later target of the same directory replaces an earlier one.\<close>

definition target_dirs :: "host \<Rightarrow> config \<Rightarrow> string \<Rightarrow> string option" where
  "target_dirs h c = map_of (rev (map (\<lambda>t. (resolve h (t_dir t), t_name t)) (the_targets c)))"

definition project_dir :: "string list \<Rightarrow> string" where
  "project_dir files = (case files of [] \<Rightarrow> [] | f # fs \<Rightarrow> dir f)"

definition config_file_list :: "string \<Rightarrow> string list" where
  "config_file_list s = [f \<leftarrow> map trim_space (split_on (CHR '','') s). f \<noteq> []]"

definition project_of :: "project_entry \<Rightarrow> project" where
  "project_of e =
     \<lparr>pj_name = pn_name e, pj_status = pn_status e, pj_files = config_file_list (pn_config_files e),
      pj_dir = [], pj_target = []\<rparr>"

definition list_projects :: "'w docker \<Rightarrow> json_codec \<Rightarrow> ctx \<Rightarrow> ('w, string + project list) act" where
  "list_projects d jc c = do {
     out \<leftarrow> docker_output d c [''compose'', ''ls'', ''--all'', ''--format'', ''json''];
     State_Monad.return
       (case out of
          Inl e \<Rightarrow> Inl e
        | Inr o1 \<Rightarrow>
            (case decode_json_stream jc (jc_projects jc) o1 of
               Inl e \<Rightarrow> Inl e
             | Inr es \<Rightarrow> Inr (map project_of [e \<leftarrow> es. pn_name e \<noteq> []])))
   }"

definition place :: "host \<Rightarrow> config \<Rightarrow> project \<Rightarrow> project" where
  "place h c p =
     (let pd = project_dir (pj_files p)
      in p\<lparr>pj_dir := pd,
           pj_target := (case target_dirs h c (resolve h pd) of None \<Rightarrow> [] | Some n \<Rightarrow> n)\<rparr>)"

section \<open>Containers\<close>

fun label_in :: "string list \<Rightarrow> string \<Rightarrow> string" where
  "label_in [] key = []"
| "label_in (pair # pairs) key =
     (case cut (CHR ''='') pair of
        (k, v, found) \<Rightarrow> if found \<and> trim_space k = key then v else label_in pairs key)"

definition label :: "string \<Rightarrow> string \<Rightarrow> string" where
  "label labels key = label_in (split_on (CHR '','') labels) key"

definition loose_of :: "container_entry \<Rightarrow> loose" where
  "loose_of e =
     \<lparr>lo_name = trim_space (hd (split_on (CHR '','') (cn_names e))), lo_image = cn_image e,
      lo_state = cn_state e, lo_project = []\<rparr>"

definition is_loose :: "container_entry \<Rightarrow> bool" where
  "is_loose e \<longleftrightarrow> cn_names e \<noteq> [] \<and> label (cn_labels e) ''com.docker.compose.project'' = []"

definition loose_containers :: "'w docker \<Rightarrow> json_codec \<Rightarrow> ctx \<Rightarrow> ('w, string + loose list) act" where
  "loose_containers d jc c = do {
     out \<leftarrow> docker_output d c [''ps'', ''--all'', ''--format'', ''json''];
     State_Monad.return
       (case out of
          Inl e \<Rightarrow> Inl e
        | Inr o1 \<Rightarrow>
            (case decode_json_stream jc (jc_containers jc) o1 of
               Inl e \<Rightarrow> Inl e
             | Inr es \<Rightarrow> Inr (map loose_of [e \<leftarrow> es. is_loose e])))
   }"

section \<open>The discovery\<close>

text \<open>\<open>sort.Slice\<close> by name; the order of equal names, which it leaves open, is the given one.\<close>

fun insert_by :: "('a \<Rightarrow> string) \<Rightarrow> 'a \<Rightarrow> 'a list \<Rightarrow> 'a list" where
  "insert_by f x [] = [x]"
| "insert_by f x (y # ys) = (if str_cmp (f x) (f y) \<le> 0 then x # y # ys else y # insert_by f x ys)"

definition sort_by :: "('a \<Rightarrow> string) \<Rightarrow> 'a list \<Rightarrow> 'a list" where
  "sort_by f xs = foldr (insert_by f) xs []"

definition discover :: "'w docker \<Rightarrow> json_codec \<Rightarrow> ctx \<Rightarrow> config \<Rightarrow> ('w, discover_result) act" where
  "discover d jc c cfg = do {
     ps \<leftarrow> list_projects d jc c;
     h \<leftarrow> world_get (dk_host d);
     ls \<leftarrow> loose_containers d jc c;
     let w1 = (case ps of Inl e \<Rightarrow> ''could not list compose projects: '' @ e | Inr _ \<Rightarrow> []);
     let projects = (case ps of Inl e \<Rightarrow> [] | Inr p \<Rightarrow> sort_by pj_name (map (place h cfg) p));
     let w2 = (case ls of
                 Inl e \<Rightarrow> if w1 = [] then ''could not list containers: '' @ e else w1
               | Inr _ \<Rightarrow> w1);
     let found = (case ls of Inl e \<Rightarrow> [] | Inr l \<Rightarrow> sort_by lo_name l);
     State_Monad.return \<lparr>di_projects = projects, di_loose = found, di_warning = w2\<rparr>
   }"

section \<open>The agent's handler and its routes\<close>

definition handle_discover ::
  "'w docker option \<Rightarrow> json_codec \<Rightarrow> agent \<Rightarrow> peer \<Rightarrow> 'w run \<Rightarrow> discover_result reply \<times> 'w run" where
  "handle_discover docker jc s p r =
     (case authorise_peer s p of
        Some (n, e) \<Rightarrow> (Refused n e, r)
      | None \<Rightarrow>
          (case docker of
             None \<Rightarrow> (Refused 501 ''this agent cannot enumerate docker state'', r)
           | Some d \<Rightarrow>
               (case run_state (discover d jc CallerCtx (ag_cfg s)) r of (res, r1) \<Rightarrow> (Reply res, r1))))"

datatype agent_endpoint = RouteExec | RouteCheck | RouteImages | RouteDiscover | RouteHealth | RouteNone | RouteMethod

text \<open>The mux: a known path with another method is a 405; a \<open>GET\<close> pattern matches \<open>HEAD\<close> too.\<close>

definition agent_route :: "string \<Rightarrow> string \<Rightarrow> agent_endpoint" where
  "agent_route meth path =
     (let post = (\<lambda>r. if meth = ''POST'' then r else RouteMethod);
          read = (\<lambda>r. if meth = ''GET'' \<or> meth = ''HEAD'' then r else RouteMethod)
      in if path = ''/v1/exec'' then post RouteExec
         else if path = ''/v1/check'' then post RouteCheck
         else if path = ''/v1/images'' then post RouteImages
         else if path = ''/v1/discover'' then read RouteDiscover
         else if path = ''/healthz'' then read RouteHealth
         else RouteNone)"

section \<open>The client's other calls\<close>

definition client_ping :: "string \<Rightarrow> string + response \<Rightarrow> string option" where
  "client_ping socket resp =
     (case resp of
        Inl e \<Rightarrow> Some (''update agent socket '' @ socket @ '': '' @ e)
      | Inr r \<Rightarrow>
          if rp_status r \<noteq> 200
          then Some (''update agent health check returned '' @ itoa (int (rp_status r))) else None)"

definition client_health ::
  "string \<Rightarrow> (string \<Rightarrow> string + health_result) \<Rightarrow> string + response \<Rightarrow> string + health_result" where
  "client_health socket dec resp =
     (case resp of
        Inl e \<Rightarrow> Inl (''update agent socket '' @ socket @ '': '' @ e)
      | Inr r \<Rightarrow>
          if rp_status r \<noteq> 200
          then Inl (''update agent health check returned '' @ itoa (int (rp_status r)))
          else (case dec (take max_error_bytes (rp_body r)) of
                  Inl e \<Rightarrow> Inl (''could not read the agent health response: '' @ e)
                | Inr h \<Rightarrow> Inr h))"

definition client_discover ::
  "string \<Rightarrow> (string \<Rightarrow> string option) \<Rightarrow> (string \<Rightarrow> string + discover_result) \<Rightarrow> string + response
   \<Rightarrow> string + discover_result" where
  "client_discover socket dec_error dec resp =
     (case resp of
        Inl e \<Rightarrow> Inl (''could not reach the update agent on '' @ socket @ '': '' @ e)
      | Inr r \<Rightarrow>
          (let body = take max_discover_bytes (rp_body r) in
           if rp_status r \<noteq> 200
           then Inl (''the update agent refused the request ('' @ itoa (int (rp_status r)) @ ''): ''
                     @ agent_error dec_error body)
           else (case dec body of
                   Inl e \<Rightarrow> Inl (''could not read the agent's discovery result: '' @ e)
                 | Inr h \<Rightarrow> Inr h)))"

section \<open>What a discovery reports\<close>

lemma set_insert_by [simp]: "set (insert_by f x ys) = insert x (set ys)"
  by (induction ys) auto

lemma set_sort_by [simp]: "set (sort_by f xs) = set xs"
  by (induction xs) (auto simp: sort_by_def)

definition sorted_by :: "('a \<Rightarrow> string) \<Rightarrow> 'a list \<Rightarrow> bool" where
  "sorted_by f xs \<longleftrightarrow> sorted_wrt (\<lambda>a b. str_cmp (f a) (f b) \<le> 0) xs"

lemma sorted_insert_by: "sorted_by f ys \<Longrightarrow> sorted_by f (insert_by f x ys)"
proof (induction ys)
  case (Cons y ys)
  show ?case
  proof (cases "str_cmp (f x) (f y) \<le> 0")
    case True
    then show ?thesis using Cons.prems by (auto simp: sorted_by_def dest: str_order.le_trans)
  next
    case False
    then have "str_cmp (f y) (f x) \<le> 0" using str_order.le_linear by blast
    then show ?thesis using Cons False by (auto simp: sorted_by_def)
  qed
qed (simp add: sorted_by_def)

lemma sorted_sort_by: "sorted_by f (sort_by f xs)"
  by (induction xs) (simp_all add: sort_by_def sorted_insert_by, simp add: sorted_by_def)

lemma target_dirs_None:
  "target_dirs h c d = None \<longleftrightarrow> (\<forall>t \<in> set (the_targets c). resolve h (t_dir t) \<noteq> d)"
  by (auto simp: target_dirs_def map_of_eq_None_iff image_iff)

lemma target_dirs_Some:
  "target_dirs h c d = Some n \<Longrightarrow> \<exists>t \<in> set (the_targets c). t_name t = n \<and> resolve h (t_dir t) = d"
  by (auto simp: target_dirs_def dest!: map_of_SomeD)

text \<open>The host as it is when the directories are compared: after the projects were listed.\<close>

definition seen_host :: "'w docker \<Rightarrow> json_codec \<Rightarrow> ctx \<Rightarrow> 'w run \<Rightarrow> host" where
  "seen_host d jc c s = dk_host d (r_world (snd (run_state (list_projects d jc c) s)))"

lemma discover_projects:
  assumes "run_state (discover d jc c cfg) s = (res, s')"
  shows "\<exists>ps. di_projects res = sort_by pj_name (map (place (seen_host d jc c s) cfg) ps)"
    and "\<exists>es. di_loose res = sort_by lo_name (map loose_of [e \<leftarrow> es. is_loose e])"
proof -
  obtain ps s1 where ps: "run_state (list_projects d jc c) s = (ps, s1)" by fastforce
  obtain ls s2 where ls: "run_state (loose_containers d jc c) s1 = (ls, s2)" by fastforce
  have r: "di_projects res = (case ps of Inl e \<Rightarrow> [] | Inr p \<Rightarrow> sort_by pj_name (map (place (seen_host d jc c s) cfg) p))"
    "di_loose res = (case ls of Inl e \<Rightarrow> [] | Inr l \<Rightarrow> sort_by lo_name l)"
    using assms ps ls by (auto simp: discover_def world_get_def seen_host_def Let_def split: sum.splits)
  show "\<exists>ps. di_projects res = sort_by pj_name (map (place (seen_host d jc c s) cfg) ps)"
  proof (cases ps)
    case (Inl e)
    then show ?thesis using r(1) by (intro exI [of _ "[]"]) (simp add: sort_by_def)
  qed (use r(1) in auto)
  show "\<exists>es. di_loose res = sort_by lo_name (map loose_of [e \<leftarrow> es. is_loose e])"
  proof (cases ls)
    case (Inl e)
    then show ?thesis using r(2) by (intro exI [of _ "[]"]) (simp add: sort_by_def)
  next
    case (Inr l)
    obtain out s3 where "run_state (docker_output d c [''ps'', ''--all'', ''--format'', ''json'']) s1 = (out, s3)"
      by fastforce
    then have "\<exists>es. l = map loose_of [e \<leftarrow> es. is_loose e]"
      using ls Inr by (auto simp: loose_containers_def split: sum.splits)
    then show ?thesis using r(2) Inr by auto
  qed
qed

text \<open>What docker is asked: two commands that list, and nothing else.\<close>

definition listing :: "string list \<Rightarrow> event \<Rightarrow> bool" where
  "listing args e \<longleftrightarrow> (\<exists>r. e = Ran [] [] r \<and> rs_args r = args)"

lemma emits_output: "emits (docker_output d c args) (\<lambda>a es. \<exists>e. es = [e] \<and> listing args e)"
  unfolding docker_output_def
  by (rule emits_bind [OF emits_exec], rule emits_return) (auto simp: listing_def)

lemma emits_discover:
  "emits (discover d jc c cfg) (\<lambda>a es. \<exists>e1 e2. es = [e1, e2]
     \<and> listing [''compose'', ''ls'', ''--all'', ''--format'', ''json''] e1
     \<and> listing [''ps'', ''--all'', ''--format'', ''json''] e2)"
proof -
  have 1: "emits (list_projects d jc c) (\<lambda>a es. \<exists>e. es = [e]
      \<and> listing [''compose'', ''ls'', ''--all'', ''--format'', ''json''] e)"
    unfolding list_projects_def by (rule emits_bind [OF emits_output], rule emits_return) auto
  have 2: "emits (loose_containers d jc c) (\<lambda>a es. \<exists>e. es = [e]
      \<and> listing [''ps'', ''--all'', ''--format'', ''json''] e)"
    unfolding loose_containers_def by (rule emits_bind [OF emits_output], rule emits_return) auto
  show ?thesis
    unfolding discover_def Let_def
    by (rule emits_bind [OF 1], rule emits_bind [OF emits_quiet(1)], rule emits_bind [OF 2], rule emits_return) auto
qed

lemma loaded_names:
  assumes "load_config h cp cs c0 = Inr cfg" and "t \<in> set (the_targets cfg)"
  shows "t_name t \<noteq> []"
proof -
  obtain c4 where "defaults_ok (c_defaults c4)" "validate_targets h c4 cp = Inr cfg"
    using assms(1) by (rule load_config_steps)
  then have "target_name_re (t_name t)"
    using validate_targets_ok assms(2) by (fastforce simp: list_all_iff target_ok_def)
  then show ?thesis by (auto simp: target_name_re_def matches_word_def)
qed

text \<open>A project is uncovered when no target's directory is its own.\<close>

definition covers :: "host \<Rightarrow> target \<Rightarrow> project \<Rightarrow> bool" where
  "covers h t p \<longleftrightarrow> resolve h (t_dir t) = resolve h (pj_dir p)"

lemma place_covered:
  assumes "\<forall>t \<in> set (the_targets c). t_name t \<noteq> []"
  shows "pj_target (place h c p) = [] \<longleftrightarrow> \<not> (\<exists>t \<in> set (the_targets c). covers h t (place h c p))"
    and "pj_target (place h c p) \<noteq> [] \<Longrightarrow>
         \<exists>t \<in> set (the_targets c). t_name t = pj_target (place h c p) \<and> covers h t (place h c p)"
proof -
  let ?d = "resolve h (project_dir (pj_files p))"
  show "pj_target (place h c p) = [] \<longleftrightarrow> \<not> (\<exists>t \<in> set (the_targets c). covers h t (place h c p))"
  proof (cases "target_dirs h c ?d")
    case None
    then have "\<forall>t \<in> set (the_targets c). resolve h (t_dir t) \<noteq> ?d" by (simp add: target_dirs_None)
    then show ?thesis using None by (simp add: place_def covers_def Let_def)
  next
    case (Some n)
    with target_dirs_Some [OF Some] assms show ?thesis by (auto simp: place_def covers_def Let_def)
  qed
  show "pj_target (place h c p) \<noteq> [] \<Longrightarrow>
      \<exists>t \<in> set (the_targets c). t_name t = pj_target (place h c p) \<and> covers h t (place h c p)"
  proof (cases "target_dirs h c ?d")
    case (Some n)
    with target_dirs_Some [OF Some] show ?thesis by (auto simp: place_def covers_def Let_def)
  qed (simp add: place_def Let_def)
qed

text \<open>What a discovery under a loaded configuration promises of its result.\<close>

definition discovery_ok :: "host \<Rightarrow> config \<Rightarrow> discover_result \<Rightarrow> bool" where
  "discovery_ok h cfg res \<longleftrightarrow>
     sorted_by pj_name (di_projects res) \<and> sorted_by lo_name (di_loose res)
     \<and> list_all (\<lambda>p. (p \<in> set (uncovered res)) = list_all (\<lambda>t. \<not> covers h t p) (the_targets cfg)) (di_projects res)
     \<and> list_all (\<lambda>p. pj_target p = [] \<or> list_ex (\<lambda>t. t_name t = pj_target p \<and> covers h t p) (the_targets cfg))
         (di_projects res)"

lemma discover_ok:
  assumes "load_config h cp cs c0 = Inr cfg" and "run_state (discover d jc c cfg) s = (res, s')"
  shows "discovery_ok (seen_host d jc c s) cfg res"
proof -
  let ?h = "seen_host d jc c s"
  have names: "\<forall>t \<in> set (the_targets cfg). t_name t \<noteq> []" using loaded_names [OF assms(1)] by blast
  obtain ps where ps: "di_projects res = sort_by pj_name (map (place ?h cfg) ps)"
    using discover_projects(1) [OF assms(2)] by blast
  have "sorted_by lo_name (di_loose res)"
    using discover_projects(2) [OF assms(2)] sorted_sort_by by metis
  moreover have "sorted_by pj_name (di_projects res)" by (simp add: ps sorted_sort_by)
  moreover have "list_all (\<lambda>p. (p \<in> set (uncovered res)) = list_all (\<lambda>t. \<not> covers ?h t p) (the_targets cfg)) (di_projects res)"
    using place_covered(1) [OF names] by (auto simp: list_all_iff uncovered_def ps)
  moreover have "list_all (\<lambda>p. pj_target p = [] \<or> list_ex (\<lambda>t. t_name t = pj_target p \<and> covers ?h t p) (the_targets cfg))
      (di_projects res)"
    using place_covered(2) [OF names] by (auto simp: list_all_iff list_ex_iff ps)
  ultimately show ?thesis by (simp add: discovery_ok_def)
qed

lemma discover_lists:
  "\<exists>e1 e2. new_events s (snd (run_state (discover d jc c cfg) s)) = [e1, e2]
     \<and> listing [''compose'', ''ls'', ''--all'', ''--format'', ''json''] e1
     \<and> listing [''ps'', ''--all'', ''--format'', ''json''] e2"
  using emits_new [OF emits_discover] by blast

section \<open>A listing that is too long\<close>

text \<open>
  A raw message that starts with a byte that is not ASCII is not JSON, and \<open>json.Marshal\<close>
  refuses it.
\<close>

definition refuses_garbage :: "json_codec \<Rightarrow> bool" where
  "refuses_garbage jc \<longleftrightarrow> (\<forall>ls l. l \<in> set ls \<and> l \<noteq> [] \<and> 128 \<le> byte (hd l) \<longrightarrow> (\<exists>e. jc_marshal jc ls = Inl e))"

lemma utf8_chunks_ellipsis: "utf8_chunks (ellipsis @ s) = (8230, ellipsis) # utf8_chunks s"
  by (simp add: ellipsis_def utf8_chunks.simps(2) first_len_def cont_def)

lemma trim_space_ellipsis: "\<exists>y. trim_space (ellipsis @ x) = ellipsis @ y"
proof -
  have "\<not> is_space 8230" by (simp add: is_space_def)
  then show ?thesis
    by (simp add: trim_space_def utf8_chunks_ellipsis Let_def dropWhile_append3 dropWhile_append)
qed

lemma split_on_prefix:
  assumes "c \<notin> set p" shows "\<exists>w ws. split_on c (p @ s) = (p @ w) # ws"
  using assms
proof (induction p)
  case Nil
  then show ?case by (cases "split_on c s") auto
next
  case (Cons x p)
  then show ?case by fastforce
qed

lemma long_listing_fails:
  assumes "refuses_garbage jc" and "max_output_bytes < length out"
  shows "\<exists>e. decode_json_stream jc dec (Compose.truncate out) = Inl e"
proof -
  have "\<exists>x. Compose.truncate out = ellipsis @ x"
    using assms(2) by (simp add: Compose.truncate_def truncate_to_def truncated_mark_def)
  then obtain y where y: "trim_space (Compose.truncate out) = ellipsis @ y" using trim_space_ellipsis by metis
  have "chr 10 \<notin> set ellipsis" by (simp add: ellipsis_def flip: byte_inject)
  then obtain w ws where w: "split_on (chr 10) (ellipsis @ y) = (ellipsis @ w) # ws"
    using split_on_prefix by blast
  obtain z where z: "trim_space (ellipsis @ w) = ellipsis @ z" using trim_space_ellipsis by blast
  let ?ls = "[l \<leftarrow> map trim_space (split_on (chr 10) (ellipsis @ y)). l \<noteq> []]"
  have "ellipsis @ z \<in> set ?ls" using w z by (simp add: ellipsis_def)
  moreover have "ellipsis @ z \<noteq> []" "128 \<le> byte (hd (ellipsis @ z))" by (simp_all add: ellipsis_def)
  ultimately obtain e where "jc_marshal jc ?ls = Inl e" using assms(1) unfolding refuses_garbage_def by blast
  moreover have "byte (CHR ''['') = 91" by (simp add: byte_def)
  then have "\<not> has_prefix (ellipsis @ y) ''[''" "ellipsis @ y \<noteq> []"
    by (simp_all add: ellipsis_def flip: byte_inject)
  ultimately show ?thesis by (simp add: decode_json_stream_def y Let_def del: filter.simps)
qed

end
