(* ===== verification/Cli_Report.thy ===== *)
theory Cli_Report
  imports Cli_Api Discover Selfupdate History
begin

text \<open>
  The commands that only report: \<open>cli/list.go\<close>, \<open>cli/logs.go\<close> and \<open>cli/version.go\<close>.  What a command
  prints is a list of lines.  \<open>text/tabwriter\<close> is the parameter \<open>layout\<close>, from rows of cells to
  lines; formatting an instant in the local zone is \<open>fmt\<close>, from Go's layout and the instant.
\<close>

section \<open>Instants\<close>

record calendar =
  cl_format :: "string \<Rightarrow> time \<Rightarrow> string"
  cl_date :: "time \<Rightarrow> int \<times> int \<times> int"

definition same_day :: "calendar \<Rightarrow> time \<Rightarrow> time \<Rightarrow> bool" where
  "same_day k a b \<longleftrightarrow> cl_date k a = cl_date k b"

definition at_time :: "calendar \<Rightarrow> time \<Rightarrow> time option \<Rightarrow> string" where
  "at_time k now t =
     (case t of
        None \<Rightarrow> ''-''
      | Some t \<Rightarrow>
          (let stamp = cl_format k (if same_day k t now then ''15:04:05'' else ''02 Jan 15:04:05'') t;
               d = time_sub t now
           in if d \<le> 0 then stamp @ '' (due now)''
              else if d < minute then stamp @ '' (in '' @ itoa (d div second) @ ''s)''
              else stamp @ '' (in '' @ short (round_duration d minute) @ '')''))"

definition next_check_in :: "time \<Rightarrow> time option \<Rightarrow> string" where
  "next_check_in now t =
     (case t of
        None \<Rightarrow> ''-''
      | Some t \<Rightarrow>
          (let d = time_sub t now
           in if d \<le> 0 then ''due'' else if d < minute then ''<1m'' else short (round_duration d minute)))"

section \<open>\<open>dup list\<close>\<close>

record target_status =
  tv_name :: string
  tv_busy :: bool
  tv_running_job :: string
  tv_pending_since :: "time option"
  tv_pending_applies :: "time option"
  tv_pending_changed :: "string list"
  tv_auto_update :: bool
  tv_last_checked :: "time option"
  tv_next_check :: "time option"

record targets_response =
  ts_targets :: "target_status list"
  ts_now :: time

definition print_header :: "calendar \<Rightarrow> build \<Rightarrow> config \<Rightarrow> time \<Rightarrow> string list" where
  "print_header k b c now =
     (let n = length (c_targets c); auto = length (auto_update_targets c) in
      [if n = 0 then ''dup '' @ bd_version b @ ''  no stacks configured''
       else ''dup '' @ bd_version b @ ''  '' @ nat_digits n @ '' '' @ plural_text n ''stack'' ''stacks''
              @ '' configured, '' @ nat_digits auto @ '' on auto update'',
       ''api '' @ api_url c @ ''   inbound '' @ joined_or (inbound_methods c) ''none''
         @ ''   outbound '' @ (if nf_url (c_notify c) = [] then ''none'' else nf_url (c_notify c)),
       if now = zero_time then ''server time unknown, the API is not reachable''
       else ''server time '' @ cl_format k ''Mon 02 Jan 2006 15:04:05 MST'' now,
       []])"

definition view_of :: "target_status list \<Rightarrow> string \<Rightarrow> target_status option" where
  "view_of views name = map_of (rev (map (\<lambda>v. (tv_name v, v)) views)) name"

definition target_row :: "time \<Rightarrow> target_status list \<Rightarrow> target \<Rightarrow> string list" where
  "target_row now views t =
     [t_name t,
      if t_auto_update t then short (t_check_interval t) else ''-'',
      if t_auto_update t then next_check_in now (Option.bind (view_of views (t_name t)) tv_next_check) else ''-'',
      if t_auto_update t then short (t_soak t) else ''-'',
      if rollback_enabled t then ''on'' else ''off'',
      joined_or (t_services t) ''all'',
      clip_tail (t_dir t) 34]"

definition print_targets ::
  "(string list list \<Rightarrow> string list) \<Rightarrow> time \<Rightarrow> config \<Rightarrow> target_status list \<Rightarrow> string list" where
  "print_targets layout now c views =
     (if c_targets c = [] then [''No stacks configured yet. Everything below is a candidate.'']
      else
        layout ([''STACK'', ''CHECK'', ''NEXT'', ''SOAK'', ''RB'', ''SERVICES'', ''DIR'']
             # map (target_row now views) (the_targets c))
        @ (if list_ex (\<lambda>t. \<not> t_auto_update t) (the_targets c)
           then [[], ''A dash under CHECK means that stack updates only when asked.''] else []))"

definition print_activity ::
  "(string list list \<Rightarrow> string list) \<Rightarrow> calendar \<Rightarrow> time \<Rightarrow> target_status list \<Rightarrow> string list" where
  "print_activity layout k now views =
     (let running = [v \<leftarrow> views. tv_busy v];
          waiting = [v \<leftarrow> views. \<not> tv_busy v \<and> tv_pending_applies v \<noteq> None]
      in if running = [] \<and> waiting = [] then []
         else [[], ''In flight'']
           @ layout (map (\<lambda>v. [''  '' @ tv_name v, ''updating now'', ''job '' @ tv_running_job v]) running
                  @ map (\<lambda>v. [''  '' @ tv_name v, ''update waiting out its soak'',
                              ''applies '' @ at_time k now (tv_pending_applies v),
                              ''new image for '' @ joined_or (tv_pending_changed v) ''unknown services'']) waiting))"

definition fetch_targets ::
  "client_fault + api_client \<Rightarrow> (string \<Rightarrow> api_failure + targets_response) \<Rightarrow> targets_response" where
  "fetch_targets client ask =
     (case client of
        Inl e \<Rightarrow> \<lparr>ts_targets = [], ts_now = zero_time\<rparr>
      | Inr cl \<Rightarrow>
          (case ask ''/v1/targets'' of
             Inl e \<Rightarrow> \<lparr>ts_targets = [], ts_now = zero_time\<rparr>
           | Inr r \<Rightarrow> r))"

definition print_coverage ::
  "(string list list \<Rightarrow> string list) \<Rightarrow> discover_result \<Rightarrow> bool \<Rightarrow> string list" where
  "print_coverage layout r every =
     (if di_warning r \<noteq> [] then [[], di_warning r] else [])
     @ (if uncovered r = [] \<and> di_loose r = [] then [[], ''Everything on this host is covered by dup.'']
        else [[], ''Not covered by dup'']
          @ layout (map (\<lambda>p. [''  compose project'', pj_name p, or_dash (pj_dir p), pj_status p]) (uncovered r)
                 @ map (\<lambda>c. [''  loose container'', lo_name c, or_dash (lo_image c), lo_state c]) (di_loose r)))
     @ (if \<not> every then []
        else [[], ''Covered compose projects'']
          @ layout (map (\<lambda>p. [''  '' @ pj_name p, ''stack '' @ pj_target p, pj_status p])
                  [p \<leftarrow> di_projects r. pj_target p \<noteq> []]))"

definition print_warnings :: "config \<Rightarrow> string list" where
  "print_warnings c =
     (let ws = c_warnings c; missing = length [w \<leftarrow> ws. contains w ''does not exist''] in
      if ws = [] then []
      else [[], nat_digits (length ws) @ '' '' @ plural_text (length ws) ''warning'' ''warnings'' @ '':'']
        @ map (\<lambda>w. ''  '' @ w) ws
        @ [[], if missing = length ws
               then ''dup will start, and updates for those stacks will fail until the path is there.''
               else if 0 < missing
               then ''dup will start. Updates for a stack whose directory is missing will fail until it is there.''
               else ''dup will start. None of the above stops it.''])"

definition run_list ::
  "(string list list \<Rightarrow> string list) \<Rightarrow> calendar \<Rightarrow> host \<Rightarrow> build \<Rightarrow> time \<Rightarrow> config \<Rightarrow> client_fault + api_client
   \<Rightarrow> (string \<Rightarrow> api_failure + targets_response) \<Rightarrow> net_error + discover_result \<Rightarrow> bool \<Rightarrow> string list" where
  "run_list layout k h b now c client ask found every =
     (let r = fetch_targets client ask in
      print_header k b c (ts_now r) @ print_targets layout now c (ts_targets r) @ print_warnings c
      @ print_activity layout k now (ts_targets r)
      @ (case found of
           Inl e \<Rightarrow> [[], ''Coverage unknown.'', []] @ agent_unreachable h (c_agent_socket c) e
         | Inr d \<Rightarrow> print_coverage layout d every))"

section \<open>\<open>dup logs\<close>\<close>

text \<open>A row of the table; \<open>j.ID[:8]\<close> panics for a shorter id.\<close>

definition log_row :: "calendar \<Rightarrow> snapshot \<Rightarrow> string list option" where
  "log_row k j =
     (if length (sn_id j) < 8 then None
      else Some
        [cl_format k ''02 Jan 15:04'' (sn_started j), sn_target j, state_text (sn_state j),
         or_dash (sn_trigger j),
         duration_string (round_duration (ms_duration (sn_duration j)) second),
         or_dash (clip_head (join '','' (sn_changed j)) 20), take 8 (sn_id j), clip_head (sn_message j) 44])"

fun log_rows :: "calendar \<Rightarrow> snapshot list \<Rightarrow> string list list option" where
  "log_rows k [] = Some []"
| "log_rows k (j # js) =
     (case log_row k j of
        None \<Rightarrow> None
      | Some r \<Rightarrow> (case log_rows k js of None \<Rightarrow> None | Some rs \<Rightarrow> Some (r # rs)))"

datatype logs_end =
    LogsBadLimit int | LogsDisabled | LogsUnknown string | LogsUnreadable | LogsAmbiguous "string list"
  | LogsNoJob string | LogsEmpty "string list" | LogsJobs "string list" | LogsTable "string list" | LogsPanic

definition ambiguous_job :: "calendar \<Rightarrow> string \<Rightarrow> snapshot list \<Rightarrow> string list" where
  "ambiguous_job k prefix_text js =
     (quote prefix_text @ '' matches '' @ nat_digits (length js) @ '' jobs. Give more of the id:'') # []
     # map (\<lambda>j. ''  '' @ sn_id j @ ''  '' @ cl_format k ''02 Jan 15:04'' (sn_started j) @ ''  ''
                  @ sn_target j @ ''  '' @ state_text (sn_state j)) js"

definition empty_history :: "config \<Rightarrow> string \<Rightarrow> string \<Rightarrow> logs_end" where
  "empty_history c target job_id =
     (if job_id \<noteq> [] then LogsNoJob job_id
      else LogsEmpty
        [if target \<noteq> [] then ''no updates recorded yet for '' @ target else ''no updates recorded yet'',
         [], ''History is written to '' @ c_history_file c @ '' as each update finishes.'',
         ''Trigger one with:  sudo dup update <stack> --dry-run''])"

definition print_job :: "(duration \<Rightarrow> string) \<Rightarrow> time \<Rightarrow> snapshot \<Rightarrow> string list" where
  "print_job secs now j = job_summary_lines 0 False j @ job_step_lines 0 secs now False j"

fun between :: "string list list \<Rightarrow> string list" where
  "between [] = []"
| "between [x] = x"
| "between (x # xs) = x @ [] # between xs"

definition run_logs ::
  "(string list list \<Rightarrow> string list) \<Rightarrow> calendar \<Rightarrow> (duration \<Rightarrow> string) \<Rightarrow> time \<Rightarrow> config
   \<Rightarrow> (string \<Rightarrow> history_query \<Rightarrow> snapshot list \<times> bool) \<Rightarrow> string \<Rightarrow> int \<Rightarrow> string \<Rightarrow> bool \<Rightarrow> logs_end" where
  "run_logs layout k secs now c fetch target limit job_id full =
     (if limit < 1 then LogsBadLimit limit
      else if c_history_file c = [] then LogsDisabled
      else if target \<noteq> [] \<and> target_by_name c target = None then LogsUnknown target
      else
        (case fetch (c_history_file c)
                \<lparr>qy_target = target, qy_job = job_id, qy_limit = (if job_id \<noteq> [] then 50 else limit)\<rparr> of
           (js, True) \<Rightarrow> LogsUnreadable
         | (js, False) \<Rightarrow>
             if job_id \<noteq> [] \<and> 1 < length js then LogsAmbiguous (ambiguous_job k job_id js)
             else if js = [] then empty_history c target job_id
             else if job_id \<noteq> [] \<or> full then LogsJobs (between (map (print_job secs now) js))
             else
               (case log_rows k js of
                  None \<Rightarrow> LogsPanic
                | Some rows \<Rightarrow>
                    LogsTable (layout ([''WHEN'', ''STACK'', ''STATE'', ''TRIGGER'', ''TOOK'', ''CHANGED'', ''JOB'', ''DETAIL''] # rows)
                      @ [[], ''dup logs --job <JOB> for the full message and every step'']))))"

section \<open>\<open>dup version\<close>\<close>

text \<open>Standard output, standard error and whether the command failed its arguments.\<close>

definition print_advisory :: "host \<Rightarrow> update_status \<Rightarrow> string list" where
  "print_advisory h s =
     (let repo = env_or h ''DUP_GITHUB_REPO'' default_repo; notes = notes_url (us_latest s) repo in
      [''a newer dup is available: '' @ rl_tag (us_latest s) @ '' (you have '' @ us_current s @ '')'',
       ''  upgrade:  curl -fsSL https://raw.githubusercontent.com/'' @ repo @ ''/main/install.sh | sudo sh'']
      @ (if notes \<noteq> [] then [''  notes:    '' @ notes] else []))"

definition print_latest_line :: "calendar \<Rightarrow> update_status \<Rightarrow> update_error option \<Rightarrow> string" where
  "print_latest_line k s e =
     (case e of
        Some ErrDisabled \<Rightarrow> ''  latest:  not checked (DUP_NO_UPDATE_CHECK is set)''
      | Some ErrDevBuild \<Rightarrow> ''  latest:  not checked (development build)''
      | Some x \<Rightarrow> ''  latest:  could not be checked''
      | None \<Rightarrow>
          ''  latest:  '' @ rl_tag (us_latest s) @ '', released ''
          @ cl_format k ''2006-01-02'' (rl_published (us_latest s))
          @ (if us_newer s then [] else '' (up to date)''))"

definition check_failure :: "(update_error \<Rightarrow> string) \<Rightarrow> update_error \<Rightarrow> string" where
  "check_failure err_text e =
     (case e of
        ErrDisabled \<Rightarrow> ''update checks are disabled by DUP_NO_UPDATE_CHECK''
      | ErrDevBuild \<Rightarrow> ''this is a development build, so there is nothing to compare against a release''
      | ErrNoRelease \<Rightarrow> ''could not check for a newer release: no published release found''
      | _ \<Rightarrow> ''could not check for a newer release: '' @ err_text e)"

definition version_flags :: flag_set where
  "version_flags = [(''full'', BoolFlag), (''check'', BoolFlag), (''no-check'', BoolFlag)]"

definition run_version_to ::
  "calendar \<Rightarrow> (update_error \<Rightarrow> string) \<Rightarrow> host \<Rightarrow> build \<Rightarrow> (bool \<Rightarrow> check_run) \<Rightarrow> string list
   \<Rightarrow> arg_error + string list \<times> string list" where
  "run_version_to k err_text h b checker args =
     (case no_args version_flags args ''version'' of
        Inl e \<Rightarrow> Inl e
      | Inr nvs \<Rightarrow>
          (let full = flag_bool nvs ''full''; check = flag_bool nvs ''check'';
               head = (if full then version_full b ''dup'' else [version_info b ''dup''])
           in if flag_bool nvs ''no-check'' then Inr (head, [])
              else
                (let r = checker check in
                 if full then Inr (head @ [print_latest_line k (ck_status r) (ck_error r)], [])
                 else (case ck_error r of
                         Some e \<Rightarrow> Inr (head, if check then [check_failure err_text e] else [])
                       | None \<Rightarrow>
                           Inr (head, if us_newer (ck_status r) then print_advisory h (ck_status r) else [])))))"

section \<open>What the reports promise\<close>

text \<open>
  Standard output is one line unless \<open>--full\<close> asks for more, whatever the check for a newer
  release meets; the installer reads that line.
\<close>

lemma version_one_line:
  assumes "no_args version_flags args ''version'' = Inr nvs" and "\<not> flag_bool nvs ''full''"
  shows "\<exists>err. run_version_to k err_text h b checker args = Inr ([version_info b ''dup''], err)"
  using assms by (simp add: run_version_to_def Let_def split: option.split)

text \<open>The table has one row per job, and there is none when an id is too short.\<close>

definition row_of :: "calendar \<Rightarrow> snapshot \<Rightarrow> string list" where
  "row_of k j = (case log_row k j of None \<Rightarrow> [] | Some r \<Rightarrow> r)"

lemma log_rows_eq:
  "log_rows k js = (if list_all (\<lambda>j. 8 \<le> length (sn_id j)) js then Some (map (row_of k) js) else None)"
  by (induction js) (auto simp: log_row_def row_of_def)

definition logs_header :: "string list" where
  "logs_header = [''WHEN'', ''STACK'', ''STATE'', ''TRIGGER'', ''TOOK'', ''CHANGED'', ''JOB'', ''DETAIL'']"

definition logs_table :: "(string list list \<Rightarrow> string list) \<Rightarrow> calendar \<Rightarrow> snapshot list \<Rightarrow> logs_end" where
  "logs_table layout k js =
     LogsTable (layout (logs_header # map (row_of k) js)
       @ [[], ''dup logs --job <JOB> for the full message and every step''])"

lemma run_logs_result:
  assumes "1 \<le> limit" and "c_history_file c \<noteq> []" and "target = [] \<or> target_by_name c target \<noteq> None"
    and "fetch (c_history_file c) \<lparr>qy_target = target, qy_job = [], qy_limit = limit\<rparr> = (js, False)"
  shows "run_logs layout k secs now c fetch target limit [] False =
    (if js = [] then empty_history c target []
     else if list_all (\<lambda>j. 8 \<le> length (sn_id j)) js then logs_table layout k js else LogsPanic)"
  using assms by (auto simp: run_logs_def log_rows_eq logs_table_def logs_header_def)

text \<open>One recorded line whose object has no id is enough.\<close>

lemma logs_panics:
  assumes "1 \<le> limit" and "c_history_file c \<noteq> []" and "dec ''{}'' = Some j" and "length (sn_id j) < 8"
    and "glob (c_history_file c) = []" and "fetch (c_history_file c) = Inr (Some ''{}'')"
  shows "run_logs layout k secs now c (history_read glob fetch dec) [] limit [] False = LogsPanic"
proof -
  have lines: "raw_lines ''{}'' = [''{}'']"
  proof -
    have "byte (CHR ''{'') \<noteq> byte (chr 10)" "byte (CHR ''}'') \<noteq> byte (chr 10)"
      by (simp_all add: byte_def [of "CHR ''{''"] byte_def [of "CHR ''}''"])
    then have "chr 10 \<noteq> CHR ''{''" "chr 10 \<noteq> CHR ''}''" by metis+
    then show ?thesis by (simp add: raw_lines_def newline_char_def)
  qed
  have cr: "drop_cr ''{}'' = ''{}''"
  proof -
    have "byte (CHR ''}'') \<noteq> byte (chr 13)" by (simp add: byte_def [of "CHR ''}''"])
    then have "chr 13 \<noteq> CHR ''}''" by metis
    then show ?thesis by (auto simp: drop_cr_def)
  qed
  have "history_read glob fetch dec (c_history_file c) \<lparr>qy_target = [], qy_job = [], qy_limit = limit\<rparr> = ([j], False)"
    using assms lines cr
    by (simp add: history_read_def history_files_def read_file_def wanted_snapshot_def max_line_def Let_def take_Cons')
  from run_logs_result [of limit c "[]" "history_read glob fetch dec", OF assms(1,2) _ this] assms(4)
  show ?thesis by simp
qed

text \<open>A view that is busy or waiting is shown once, under what it is doing.\<close>

lemma activity_rows:
  "print_activity layout k now views \<noteq> [] \<longleftrightarrow> (\<exists>v \<in> set views. tv_busy v \<or> tv_pending_applies v \<noteq> None)"
  by (auto simp: print_activity_def Let_def filter_empty_conv)

end
