(* ===== verification/Path_Audit.thy ===== *)
theory Path_Audit
  imports Config Go_Order
begin

text \<open>
  \<open>internal/audit\<close>: can the service account write a file that decides what runs as root?  Every
  path a target relies on is looked at with all its ancestors, as written and resolved.  The
  account database is an argument of \<open>lookup_identity\<close>; \<open>unix_writes\<close> is the rule of the
  kernel that the audit is measured against.
\<close>

section \<open>Identities\<close>

record identity =
  id_name :: string
  id_uid :: nat
  id_gids :: "nat list"

record finding =
  fn_path :: string
  fn_reason :: string

text \<open>\<open>strconv.ParseUint\<close> in base ten and 32 bits.\<close>

definition parse_uint32 :: "string \<Rightarrow> nat option" where
  "parse_uint32 s =
     (if s = [] then None
      else (case digits_value 0 s of
              None \<Rightarrow> None
            | Some v \<Rightarrow> if v < 2 ^ 32 then Some (nat v) else None))"

datatype identity_error = UnknownUser string | NonNumericUid string | GroupsUnreadable string

text \<open>\<open>users\<close> gives the uid and, if they can be read, the group ids of an account, as text.\<close>

definition lookup_identity ::
  "(string \<Rightarrow> (string \<times> string list option) option) \<Rightarrow> string \<Rightarrow> identity_error + identity" where
  "lookup_identity users name =
     (case users name of
        None \<Rightarrow> Inl (UnknownUser name)
      | Some (uid_text, groups) \<Rightarrow>
          (case parse_uint32 uid_text of
             None \<Rightarrow> Inl (NonNumericUid name)
           | Some uid \<Rightarrow>
               (case groups of
                  None \<Rightarrow> Inl (GroupsUnreadable name)
                | Some gs \<Rightarrow>
                    Inr \<lparr>id_name = name, id_uid = uid, id_gids = List.map_filter parse_uint32 gs\<rparr>)))"

section \<open>The check of one path\<close>

text \<open>\<open>%04o\<close> of the permission bits.\<close>

definition octal4 :: "nat \<Rightarrow> string" where
  "octal4 n = map (\<lambda>k. chr (48 + n div 8 ^ k mod 8)) [3, 2, 1, 0]"

definition writable_by :: "host \<Rightarrow> identity \<Rightarrow> string \<Rightarrow> string option" where
  "writable_by h i path =
     (case hs_lstat h path of
        Inl e \<Rightarrow> None
      | Inr info \<Rightarrow>
          if fi_kind info = Symlink then None
          else
            (let mode = octal4 (unat (and (fi_perm info) 511));
                 sticky = (fi_kind info = Directory \<and> fi_sticky info)
             in if fi_uid info = id_uid i \<and> perm_set info 128
                then Some (''owned by '' @ id_name i @ '' and owner writable (mode '' @ mode @ '')'')
                else if sticky then None
                else if perm_set info 2 then Some (''world writable (mode '' @ mode @ '')'')
                else if fi_gid info \<in> set (id_gids i) \<and> perm_set info 16
                then Some (''group writable (mode '' @ mode @ '') by a group '' @ id_name i @ '' belongs to'')
                else None))"

section \<open>The paths\<close>

text \<open>The loop of \<open>withAncestors\<close>; each turn but the last shortens the path.\<close>

fun ancestors :: "nat \<Rightarrow> string \<Rightarrow> string list" where
  "ancestors 0 p = [p]"
| "ancestors (Suc n) p = p # (if p = ''/'' \<or> p = ''.'' then [] else ancestors n (dir p))"

definition with_ancestors :: "string \<Rightarrow> string list" where
  "with_ancestors path = ancestors (length path + 1) (clean path)"

definition relied_paths :: "host \<Rightarrow> target \<Rightarrow> string list" where
  "relied_paths h t =
     t_dir t
     # (if t_compose_file t \<noteq> [] then [join_path [t_dir t, t_compose_file t]]
        else (case find (stat_ok h) (map (\<lambda>n. join_path [t_dir t, n]) default_compose_names) of
                None \<Rightarrow> []
              | Some p \<Rightarrow> [p]))
     @ (if t_env_file t \<noteq> [] then [join_path [t_dir t, t_env_file t]] else [])
     @ [join_path [t_dir t, ''.env'']]
     @ (case t_pre_update t of
          None \<Rightarrow> []
        | Some k \<Rightarrow> if hook_configured (Some k) then [hk_command k] else [])"

definition chains :: "host \<Rightarrow> string \<Rightarrow> string list" where
  "chains h p =
     with_ancestors p
     @ (case hs_eval_symlinks h p of
          Inl e \<Rightarrow> []
        | Inr r \<Rightarrow> if r \<noteq> p then with_ancestors r else [])"

definition audit_paths :: "host \<Rightarrow> config \<Rightarrow> string list" where
  "audit_paths h c = concat (map (\<lambda>t. concat (map (chains h) (relied_paths h t))) (the_targets c))"

section \<open>The audit\<close>

definition visit ::
  "host \<Rightarrow> identity \<Rightarrow> string \<Rightarrow> string list \<times> finding list \<Rightarrow> string list \<times> finding list" where
  "visit h i p sf =
     (if p \<in> set (fst sf) then sf
      else
        (p # fst sf,
         (case writable_by h i p of
            None \<Rightarrow> snd sf
          | Some reason \<Rightarrow> snd sf @ [\<lparr>fn_path = p, fn_reason = reason\<rparr>])))"

definition audit_run :: "host \<Rightarrow> config \<Rightarrow> identity \<Rightarrow> finding list" where
  "audit_run h c i = snd (fold (visit h i) (audit_paths h c) ([], []))"

section \<open>What the audit promises\<close>

text \<open>
  The kernel's rule: the owner's bit for the owner, the group's bit for a member of the group,
  the others' bit for everyone else.
\<close>

definition unix_writes :: "identity \<Rightarrow> file_info \<Rightarrow> bool" where
  "unix_writes i info =
     (if fi_uid info = id_uid i then perm_set info 128
      else if fi_gid info \<in> set (id_gids i) then perm_set info 16
      else perm_set info 2)"

text \<open>A path the account cannot write; entries of a sticky directory belong to their owners.\<close>

definition path_safe :: "host \<Rightarrow> identity \<Rightarrow> string \<Rightarrow> bool" where
  "path_safe h i p =
     (case hs_lstat h p of
        Inl e \<Rightarrow> True
      | Inr info \<Rightarrow> fi_kind info = Symlink \<or> (fi_kind info = Directory \<and> fi_sticky info \<and> fi_uid info \<noteq> id_uid i)
          \<or> \<not> unix_writes i info)"

lemma writable_by_None: "writable_by h i p = None \<Longrightarrow> path_safe h i p"
  by (auto simp: writable_by_def path_safe_def unix_writes_def Let_def split: sum.splits if_splits)

definition audit_inv :: "host \<Rightarrow> identity \<Rightarrow> string list \<times> finding list \<Rightarrow> bool" where
  "audit_inv h i sf \<longleftrightarrow>
     fn_path ` set (snd sf) = {p \<in> set (fst sf). writable_by h i p \<noteq> None}
     \<and> list_all (\<lambda>f. writable_by h i (fn_path f) = Some (fn_reason f)) (snd sf)
     \<and> distinct (map fn_path (snd sf))"

lemma visit_inv:
  assumes "audit_inv h i sf"
  shows "audit_inv h i (visit h i p sf)" and "set (fst (visit h i p sf)) = insert p (set (fst sf))"
proof -
  show "set (fst (visit h i p sf)) = insert p (set (fst sf))" by (auto simp: visit_def)
  show "audit_inv h i (visit h i p sf)"
  proof (cases "p \<in> set (fst sf)")
    case False
    have paths: "fn_path ` set (snd sf) = {p \<in> set (fst sf). writable_by h i p \<noteq> None}"
      using assms by (simp add: audit_inv_def)
    then have "p \<notin> fn_path ` set (snd sf)" using False by simp
    then show ?thesis
      using False assms paths by (cases "writable_by h i p") (auto simp: audit_inv_def visit_def)
  qed (simp add: visit_def assms)
qed

lemma visit_fold:
  "audit_inv h i sf \<Longrightarrow>
   audit_inv h i (fold (visit h i) ps sf) \<and> set (fst (fold (visit h i) ps sf)) = set (fst sf) \<union> set ps"
proof (induction ps arbitrary: sf)
  case (Cons p ps)
  with Cons.IH [OF visit_inv(1) [OF Cons.prems, of p]] visit_inv(2) [OF Cons.prems, of p]
  show ?case by simp
qed simp

lemma audit_run_findings:
  "fn_path ` set (audit_run h c i) = {p \<in> set (audit_paths h c). writable_by h i p \<noteq> None}"
  "list_all (\<lambda>f. writable_by h i (fn_path f) = Some (fn_reason f)) (audit_run h c i)"
  "distinct (map fn_path (audit_run h c i))"
proof -
  have "audit_inv h i ([], [])" by (simp add: audit_inv_def)
  note r = visit_fold [OF this, of "audit_paths h c"]
  from r show "fn_path ` set (audit_run h c i) = {p \<in> set (audit_paths h c). writable_by h i p \<noteq> None}"
    "list_all (\<lambda>f. writable_by h i (fn_path f) = Some (fn_reason f)) (audit_run h c i)"
    "distinct (map fn_path (audit_run h c i))"
    by (simp_all add: audit_run_def audit_inv_def)
qed

lemma audit_sound:
  "p \<in> set (audit_paths h c) \<Longrightarrow> p \<in> fn_path ` set (audit_run h c i) \<or> path_safe h i p"
  by (cases "writable_by h i p") (simp_all add: audit_run_findings(1) writable_by_None)

text \<open>For an absolute path the ancestors are all its prefixes, down to the root.\<close>

lemma ancestors_step:
  assumes "list_all normal cs" and "normal c"
  shows "ancestors (Suc n) (abs_path (cs @ [c])) = abs_path (cs @ [c]) # ancestors n (abs_path cs)"
proof -
  have "join [slash] (cs @ [c]) \<noteq> []" using assms(2) by (cases "cs = []") (auto simp: join_snoc normal_def)
  then have "abs_path (cs @ [c]) \<noteq> ''/''" "abs_path (cs @ [c]) \<noteq> ''.''" by (simp_all add: abs_path_def)
  then show ?thesis using assms by simp
qed

lemma ancestors_abs:
  "list_all normal cs \<Longrightarrow> length cs \<le> n \<Longrightarrow>
   ancestors n (abs_path cs) = map (\<lambda>k. abs_path (take k cs)) (rev [0..<Suc (length cs)])"
proof (induction cs arbitrary: n rule: rev_induct)
  case Nil
  then show ?case by (cases n) (simp_all add: abs_path_def)
next
  case (snoc c cs)
  then obtain m where n: "n = Suc m" and m: "length cs \<le> m" by (cases n) auto
  have "\<forall>k \<in> set (rev [0..<Suc (length cs)]). abs_path (take k (cs @ [c])) = abs_path (take k cs)"
    by (simp add: less_Suc_eq_le del: upt_Suc)
  then have shorter: "map (\<lambda>k. abs_path (take k (cs @ [c]))) (rev [0..<Suc (length cs)]) =
        map (\<lambda>k. abs_path (take k cs)) (rev [0..<Suc (length cs)])"
    by (intro map_cong refl) blast
  have "ancestors n (abs_path (cs @ [c])) = abs_path (cs @ [c]) # ancestors m (abs_path cs)"
    using ancestors_step [of cs c m] snoc.prems(1) n by simp
  also have "ancestors m (abs_path cs) = map (\<lambda>k. abs_path (take k cs)) (rev [0..<Suc (length cs)])"
    using snoc.IH [of m] snoc.prems(1) m by simp
  finally have "ancestors n (abs_path (cs @ [c])) =
      abs_path (cs @ [c]) # map (\<lambda>k. abs_path (take k cs)) (rev [0..<Suc (length cs)])" .
  moreover have "rev [0..<Suc (length (cs @ [c]))] = length (cs @ [c]) # rev [0..<Suc (length cs)]" by simp
  ultimately show ?case using shorter by (simp del: upt_Suc)
qed

lemma foldl_clean_length:
  "length (foldl (clean_step r) st cs) \<le> length st + length cs"
proof (induction cs arbitrary: st)
  case (Cons c cs)
  have "length (clean_step r st c) \<le> Suc (length st)" by (cases st) (auto simp: clean_step.simps)
  with Cons [of "clean_step r st c"] show ?case by simp
qed simp

lemma length_split_on: "length (split_on c s) \<le> Suc (length s)"
proof (induction s)
  case (Cons x xs)
  then show ?case by (cases "split_on c xs") auto
qed simp

lemma clean_components_bound:
  assumes "is_abs p" and "clean p = abs_path cs" and "list_all normal cs"
  shows "length cs \<le> Suc (length p)"
proof -
  let ?st = "foldl (clean_step True) [] (split_on slash p)"
  have "\<forall>c \<in> set (split_on slash p). slash \<notin> set c" using split_on_parts by blast
  then have n: "list_all normal (rev ?st)" using foldl_clean_rooted [of "[]"] by (simp add: list_all_iff)
  have "clean p = abs_path (rev ?st)"
    using assms(1) by (cases p) (auto simp: clean_def abs_path_def is_abs_def Let_def)
  then have "split_on slash (abs_path cs) = split_on slash (abs_path (rev ?st))" using assms(2) by simp
  then have "(if cs = [] then [[]] else cs) = (if rev ?st = [] then [[]] else rev ?st)"
    using split_abs_path [OF assms(3)] split_abs_path [OF n] by simp
  then have "cs = [] \<or> cs = [[]] \<or> cs = rev ?st" by (auto split: if_splits)
  moreover have "length (rev ?st) \<le> Suc (length p)"
    using foldl_clean_length [of True "[]" "split_on slash p"] length_split_on [of slash p] by simp
  ultimately show ?thesis by auto
qed

lemma with_ancestors_covers:
  assumes "is_abs p" and "clean p = abs_path cs" and "list_all normal cs" and "k \<le> length cs"
  shows "abs_path (take k cs) \<in> set (with_ancestors p)"
proof -
  have "with_ancestors p = map (\<lambda>k. abs_path (take k cs)) (rev [0..<Suc (length cs)])"
    using ancestors_abs [OF assms(3) clean_components_bound [OF assms(1-3)]]
    by (simp only: with_ancestors_def assms(2) Suc_eq_plus1)
  then have "set (with_ancestors p) = (\<lambda>k. abs_path (take k cs)) ` {0..<Suc (length cs)}"
    by (simp only: set_map set_rev set_upt)
  moreover have "k \<in> {0..<Suc (length cs)}" using assms(4) by simp
  ultimately show ?thesis by blast
qed

lemma set_chains:
  "set (with_ancestors p) \<subseteq> set (chains h p)"
  "hs_eval_symlinks h p = Inr r \<Longrightarrow> set (with_ancestors r) \<subseteq> set (chains h p)"
  by (auto simp: chains_def)

lemma set_audit_paths:
  "t \<in> set (the_targets c) \<Longrightarrow> p \<in> set (relied_paths h t) \<Longrightarrow> set (chains h p) \<subseteq> set (audit_paths h c)"
  by (auto simp: audit_paths_def)

text \<open>An owner without the write bit is not reported, although it may set the bit.\<close>

lemma owner_readonly_missed:
  assumes "hs_lstat h p = Inr info" and "fi_uid info = id_uid i" and "fi_perm info = 292"
  shows "writable_by h i p = None"
  using assms by (simp add: writable_by_def perm_set_def Let_def)

end
