(* ===== verification/Cli_Check.thy ===== *)
theory Cli_Check
  imports Certs Cli_Report Path_Audit Agentd
begin

text \<open>
  \<open>cli/check.go\<close>, the start of the two services (\<open>cli/serve.go\<close>, \<open>cmd/dup-agent/main.go\<close>), their
  loggers, and \<open>dup audit\<close>.  The point of \<open>dup check\<close> is a relation between these: what it passes
  the services accept.
\<close>

section \<open>\<open>dup check\<close>\<close>

definition missing_cert_error :: "config \<Rightarrow> string \<Rightarrow> string list" where
  "missing_cert_error c path =
     (let t = c_tls c in
      if tls_self_signed t then
        [''tls.self_signed is set but '' @ tls_cert_file t @ '' and '' @ tls_key_file t @ '' do not exist yet.'', [],
         ''Generate them:'', [], ''  sudo dup cert'']
      else
        [''tls is enabled in '' @ path @ '' but the certificate you configured is not there yet.'', [],
         ''Expected:'', [], ''  '' @ tls_cert_file t, ''  '' @ tls_key_file t, [],
         ''Put your own certificate and key at those paths, or set tls.self_signed: true'',
         ''and run 'sudo dup cert' to have dup generate a pair instead''])"

definition print_docker_config_status :: "host \<Rightarrow> config \<Rightarrow> string list" where
  "print_docker_config_status h c =
     (let own = length [t \<leftarrow> the_targets c. has_docker_config h t];
          rest = length [t \<leftarrow> the_targets c. \<not> has_docker_config h t]
      in (if 0 < own then
            [''  registry auth '' @ nat_digits own @ '' '' @ plural_text own ''stack has'' ''stacks have''
               @ '' own credentials''] else [])
         @ (if 0 < rest then
            [''  registry auth '' @ nat_digits rest @ '' ''
               @ plural_text rest ''stack falls back to'' ''stacks fall back to'' @ '' root's docker config'']
            else []))"

definition print_agent_drift :: "calendar \<Rightarrow> config \<Rightarrow> string + health_result \<Rightarrow> string list" where
  "print_agent_drift k c health =
     (case health of
        Inl e \<Rightarrow> []
      | Inr r \<Rightarrow>
          if hr_fingerprint r = [] \<or> hr_fingerprint r = c_fingerprint c then []
          else
            [[], ''This config does not match the one the update agent is running.'',
             ''  on disk        '' @ c_fingerprint c,
             ''  agent loaded   '' @ hr_fingerprint r
               @ (if hr_loaded r = zero_time then [] else '' at '' @ cl_format k ''02 Jan 15:04:05'' (hr_loaded r)),
             ''  agent stacks   '' @ joined_or (hr_targets r) ''none'', [],
             ''Updates will fail for anything the agent has not loaded. Apply it:'', [],
             ''  sudo systemctl restart dup-agent dup''])"

definition check_summary :: "host \<Rightarrow> config \<Rightarrow> string list" where
  "check_summary h c =
     (let n = length (c_targets c);
          auto = length (auto_update_targets c);
          hooks = length [t \<leftarrow> the_targets c. hook_configured (t_pre_update t)]
      in [if n = 0 then ''config ok: no stacks configured yet''
          else ''config ok: '' @ nat_digits n @ '' '' @ plural_text n ''stack'' ''stacks'' @ '' (''
                 @ nat_digits auto @ '' on auto update)'',
          ''  api          '' @ api_url c,
          ''  agent socket '' @ c_agent_socket c,
          ''  allow from   '' @ joined_or (c_allow_from_raw c) ''anywhere that can reach the port'']
         @ (if c_trusted_proxies_raw c \<noteq> [] then
              [''  proxies      '' @ joined_or (c_trusted_proxies_raw c) ''none''
                 @ '' (X-Forwarded-For honoured from these)''] else [])
         @ [''  cors         '' @ joined_or (c_cors_origins c) ''disabled, no browser may call this API'']
         @ (if 0 < hooks then
              [''  pre-update   '' @ nat_digits hooks @ '' '' @ plural_text hooks ''hook'' ''hooks'' @ '' configured'']
            else []))"

datatype check_end =
    CheckConfig config_error | CheckNoPeer | CheckListen listen_error | CheckNoCert "string list"
  | CheckOk "string list"

text \<open>\<open>raw\<close> is the decoded file.\<close>

definition run_check ::
  "calendar \<Rightarrow> host \<Rightarrow> config \<Rightarrow> string \<Rightarrow> string + health_result \<Rightarrow> check_end" where
  "run_check k h raw path health =
     (case load_config h True True raw of
        Inl e \<Rightarrow> CheckConfig e
      | Inr c \<Rightarrow>
          if c_agent_peer_user c = [] then CheckNoPeer
          else (case check_listen h c of
             Some e \<Rightarrow> CheckListen e
           | None \<Rightarrow>
               if tls_is_enabled (c_tls c)
                  \<and> \<not> certs_exists (stat_ok h) (tls_cert_file (c_tls c)) (tls_key_file (c_tls c))
               then CheckNoCert (missing_cert_error c path)
               else CheckOk
                 (check_summary h c @ print_docker_config_status h c @ print_warnings c
                  @ print_agent_drift k c health
                  @ (if c_targets c = [] then
                       [[], ''dup is not managing anything yet. See what is on this host:'', [],
                        ''  sudo dup list'', [],
                        ''Then add stacks under 'targets:' in the config, and re-run this'',
                        ''and 'sudo dup audit' before restarting.''] else []))))"

section \<open>The services start\<close>

text \<open>
  \<open>runServe\<close> up to the moment it serves: \<open>binds\<close> is whether the listening socket can be had.
\<close>

datatype serve_refusal =
    ServeConfig config_error | ServeListen listen_error | ServeNoSocket | ServeNoCert

definition serve_preflight :: "host \<Rightarrow> config \<Rightarrow> serve_refusal + config" where
  "serve_preflight h raw =
     (case load_config h False True raw of
        Inl e \<Rightarrow> Inl (ServeConfig e)
      | Inr c \<Rightarrow> (case check_listen h c of Some e \<Rightarrow> Inl (ServeListen e) | None \<Rightarrow> Inr c))"

definition serve_listen :: "host \<Rightarrow> config \<Rightarrow> bool \<Rightarrow> serve_refusal option" where
  "serve_listen h c binds =
     (if \<not> binds then Some ServeNoSocket
      else if tls_is_enabled (c_tls c)
        \<and> \<not> certs_exists (stat_ok h) (tls_cert_file (c_tls c)) (tls_key_file (c_tls c))
      then Some ServeNoCert else None)"

definition serve_startup :: "host \<Rightarrow> config \<Rightarrow> bool \<Rightarrow> serve_refusal + config" where
  "serve_startup h raw binds =
     (case serve_preflight h raw of
        Inl e \<Rightarrow> Inl e
      | Inr c \<Rightarrow> (case serve_listen h c binds of Some e \<Rightarrow> Inl e | None \<Rightarrow> Inr c))"

text \<open>The health check at the start only warns.\<close>

definition drift_warning :: "config \<Rightarrow> string + health_result \<Rightarrow> bool" where
  "drift_warning c health \<longleftrightarrow>
     (case health of Inl e \<Rightarrow> False | Inr r \<Rightarrow> hr_fingerprint r \<noteq> [] \<and> hr_fingerprint r \<noteq> c_fingerprint c)"

datatype uid_error = PeerNotSet | PeerUnknown string | PeerNonNumeric string

definition lookup_uid :: "(string \<Rightarrow> string option) \<Rightarrow> string \<Rightarrow> uid_error + 32 word" where
  "lookup_uid accounts name =
     (if name = [] then Inl PeerNotSet
      else (case accounts name of
              None \<Rightarrow> Inl (PeerUnknown name)
            | Some uid_text \<Rightarrow>
                (case parse_uint32 uid_text of
                   None \<Rightarrow> Inl (PeerNonNumeric name)
                 | Some uid \<Rightarrow> Inr (of_nat uid))))"

text \<open>
  \<open>run\<close> of the agent.  \<open>plan\<close> is what \<open>Listen\<close> does about the socket's path; \<open>docker_ok\<close> is
  \<open>Verify\<close>'s answer.
\<close>

datatype agent_refusal =
    AgentArgs string | AgentConfig config_error | AgentPeer uid_error | AgentDocker string | AgentSocket string

datatype agent_start = AgentVersion string | AgentRefused agent_refusal | AgentStarts config "32 word" listen_plan

definition agent_startup ::
  "host \<Rightarrow> build \<Rightarrow> (string \<Rightarrow> string option) \<Rightarrow> config \<Rightarrow> string option \<Rightarrow> bool \<Rightarrow> string list \<Rightarrow> agent_start" where
  "agent_startup h b accounts raw docker_fault print_version args =
     (if print_version then AgentVersion (version_info b ''dup-agent'')
      else if args \<noteq> [] then AgentRefused (AgentArgs (hd args))
      else (case load_config h True False raw of
        Inl e \<Rightarrow> AgentRefused (AgentConfig e)
      | Inr c \<Rightarrow>
     (case lookup_uid accounts (c_agent_peer_user c) of
        Inl e \<Rightarrow> AgentRefused (AgentPeer e)
      | Inr uid \<Rightarrow>
     (case docker_fault of
        Some e \<Rightarrow> AgentRefused (AgentDocker e)
      | None \<Rightarrow>
     (case listen_plan_of h (c_agent_socket c) of
        ListenRefused e \<Rightarrow> AgentRefused (AgentSocket e)
      | plan \<Rightarrow> AgentStarts c uid plan)))))"

section \<open>Loggers\<close>

datatype slog_level = LevelDebug | LevelInfo | LevelWarn | LevelError

text \<open>\<open>levels\<close> is \<open>slog.Level.UnmarshalText\<close>; the file is the writer beside standard output, when there is one.\<close>

definition new_logger ::
  "faults \<Rightarrow> (string \<Rightarrow> slog_level option) \<Rightarrow> config \<Rightarrow> string \<Rightarrow> disk \<Rightarrow> (slog_level \<times> writer option) \<times> disk" where
  "new_logger o1 levels c path d =
     (let level = (case levels (c_log_level c) of None \<Rightarrow> LevelInfo | Some l \<Rightarrow> l) in
      if c_log_file c = [] then ((level, None), d)
      else (case rotate_open o1 path (c_log_max_size_mb c * 1024 * 1024) (c_log_keep c) d of
              (Inl e, d1) \<Rightarrow> ((level, None), d1)
            | (Inr w, d1) \<Rightarrow> ((level, Some w), d1)))"

definition new_service_logger ::
  "faults \<Rightarrow> (string \<Rightarrow> slog_level option) \<Rightarrow> config \<Rightarrow> disk \<Rightarrow> (slog_level \<times> writer option) \<times> disk" where
  "new_service_logger o1 levels c d = new_logger o1 levels c (c_log_file c) d"

definition agent_log_path :: "string \<Rightarrow> string" where
  "agent_log_path log_file =
     (case split_path (trim_right {slash} log_file) of
        (d, name) \<Rightarrow>
          join_path [trim_right {slash} d @ ''-agent'', ''dup-agent'' @ (if ext name = [] then ''.log'' else ext name)])"

definition new_agent_logger ::
  "faults \<Rightarrow> (string \<Rightarrow> slog_level option) \<Rightarrow> config \<Rightarrow> disk \<Rightarrow> (slog_level \<times> writer option) \<times> disk" where
  "new_agent_logger o1 levels c d = new_logger o1 levels c (agent_log_path (c_log_file c)) d"

section \<open>The watch for a new release\<close>

datatype watch_line = WatchFailed update_error | WatchNewer string string time | WatchCurrent string

definition watch_round_line :: "check_run \<Rightarrow> watch_line" where
  "watch_round_line r =
     (case ck_error r of
        Some e \<Rightarrow> WatchFailed e
      | None \<Rightarrow>
          if us_newer (ck_status r)
          then WatchNewer (us_current (ck_status r)) (rl_tag (us_latest (ck_status r))) (rl_published (us_latest (ck_status r)))
          else WatchCurrent (us_current (ck_status r)))"

text \<open>One round per answer and its clock readings; every round starts from the cache the last one left.\<close>

fun watch_for_new_release ::
  "host \<Rightarrow> string \<Rightarrow> update_cache option \<Rightarrow> ((update_error + release) \<times> (time \<times> time \<times> time)) list
   \<Rightarrow> watch_line list" where
  "watch_for_new_release h current cached [] = []"
| "watch_for_new_release h current cached ((answer, readings) # rounds) =
     (if checks_disabled h then []
      else
        (let r = check_update h cached answer default_ttl readings current False in
         watch_round_line r
         # watch_for_new_release h current (case ck_wrote r of None \<Rightarrow> cached | Some cf \<Rightarrow> Some cf) rounds))"

section \<open>\<open>dup audit\<close>\<close>

datatype audit_end = AuditNoPeer | AuditIdentity identity_error | AuditOk string | AuditFailed "string list" string

definition audit_config :: "host \<Rightarrow> (string \<Rightarrow> (string \<times> string list option) option) \<Rightarrow> config \<Rightarrow> audit_end" where
  "audit_config h users c =
     (let user = c_agent_peer_user c in
      if user = [] then AuditNoPeer
      else (case lookup_identity users user of
        Inl e \<Rightarrow> AuditIdentity e
      | Inr i \<Rightarrow>
          (let fs = audit_run h c i in
           if fs = [] then
             AuditOk (''audit ok: '' @ quote user @ '' cannot write any target directory, compose file or env file'')
           else AuditFailed
             ([''audit FAILED: '' @ quote user @ '' can write files that decide what runs as root:'', []]
              @ concat (map (\<lambda>f. [''  '' @ fn_path f, ''    '' @ fn_reason f]) fs)
              @ [[], ''Anyone who compromises the API service could rewrite these and have the agent run it as root.'',
                 ''Make them owned by root and not writable by '' @ user @ '', then run this again.''])
             (nat_digits (length fs) @ '' '' @ plural_text (length fs) ''path is'' ''paths are''
              @ '' writable by the service account''))))"

section \<open>What \<open>dup check\<close> passes, the services accept\<close>

text \<open>Looking at fewer paths finds no fault that looking at more does not.\<close>

lemma project_file_relax:
  "validate_project_file h n f d name True = None \<Longrightarrow> validate_project_file h n f d name cp = None"
  by (auto simp: validate_project_file_def split: if_splits)

lemma project_file_mono:
  "validate_project_file h n f d name p = None \<Longrightarrow> (q \<Longrightarrow> p) \<Longrightarrow> validate_project_file h n f d name q = None"
  using project_file_relax by (cases p; cases q) auto

lemma hook_relax:
  "validate_hook h n hk True = Inr hk' \<Longrightarrow> validate_hook h n hk cp = Inr hk'"
  by (auto simp: validate_hook_def Let_def split: option.splits if_splits sum.splits)

lemma rest_relax:
  assumes "validate_rest h c True present t = Inr t'"
  shows "validate_rest h c False True t = Inr t'"
proof -
  let ?t = "inherit (c_defaults c) t"
  obtain hk where f1: "validate_project_file h (t_name t) ''compose_file'' (t_dir t) (t_compose_file t) present = None"
    and f2: "validate_project_file h (t_name t) ''env_file'' (t_dir t) (t_env_file t) present = None"
    and hk: "validate_hook h (t_name t) (t_pre_update ?t) True = Inr hk"
    and rest: "find (\<lambda>s. \<not> service_name_re s) (t_services t) = None"
      "\<not> (t_image_tag_env t \<noteq> [] \<and> \<not> env_name_re (t_image_tag_env t))" "\<not> t_soak ?t < 0"
      "\<not> (t_auto_update ?t \<and> t_check_interval ?t < min_check_interval)"
      "\<not> t_health_timeout ?t \<le> t_stability_window ?t"
    and t': "t' = ?t\<lparr>t_pre_update := hk\<rparr>"
    using assms
    by (auto simp: validate_rest_def Let_def simp del: inherit_frame split: option.splits sum.splits if_splits)
  have "validate_project_file h (t_name t) ''compose_file'' (t_dir t) (t_compose_file t) False = None"
    and "validate_project_file h (t_name t) ''env_file'' (t_dir t) (t_env_file t) False = None"
    using project_file_mono [OF f1] project_file_mono [OF f2] by auto
  with hook_relax [OF hk] rest t' show ?thesis
    by (simp add: validate_rest_def Let_def del: inherit_frame)
qed

lemma target_relax:
  assumes "validate_target h c True i ot seen = Inr (t, ws)"
  shows "validate_target h c False i ot seen = Inr (t, [])"
  using assms rest_relax
  by (fastforce simp: validate_target_def Let_def split: option.splits if_splits sum.splits)

lemma each_relax:
  "validate_each h c True i ots seen = Inr (ts, ws) \<Longrightarrow> validate_each h c False i ots seen = Inr (ts, [])"
proof (induction ots arbitrary: i seen ts ws)
  case (Cons ot ots)
  obtain t w ts' w' where t: "validate_target h c True i ot seen = Inr (t, w)"
    and r: "validate_each h c True (Suc i) ots (t_name t # seen) = Inr (ts', w')" and ts: "ts = t # ts'"
    using Cons.prems by (auto split: sum.splits)
  from Cons.IH [OF r] target_relax [OF t] ts show ?case by simp
qed simp

lemma targets_relax:
  assumes "validate_targets h c True = Inr c'"
  shows "\<exists>ws. validate_targets h c False = Inr (c'\<lparr>c_warnings := ws\<rparr>)"
proof -
  obtain ts ws where e: "validate_each h c True 0 (c_targets c) [] = Inr (ts, ws)"
    and p: "project_clash [] ts = None"
    and c': "c' = c\<lparr>c_targets := map Some ts, c_by_name := map (\<lambda>t. (t_name t, t)) ts,
                    c_warnings := c_warnings c @ ws\<rparr>"
    using assms by (auto simp: validate_targets_def split: sum.splits option.splits)
  show ?thesis by (rule exI [of _ "c_warnings c"]) (simp add: validate_targets_def each_relax [OF e] p c')
qed

text \<open>Nothing after the secrets looks at them.\<close>

lemma notify_auth:
  "validate_notify h (c\<lparr>c_auth := a\<rparr>) =
     (case validate_notify h c of Inl e \<Rightarrow> Inl e | Inr c' \<Rightarrow> Inr (c'\<lparr>c_auth := a\<rparr>))"
  by (auto simp: validate_notify_def Let_def split: option.split)

lemma networks_auth:
  "validate_networks h (c\<lparr>c_auth := a\<rparr>) =
     (case validate_networks h c of Inl e \<Rightarrow> Inl e | Inr c' \<Rightarrow> Inr (c'\<lparr>c_auth := a\<rparr>))"
  by (simp add: validate_networks_def split: option.split sum.split)

lemma rest_auth: "validate_rest h (c\<lparr>c_auth := a\<rparr>) = validate_rest h c"
  by (intro ext) (simp add: validate_rest_def Let_def split: option.split sum.split)

lemma target_auth: "validate_target h (c\<lparr>c_auth := a\<rparr>) cp i ot seen = validate_target h c cp i ot seen"
  by (cases ot) (simp_all add: validate_target_def rest_auth Let_def split: sum.split)

lemma each_auth: "validate_each h (c\<lparr>c_auth := a\<rparr>) cp i ots seen = validate_each h c cp i ots seen"
  by (induction ots arbitrary: i seen) (simp_all add: target_auth split: sum.split)

lemma targets_auth:
  "validate_targets h (c\<lparr>c_auth := a\<rparr>) cp =
     (case validate_targets h c cp of Inl e \<Rightarrow> Inl e | Inr c' \<Rightarrow> Inr (c'\<lparr>c_auth := a\<rparr>))"
  by (simp add: validate_targets_def each_auth split: option.split sum.split)

lemma load_relax:
  assumes "load_config h True True raw = Inr c"
  shows "\<exists>ws. load_config h False True raw = Inr (c\<lparr>c_warnings := ws\<rparr>)"
    and "\<exists>a. load_config h True False raw = Inr (c\<lparr>c_auth := a\<rparr>)"
proof -
  obtain c1 c2 c3 c4 where 1: "apply_defaults raw = Inr c1" and 2: "resolve_secrets h c1 = Inr c2"
    and 3: "validate_notify h c2 = Inr c3" and 4: "validate_networks h c3 = Inr c4"
    and 5: "validate_targets h c4 True = Inr c"
    using assms by (auto simp: load_config_def split: sum.splits)
  show "\<exists>ws. load_config h False True raw = Inr (c\<lparr>c_warnings := ws\<rparr>)"
    using targets_relax [OF 5] 1 2 3 4 by (simp add: load_config_def)
  have c1: "c1 = c2\<lparr>c_auth := c_auth c1\<rparr>"
    using 2 by (auto simp: resolve_secrets_def Let_def split: sum.splits if_splits)
  have "validate_notify h c1 = Inr (c3\<lparr>c_auth := c_auth c1\<rparr>)"
    by (subst c1) (simp add: notify_auth 3)
  then have "load_config h True False raw = Inr (c\<lparr>c_auth := c_auth c1\<rparr>)"
    using 1 4 5 by (simp add: load_config_def networks_auth targets_auth)
  then show "\<exists>a. load_config h True False raw = Inr (c\<lparr>c_auth := a\<rparr>)" by blast
qed

lemma check_listen_frame [simp]:
  "check_listen h (c\<lparr>c_warnings := ws\<rparr>) = check_listen h c"
  by (simp add: check_listen_def split: option.split)

lemma check_passes:
  assumes "run_check k h raw path health = CheckOk out"
  shows "(\<exists>c. serve_startup h raw True = Inr c)
    \<and> (case agent_startup h b accounts raw docker_fault False [] of
         AgentVersion v \<Rightarrow> False
       | AgentRefused (AgentArgs a) \<Rightarrow> False
       | AgentRefused (AgentConfig e) \<Rightarrow> False
       | AgentRefused (AgentPeer PeerNotSet) \<Rightarrow> False
       | _ \<Rightarrow> True)"
proof -
  obtain c where l: "load_config h True True raw = Inr c" and p: "c_agent_peer_user c \<noteq> []"
    and cl: "check_listen h c = None"
    and ce: "\<not> tls_is_enabled (c_tls c) \<or> certs_exists (stat_ok h) (tls_cert_file (c_tls c)) (tls_key_file (c_tls c))"
    using assms by (auto simp: run_check_def split: sum.splits if_splits option.splits)
  obtain ws where "load_config h False True raw = Inr (c\<lparr>c_warnings := ws\<rparr>)" using load_relax(1) [OF l] by blast
  then have "\<exists>c. serve_startup h raw True = Inr c" using cl ce by (auto simp: serve_startup_def serve_preflight_def serve_listen_def)
  moreover obtain a where "load_config h True False raw = Inr (c\<lparr>c_auth := a\<rparr>)" using load_relax(2) [OF l] by blast
  ultimately show ?thesis
    using p by (auto simp: agent_startup_def lookup_uid_def split: sum.split option.split listen_plan.split)
qed

section \<open>The agent's log\<close>

text \<open>For a log in some directory, the agent's is in the directory beside it.\<close>

lemma trim_right_keep: "s \<noteq> [] \<Longrightarrow> last s \<notin> cs \<Longrightarrow> trim_right cs s = s"
  by (cases s rule: rev_cases) (simp_all add: trim_right_def)

lemma normal_last: "normal w \<Longrightarrow> w \<noteq> [] \<and> last w \<noteq> slash"
  by (cases w rule: rev_cases) (auto simp: normal_def)

lemma ext_no_slash: "slash \<notin> set name \<Longrightarrow> slash \<notin> set (ext name)"
  by (auto simp: ext_def split_path_def Let_def split: option.splits dest!: in_set_dropD)

lemma agent_log_beside:
  assumes "list_all normal (cs @ [d, name])"
  shows "\<exists>e. agent_log_path (abs_path (cs @ [d, name])) = abs_path (cs @ [d @ ''-agent'', ''dup-agent'' @ e])
    \<and> list_all normal (cs @ [d @ ''-agent'', ''dup-agent'' @ e])"
proof -
  define e where "e = (if ext name = [] then ''.log'' else ext name)"
  have n: "normal d" "normal name" "list_all normal cs" using assms by auto
  have "slash \<notin> set e" using ext_no_slash [of name] n by (auto simp: e_def normal_def)
  then have w: "normal (''dup-agent'' @ e)" by (auto simp: normal_def)
  have a: "normal (d @ ''-agent'')" using n by (auto simp: normal_def)
  let ?p = "abs_path (cs @ [d])"
  have path: "abs_path (cs @ [d, name]) = ?p @ slash # name"
    using abs_path_snoc [of "cs @ [d]" name] by simp
  have "last ?p = last d" "?p \<noteq> []" using normal_last [OF n(1)] by (auto simp: abs_path_snoc)
  then have keep: "trim_right {slash} ?p = ?p" using trim_right_keep normal_last [OF n(1)] by auto
  have "trim_right {slash} (?p @ slash # name) = ?p @ slash # name"
    using normal_last [OF n(2)] by (intro trim_right_keep) auto
  then have split: "split_path (trim_right {slash} (abs_path (cs @ [d, name]))) = (?p @ [slash], name)"
    using n(2) path by (simp add: split_path_snoc normal_def)
  have "trim_right {slash} (?p @ [slash]) = trim_right {slash} ?p" by (simp add: trim_right_def)
  then have "agent_log_path (abs_path (cs @ [d, name])) = join_path [?p @ ''-agent'', ''dup-agent'' @ e]"
    using keep split unfolding agent_log_path_def e_def by simp
  also have "?p @ ''-agent'' = abs_path (cs @ [d @ ''-agent''])" by (simp add: abs_path_snoc)
  also have "join_path [abs_path (cs @ [d @ ''-agent'']), ''dup-agent'' @ e] =
      abs_path ((cs @ [d @ ''-agent'']) @ [''dup-agent'' @ e])"
    using join_path_abs [of "cs @ [d @ ''-agent'']" "''dup-agent'' @ e"] n a w by simp
  finally show ?thesis using n a w by (intro exI [of _ e]) simp
qed

text \<open>For a log directly under the root it is a relative path, which the writer refuses.\<close>

lemma agent_log_at_root: "agent_log_path ''/dup.log'' = ''-agent/dup-agent.log''"
  by code_simp

lemma agent_log_refused:
  "new_agent_logger o1 levels (c\<lparr>c_log_file := ''/dup.log''\<rparr>) d = ((case levels (c_log_level c) of None \<Rightarrow> LevelInfo | Some l \<Rightarrow> l, None), d)"
  by (simp add: new_agent_logger_def new_logger_def agent_log_at_root rotate_open_def is_abs_def)

end
