(* ===== verification/Config_File.thy ===== *)
theory Config_File
  imports Cli_Check
begin

text \<open>
  \<open>load\<close> of \<open>config.go\<close> from the bytes of the file on: what it says when the file cannot be read,
  the fingerprint, and the four ways the commands load it.  The YAML decoder, with unknown
  fields refused, and the hash are parameters.  At the end the fingerprints of the two services
  meet: the API service warns of a differing configuration exactly when the files differ under
  the hash.
\<close>

section \<open>Hex\<close>

text \<open>\<open>hex.EncodeToString\<close>.\<close>

definition hex_encode :: "string \<Rightarrow> string" where
  "hex_encode s = concat (map (hex2 \<circ> byte) s)"

lemma length_hex_encode [simp]: "length (hex_encode s) = 2 * length s"
  by (induction s) (simp_all add: hex_encode_def hex2_def)

lemma hex_value_digit: "n < 16 \<Longrightarrow> hex_value (hex_digit n) = Some n"
  by (auto simp: hex_value_def hex_digit_def is_digit_def)

lemma hex_decode_encode: "hex_decode (hex_encode s) = Some s"
proof (induction s)
  case (Cons c s)
  have "byte c div 16 < 16" using byte_less [of c] by linarith
  then show ?case using Cons.IH by (simp add: hex_encode_def hex2_def hex_value_digit)
qed (simp add: hex_encode_def)

lemma hex_encode_inject [simp]: "hex_encode s = hex_encode t \<longleftrightarrow> s = t"
  using hex_decode_encode by (metis option.inject)

section \<open>The file\<close>

record config_codec =
  yc_sha256 :: "string \<Rightarrow> string"
  yc_decode :: "string \<Rightarrow> string + config"

datatype file_error = Unreadable string | BadYaml string | BadConfig config_error

text \<open>\<open>e\<close> is the text of any other error.\<close>

definition read_config_error :: "string \<Rightarrow> fs_error \<Rightarrow> string" where
  "read_config_error path err =
     (case err of
        NotExist \<Rightarrow>
          ''there is no config at '' @ path @ ''.'' @ [newline_char, newline_char]
          @ ''Create one from the reference that ships with dup:'' @ [newline_char, newline_char]
          @ ''  sudo cp /etc/dup/config.example.yml '' @ path @ [newline_char]
          @ ''  sudo chown root:dup '' @ path @ '' && sudo chmod 0640 '' @ path @ [newline_char]
          @ ''  sudo nano '' @ path @ [newline_char, newline_char]
          @ ''Then:  sudo dup check''
      | PermissionDenied \<Rightarrow>
          ''not allowed to read '' @ path @ ''.'' @ [newline_char, newline_char]
          @ ''It is owned root:dup and not world readable on purpose: it names every'' @ [newline_char]
          @ ''stack dup may restart. Either run the command with sudo, or join the group:'' @ [newline_char, newline_char]
          @ ''  sudo usermod -aG dup $USER   (then log out and back in)''
      | OtherError e \<Rightarrow> ''read config '' @ path @ '': '' @ e)"

definition fingerprint_of :: "config_codec \<Rightarrow> string \<Rightarrow> string" where
  "fingerprint_of k raw = hex_encode (take 12 (yc_sha256 k raw))"

definition load_file :: "host \<Rightarrow> config_codec \<Rightarrow> bool \<Rightarrow> bool \<Rightarrow> string \<Rightarrow> file_error + config" where
  "load_file h k check_paths check_secrets path =
     (case hs_read_file h path of
        Inl e \<Rightarrow> Inl (Unreadable (read_config_error path e))
      | Inr raw \<Rightarrow>
     (case yc_decode k raw of
        Inl e \<Rightarrow> Inl (BadYaml (''parse config: '' @ e))
      | Inr c \<Rightarrow>
     (case load_config h check_paths check_secrets (c\<lparr>c_fingerprint := fingerprint_of k raw\<rparr>) of
        Inl e \<Rightarrow> Inl (BadConfig e)
      | Inr c' \<Rightarrow> Inr c')))"

definition load :: "host \<Rightarrow> config_codec \<Rightarrow> string \<Rightarrow> file_error + config" where
  "load h k path = load_file h k True True path"

definition load_service :: "host \<Rightarrow> config_codec \<Rightarrow> string \<Rightarrow> file_error + config" where
  "load_service h k path = load_file h k False True path"

definition load_agent :: "host \<Rightarrow> config_codec \<Rightarrow> string \<Rightarrow> file_error + config" where
  "load_agent h k path = load_file h k True False path"

definition load_basic :: "host \<Rightarrow> config_codec \<Rightarrow> string \<Rightarrow> file_error + config" where
  "load_basic h k path = load_file h k False False path"

section \<open>The fingerprint\<close>

text \<open>Nothing after the decoder touches it.\<close>

lemma apply_defaults_fingerprint: "apply_defaults c = Inr c' \<Longrightarrow> c_fingerprint c' = c_fingerprint c"
  by (auto simp: apply_defaults_def Let_def split: if_splits sum.splits option.splits)

lemma resolve_secrets_fingerprint: "resolve_secrets h c = Inr c' \<Longrightarrow> c_fingerprint c' = c_fingerprint c"
  by (auto simp: resolve_secrets_def Let_def split: sum.splits if_splits)

lemma validate_notify_fingerprint: "validate_notify h c = Inr c' \<Longrightarrow> c_fingerprint c' = c_fingerprint c"
  by (auto simp: validate_notify_def Let_def split: option.splits if_splits)

lemma validate_networks_fingerprint: "validate_networks h c = Inr c' \<Longrightarrow> c_fingerprint c' = c_fingerprint c"
  by (auto simp: validate_networks_def split: option.splits sum.splits)

lemma validate_targets_fingerprint: "validate_targets h c cp = Inr c' \<Longrightarrow> c_fingerprint c' = c_fingerprint c"
  by (auto simp: validate_targets_def Let_def split: option.splits sum.splits prod.splits if_splits)

lemma load_config_fingerprint:
  assumes "load_config h cp cs c = Inr c'"
  shows "c_fingerprint c' = c_fingerprint c"
proof -
  obtain c1 c2 c3 c4 where "apply_defaults c = Inr c1"
    and "(if cs then resolve_secrets h c1 else Inr c1) = Inr c2"
    and "validate_notify h c2 = Inr c3" and "validate_networks h c3 = Inr c4"
    and "validate_targets h c4 cp = Inr c'"
    using assms by (auto simp: load_config_def split: sum.splits)
  then show ?thesis
    by (auto simp: apply_defaults_fingerprint resolve_secrets_fingerprint validate_notify_fingerprint
        validate_networks_fingerprint validate_targets_fingerprint split: if_splits)
qed

lemma load_file_result:
  assumes "load_file h k cp cs path = Inr c"
  obtains raw c0 where "hs_read_file h path = Inr raw" and "yc_decode k raw = Inr c0"
    and "load_config h cp cs (c0\<lparr>c_fingerprint := fingerprint_of k raw\<rparr>) = Inr c"
    and "c_fingerprint c = fingerprint_of k raw"
proof -
  obtain raw c0 where f: "hs_read_file h path = Inr raw" "yc_decode k raw = Inr c0"
    "load_config h cp cs (c0\<lparr>c_fingerprint := fingerprint_of k raw\<rparr>) = Inr c"
    using assms by (auto simp: load_file_def split: sum.splits)
  from load_config_fingerprint [OF f(3)] that [OF f] show ?thesis by simp
qed

text \<open>
  The service and the agent each loaded the file when they started, with what was in it then.
  The service's warning, \<open>dup check\<close>'s and the agent's answer about an unknown target all
  compare fingerprints, and fingerprints are equal exactly when the first twelve bytes of the
  hashes are.
\<close>

lemma drift_iff:
  assumes "load_service h k path = Inr c" and "load_agent h' k path' = Inr ca"
    and "hs_read_file h path = Inr raw" and "hs_read_file h' path' = Inr raw'"
    and "\<And>s. length (yc_sha256 k s) = 32"
  shows "drift_warning c (Inr (handle_health (s\<lparr>ag_cfg := ca\<rparr>)))
     \<longleftrightarrow> take 12 (yc_sha256 k raw) \<noteq> take 12 (yc_sha256 k raw')"
proof -
  have f: "c_fingerprint c = fingerprint_of k raw" "c_fingerprint ca = fingerprint_of k raw'"
    using load_file_result [OF assms(1) [unfolded load_service_def]]
      load_file_result [OF assms(2) [unfolded load_agent_def]] assms(3,4) by force+
  have "length (fingerprint_of k raw') = 24" using assms(5) by (simp add: fingerprint_of_def)
  then have "fingerprint_of k raw' \<noteq> []" by auto
  then show ?thesis using f by (auto simp: drift_warning_def handle_health_def fingerprint_of_def)
qed

text \<open>A file that \<open>dup check\<close> can load both services can load, with the same fingerprint.\<close>

lemma load_gates:
  assumes "load h k path = Inr c"
  shows "\<exists>cs. load_service h k path = Inr cs \<and> c_fingerprint cs = c_fingerprint c"
    and "\<exists>ca. load_agent h k path = Inr ca \<and> c_fingerprint ca = c_fingerprint c"
proof -
  obtain raw c0 where f: "hs_read_file h path = Inr raw" "yc_decode k raw = Inr c0"
    and l: "load_config h True True (c0\<lparr>c_fingerprint := fingerprint_of k raw\<rparr>) = Inr c"
    using load_file_result [OF assms [unfolded load_def]] .
  from load_relax [OF l] f
  show "\<exists>cs. load_service h k path = Inr cs \<and> c_fingerprint cs = c_fingerprint c"
    and "\<exists>ca. load_agent h k path = Inr ca \<and> c_fingerprint ca = c_fingerprint c"
    by (auto simp: load_service_def load_agent_def load_file_def)
qed

end
