(* ===== verification/Lifecycle.thy ===== *)
theory Lifecycle
  imports Service Cli_Check Config_File
begin

text \<open>
  The life of \<open>dup serve\<close> after its checks: serving, the signal, the shutdown of the HTTP server
  and \<open>DrainRunning\<close> of \<open>job.go\<close>, interleaved with everything the service does.  When
  \<open>runServe\<close> returns the process ends, and with it the goroutines.
\<close>

section \<open>Identifiers\<close>

text \<open>\<open>newID\<close>: eight random bytes in hex, or, without randomness, a formatted time.\<close>

definition new_id :: "string option \<Rightarrow> string \<Rightarrow> string" where
  "new_id random stamp = (case random of None \<Rightarrow> stamp | Some b \<Rightarrow> hex_encode b)"

text \<open>Eight bytes, or a time in the layout \<open>20060102150405.000000000\<close>: long enough for \<open>dup logs\<close>.\<close>

lemma new_id_length:
  assumes "\<And>b. random = Some b \<Longrightarrow> length b = 8" and "random = None \<Longrightarrow> length stamp = 24"
  shows "8 \<le> length (new_id random stamp)"
  using assms by (cases random) (simp_all add: new_id_def)

section \<open>Serving and stopping\<close>

definition serve_shutdown_grace :: duration where "serve_shutdown_grace = 30 * second"

text \<open>
  What \<open>Serve\<close> or \<open>ServeTLS\<close> ended with, and what its goroutine sends: the orderly end of a
  closed server is no error.
\<close>

datatype serve_end = ServerClosed | ServeEndedNil | ServeFault string

definition serve_sends :: "serve_end \<Rightarrow> string option" where
  "serve_sends r = (case r of ServeFault e \<Rightarrow> Some e | _ \<Rightarrow> None)"

datatype stop = ServeReturned "string option" | StopDrained | StopOvertime

datatype serve_phase =
    Serving
  | ShuttingDown
  | Draining "nat option"
  | Stopped stop

record life =
  li_service :: service
  li_phase :: serve_phase

definition alive :: "serve_phase \<Rightarrow> bool" where
  "alive p = (case p of Stopped e \<Rightarrow> False | _ \<Rightarrow> True)"

definition job_over :: "store \<Rightarrow> nat \<Rightarrow> bool" where
  "job_over st r = (case s_heap st r of None \<Rightarrow> False | Some j \<Rightarrow> j_done j)"

text \<open>
  The loop of \<open>DrainRunning\<close>: it takes any running job, waits for its channel or for the
  deadline, and looks again.
\<close>

inductive drain_step :: "store \<Rightarrow> serve_phase \<Rightarrow> serve_phase \<Rightarrow> bool" for st where
  wait: "r \<in> snd ` set (s_running st) \<Longrightarrow> drain_step st (Draining None) (Draining (Some r))"
| drained: "s_running st = [] \<Longrightarrow> drain_step st (Draining None) (Stopped StopDrained)"
| over: "job_over st r \<Longrightarrow> drain_step st (Draining (Some r)) (Draining None)"
| overtime: "drain_step st (Draining (Some r)) (Stopped StopOvertime)"

text \<open>
  The main goroutine: the select of \<open>runServe\<close>, \<open>Shutdown\<close>, which may give up at its deadline
  with requests in flight, and the drain with a deadline of its own.
\<close>

inductive main_step :: "store \<Rightarrow> serve_phase \<Rightarrow> serve_phase \<Rightarrow> bool" for st where
  ended: "main_step st Serving (Stopped (ServeReturned (serve_sends r)))"
| signalled: "main_step st Serving ShuttingDown"
| shut: "main_step st ShuttingDown (Draining None)"
| drain: "drain_step st p q \<Longrightarrow> main_step st p q"

inductive_cases drain_stepE: "drain_step st p q"

text \<open>Everything the service does goes on until the process ends.\<close>

inductive life_step :: "wiring \<Rightarrow> life \<Rightarrow> life \<Rightarrow> bool" for w where
  work: "alive (li_phase l) \<Longrightarrow> service_step w (li_service l) sv \<Longrightarrow>
    life_step w l (l\<lparr>li_service := sv\<rparr>)"
| main: "main_step (se_store (li_service l)) (li_phase l) p \<Longrightarrow> life_step w l (l\<lparr>li_phase := p\<rparr>)"

inductive life_reachable :: "wiring \<Rightarrow> (writer \<times> disk) option \<Rightarrow> life \<Rightarrow> bool" for w h where
  init: "life_reachable w h \<lparr>li_service = service_init h, li_phase = Serving\<rparr>"
| step: "life_reachable w h l \<Longrightarrow> life_step w l l' \<Longrightarrow> life_reachable w h l'"

lemma drain_pick_waits: "drain_pick st = Some r \<Longrightarrow> drain_step st (Draining None) (Draining (Some r))"
  by (auto simp: drain_pick_def intro!: drain_step.wait split: list.splits)

lemma drain_pick_returns: "drain_pick st = None \<Longrightarrow> drain_step st (Draining None) (Stopped StopDrained)"
  by (auto simp: drain_pick_def intro!: drain_step.drained split: list.splits)

section \<open>An orderly stop\<close>

lemma life_service: "life_reachable w h l \<Longrightarrow> service_reachable w h (li_service l)"
proof (induction rule: life_reachable.induct)
  case (step l l')
  from step.hyps(2) step.IH show ?case
    by (cases rule: life_step.cases) (auto intro: service_reachable.step)
qed (simp add: service_reachable.init)

text \<open>What the drain waits for is a job; when it has returned nothing was running.\<close>

definition life_inv :: "life \<Rightarrow> bool" where
  "life_inv l \<longleftrightarrow>
     (case li_phase l of
        Draining (Some r) \<Rightarrow> s_heap (se_store (li_service l)) r \<noteq> None
      | Stopped StopDrained \<Rightarrow> s_running (se_store (li_service l)) = []
      | _ \<Rightarrow> True)"

lemma running_in_heap:
  assumes "store_inv st" and "r \<in> snd ` set (s_running st)"
  shows "s_heap st r \<noteq> None"
proof -
  obtain n where "(n, r) \<in> set (s_running st)" using assms(2) by auto
  then have "map_of (s_running st) n = Some r" using assms(1) by (auto simp: store_inv_defs)
  from running_entry [OF assms(1) this] show ?thesis by auto
qed

lemma begins_heap:
  assumes "begins sv sv'" and "s_heap (se_store sv) r \<noteq> None"
  shows "s_heap (se_store sv') r \<noteq> None"
  using assms unfolding begins_def by (auto simp: store_begin_heap split: option.split)

lemma service_step_heap:
  assumes "service_step w sv sv'" and "s_heap (se_store sv) r \<noteq> None"
  shows "s_heap (se_store sv') r \<noteq> None"
  using assms(1)
proof (cases rule: service_step.cases)
  case (serve e fallback readings segs q)
  then show ?thesis using service_request_only begins_heap assms(2) unfolding starts_only_def by blast
next
  case (report j job now c)
  then show ?thesis using assms(2) by (auto simp: service_report_def store_call_def)
next
  case (complete j job res now)
  obtain as st' where d: "manager_done (wired_manager w sv) now j res (se_store sv) = Some (as, st')"
      "sv' = sv\<lparr>se_store := st', se_tails := se_tails sv @ [as]\<rparr>"
    using service_done_parts [OF complete(4)] .
  obtain st1 where f: "store_finish now j (fst (run_result res)) (snd (run_result res)) (se_store sv) = Some st1"
      "st' = store_unregister j st1"
    using manager_done_steps [OF d(1)] .
  obtain j0 j' where "st1 = (se_store sv)\<lparr>s_heap := (s_heap (se_store sv))(j \<mapsto> j')\<rparr>"
    using store_finish_job [OF f(1)] .
  then show ?thesis using d(2) f(2) assms(2) by simp
next
  case (act ts a as us now)
  then show ?thesis using assms(2) by simp
next
  case (round ident t answer readings)
  then show ?thesis using service_round_only begins_heap assms(2) unfolding starts_only_def by blast
qed

lemma life_step_inv:
  assumes "life_step w l l'" and "life_inv l" and "store_inv (se_store (li_service l))"
  shows "life_inv l'"
  using assms(1)
proof (cases rule: life_step.cases)
  case (work sv)
  then show ?thesis
    using assms(2) service_step_heap [OF work(3)]
    by (auto simp: life_inv_def alive_def split: serve_phase.splits stop.splits option.splits)
next
  case (main p)
  have turn: "life_inv (l\<lparr>li_phase := p\<rparr>)" if "drain_step (se_store (li_service l)) (li_phase l) p"
    using that running_in_heap [OF assms(3)] by (cases rule: drain_step.cases) (simp_all add: life_inv_def)
  from main(2) show ?thesis
    unfolding main(1)
  proof (cases rule: main_step.cases)
    case drain
    then show "life_inv (l\<lparr>li_phase := p\<rparr>)" by (rule turn)
  qed (simp_all add: life_inv_def)
qed

lemma life_reachable_inv: "life_reachable w h l \<Longrightarrow> life_inv l"
proof (induction rule: life_reachable.induct)
  case (step l l')
  from life_step_inv [OF step.hyps(2) step.IH] step.hyps(1) life_service service_store_reachable store_reachable_inv
  show ?case by blast
qed (simp add: life_inv_def)

lemma idle_all_over:
  assumes "store_inv st" and "s_running st = []" and "s_heap st r = Some j"
  shows "terminal (j_state j)"
  using running_registered [OF assms(1,3)] assms(2) by auto

text \<open>With nothing running, the drain returns in at most two turns of its loop.\<close>

inductive main_steps :: "store \<Rightarrow> serve_phase \<Rightarrow> serve_phase \<Rightarrow> bool" for st where
  none: "main_steps st p p"
| more: "main_step st p q \<Longrightarrow> main_steps st q r \<Longrightarrow> main_steps st p r"

lemma drain_returns:
  assumes "store_inv st" and "s_running st = []" and "\<And>r. x = Some r \<Longrightarrow> s_heap st r \<noteq> None"
  shows "main_steps st (Draining x) (Stopped StopDrained)"
proof -
  have last: "main_steps st (Draining None) (Stopped StopDrained)"
    using main_step.drain [OF drain_step.drained [OF assms(2)]] main_steps.intros by blast
  show ?thesis
  proof (cases x)
    case (Some q)
    with assms(3) obtain j where j: "s_heap st q = Some j" by blast
    then have "job_over st q"
      using idle_all_over [OF assms(1,2) j] assms(1) by (simp add: job_over_def store_inv_defs)
    with last Some show ?thesis using main_step.drain [OF drain_step.over] main_steps.more by blast
  qed (use last in simp)
qed

section \<open>Beginning to serve\<close>

text \<open>\<open>runServe\<close> from the decoded file to the state it begins to serve in: the wiring of its parts.\<close>

definition host_or_unknown :: "string \<Rightarrow> string" where
  "host_or_unknown name = (if name = [] then ''unknown'' else name)"

record serve_parts =
  sp_crypto :: crypto
  sp_build :: build
  sp_status :: "update_status option"
  sp_check :: "string \<Rightarrow> client_error + check_result"
  sp_host_name :: string
  sp_encode :: "snapshot \<Rightarrow> string"
  sp_open_faults :: faults
  sp_faults :: faults

definition service_wiring :: "host \<Rightarrow> serve_parts \<Rightarrow> config \<Rightarrow> wiring" where
  "service_wiring h p c =
     \<lparr>wi_server = \<lparr>srv_cfg = c, srv_version = bd_version (sp_build p), srv_commit = short_commit (sp_build p),
        srv_update = sp_status p, srv_sched = None, srv_check = Some (sp_check p)\<rparr>,
      wi_host = h, wi_crypto = sp_crypto p,
      wi_notifier = new_notifier h (c_notify c) (host_or_unknown (sp_host_name p)),
      wi_encode = sp_encode p, wi_faults = sp_faults p\<rparr>"

definition serve_begin ::
  "host \<Rightarrow> serve_parts \<Rightarrow> config \<Rightarrow> bool \<Rightarrow> disk \<Rightarrow> serve_refusal + wiring \<times> (writer \<times> disk) option" where
  "serve_begin h p raw binds d =
     (case serve_startup h raw binds of
        Inl e \<Rightarrow> Inl e
      | Inr c \<Rightarrow> Inr (service_wiring h p c, open_history (sp_open_faults p) c d))"

text \<open>
  What \<open>Run\<close> of the scheduler starts: a goroutine for every target on auto update, which waits a
  random part of the jitter before its first round and says so.
\<close>

definition watch_start :: "duration \<Rightarrow> time \<Rightarrow> target \<Rightarrow> sched \<Rightarrow> sched" where
  "watch_start random now t s = set_next (t_name t) (now + (if 0 < startup_jitter then random mod startup_jitter else 0)) s"

fun sched_run :: "(duration \<times> time) list \<Rightarrow> target list \<Rightarrow> sched \<Rightarrow> sched" where
  "sched_run ((random, now) # rs) (t # ts) s = sched_run rs ts (watch_start random now t s)"
| "sched_run rs ts s = s"

lemma watch_start_within:
  "sc_next (watch_start random now t s) (t_name t) = Some x \<Longrightarrow> now \<le> x \<and> x < now + startup_jitter"
  by (auto simp: watch_start_def set_next_def startup_jitter_def second_def millisecond_def)

text \<open>The limits of the HTTP server: the longest wait for a job fits into the time for writing the answer.\<close>

definition http_read_header_timeout :: duration where "http_read_header_timeout = 10 * second"
definition http_read_timeout :: duration where "http_read_timeout = 30 * second"
definition http_write_timeout :: duration where "http_write_timeout = 6 * minute"
definition http_idle_timeout :: duration where "http_idle_timeout = 60 * second"

lemma wait_fits: "parse_wait frac v + http_read_timeout < http_write_timeout"
  using parse_wait_range [of frac v]
  by (auto simp: max_wait_def http_read_timeout_def http_write_timeout_def minute_def second_def millisecond_def)

section \<open>What a stop can lose\<close>

lemma life_of_service: "service_reachable w h sv \<Longrightarrow> life_reachable w h \<lparr>li_service = sv, li_phase = Serving\<rparr>"
proof (induction rule: service_reachable.induct)
  case (step sv sv')
  have "life_step w \<lparr>li_service = sv, li_phase = Serving\<rparr> \<lparr>li_service = sv', li_phase = Serving\<rparr>"
    using life_step.work [of "\<lparr>li_service = sv, li_phase = Serving\<rparr>" w sv'] step.hyps(2) by (simp add: alive_def)
  then show ?case by (rule life_reachable.step [OF step.IH])
qed (rule life_reachable.init)

text \<open>
  The drain waits for the jobs and not for the goroutines that record and report them: the
  service can stop in every state in which nothing is running, whatever is still to be done.
\<close>

lemma stop_reachable:
  assumes "service_reachable w h sv" and "s_running (se_store sv) = []"
  shows "life_reachable w h \<lparr>li_service = sv, li_phase = Stopped StopDrained\<rparr>"
proof -
  have step: "life_reachable w h \<lparr>li_service = sv, li_phase = q\<rparr>"
    if "life_reachable w h \<lparr>li_service = sv, li_phase = p\<rparr>" "main_step (se_store sv) p q" for p q
    using life_reachable.step [OF that(1) life_step.main, of q] that(2) by simp
  show ?thesis
    using step [OF step [OF step [OF life_of_service [OF assms(1)] main_step.signalled] main_step.shut]
        main_step.drain [OF drain_step.drained [OF assms(2)]]] .
qed

end
