(* ===== verification/Agent_Main.thy ===== *)
theory Agent_Main
  imports Config_File
begin

text \<open>
  The process of the root agent: whom the kernel says is calling (\<open>peer_linux.go\<close>,
  \<open>peer_other.go\<close>), the socket with its system calls (\<open>Listen\<close>), the server \<open>run\<close> of
  \<open>cmd/dup-agent\<close> builds, and its life from serving to the end of the shutdown.
\<close>

section \<open>The caller\<close>

datatype platform = Linux | OtherPlatform

text \<open>
  What the kernel answers for a connection: whether it is a unix socket, whether its descriptor
  could be had and used, the error of \<open>getsockopt\<close> and the credentials.
\<close>

record conn =
  cn_unix :: bool
  cn_raw :: bool
  cn_control :: bool
  cn_cred_error :: bool
  cn_cred :: "32 word option"

definition peer_cred_supported :: "platform \<Rightarrow> bool" where
  "peer_cred_supported pf \<longleftrightarrow> pf = Linux"

definition peer_uid_linux :: "conn \<Rightarrow> 32 word option" where
  "peer_uid_linux c =
     (if \<not> cn_unix c then None
      else if \<not> cn_raw c then None
      else if \<not> cn_control c \<or> cn_cred_error c \<or> cn_cred c = None then None
      else cn_cred c)"

definition peer_uid_other :: "conn \<Rightarrow> 32 word option" where
  "peer_uid_other c = None"

definition peer_uid :: "platform \<Rightarrow> conn \<Rightarrow> 32 word option" where
  "peer_uid pf c = (case pf of Linux \<Rightarrow> peer_uid_linux c | OtherPlatform \<Rightarrow> peer_uid_other c)"

text \<open>The connection is the value \<open>ConnContext\<close> put into the request's context, if it did.\<close>

definition peer_of :: "platform \<Rightarrow> conn option \<Rightarrow> peer" where
  "peer_of pf x =
     (case x of
        None \<Rightarrow> NoConn
      | Some c \<Rightarrow> (case peer_uid pf c of None \<Rightarrow> PeerUnreadable | Some u \<Rightarrow> PeerUid u))"

section \<open>The server\<close>

definition new_server :: "platform \<Rightarrow> config \<Rightarrow> bool \<Rightarrow> bool \<Rightarrow> agent" where
  "new_server pf c checks resolves =
     \<lparr>ag_cfg = c, ag_allowed_uid = 0, ag_check_peer = False, ag_peer_supported = peer_cred_supported pf,
      ag_has_checker = checks, ag_has_imager = resolves, ag_config_path = [], ag_config_loaded = zero_time\<rparr>"

definition with_config_path :: "string \<Rightarrow> time \<Rightarrow> agent \<Rightarrow> agent" where
  "with_config_path path now s = s\<lparr>ag_config_path := path, ag_config_loaded := now\<rparr>"

definition require_peer_uid :: "32 word \<Rightarrow> agent \<Rightarrow> agent" where
  "require_peer_uid uid s = s\<lparr>ag_allowed_uid := uid, ag_check_peer := True\<rparr>"

text \<open>The server of \<open>run\<close>: the pipeline both checks and resolves images.\<close>

definition agent_server :: "platform \<Rightarrow> config \<Rightarrow> 32 word \<Rightarrow> string \<Rightarrow> time \<Rightarrow> agent" where
  "agent_server pf c uid path now =
     require_peer_uid uid (with_config_path path now (new_server pf c True True))"

text \<open>On Linux whoever passes is root or the account of the configuration, by the kernel's word.\<close>

lemma linux_callers:
  "authorise_peer (agent_server Linux c uid path now) (peer_of Linux x) = None \<longleftrightarrow>
     (\<exists>k u. x = Some k \<and> peer_uid_linux k = Some u \<and> (u = 0 \<or> u = uid))"
  by (auto simp: authorise_peer_def agent_server_def require_peer_uid_def with_config_path_def new_server_def
      peer_of_def peer_uid_def peer_cred_supported_def split: option.split)

text \<open>Elsewhere every caller that can open the socket passes, which is why the agent warns.\<close>

lemma other_callers:
  "authorise_peer (agent_server OtherPlatform c uid path now) (peer_of OtherPlatform x) = None \<longleftrightarrow> x \<noteq> None"
  by (auto simp: authorise_peer_def agent_server_def require_peer_uid_def with_config_path_def new_server_def
      peer_of_def peer_uid_def peer_uid_other_def peer_cred_supported_def split: option.split)

section \<open>The socket\<close>

record node =
  nd_kind :: file_kind
  nd_perm :: "32 word"

type_synonym sock_dir = "string \<Rightarrow> node option"

text \<open>Which of the calls of \<open>Listen\<close> fail, and the umask.\<close>

record sock_world =
  kw_lstat :: "fs_error option"
  kw_remove_fails :: bool
  kw_bind_fails :: bool
  kw_chmod_fails :: bool
  kw_umask :: "32 word"

definition socket_mode :: "32 word" where "socket_mode = 0x1B0"

datatype sock_error = SockRefused string | SockRemove | SockBind string | SockChmod

definition sock_lstat :: "sock_world \<Rightarrow> sock_dir \<Rightarrow> string \<Rightarrow> fs_error + file_info" where
  "sock_lstat w fs p =
     (case kw_lstat w of
        Some e \<Rightarrow> Inl e
      | None \<Rightarrow>
          (case fs p of
             None \<Rightarrow> Inl NotExist
           | Some n \<Rightarrow> Inr \<lparr>fi_kind = nd_kind n, fi_perm = nd_perm n, fi_sticky = False, fi_uid = 0, fi_gid = 0\<rparr>))"

text \<open>
  Binding makes the socket with the mode the umask leaves; closing a listener that was bound
  removes its path.
\<close>

definition bind_socket :: "sock_world \<Rightarrow> string \<Rightarrow> sock_dir \<Rightarrow> sock_error option \<times> sock_dir" where
  "bind_socket w path fs =
     (if kw_bind_fails w \<or> fs path \<noteq> None then (Some (SockBind path), fs)
      else if kw_chmod_fails w then (Some SockChmod, fs(path := None))
      else (None, fs(path \<mapsto> \<lparr>nd_kind = SocketFile, nd_perm = socket_mode\<rparr>)))"

text \<open>The directory between the bind and the chmod.\<close>

definition bound_socket :: "sock_world \<Rightarrow> string \<Rightarrow> sock_dir \<Rightarrow> sock_dir" where
  "bound_socket w path fs = fs(path \<mapsto> \<lparr>nd_kind = SocketFile, nd_perm = and 0x1FF (not (kw_umask w))\<rparr>)"

definition agent_listen :: "host \<Rightarrow> sock_world \<Rightarrow> string \<Rightarrow> sock_dir \<Rightarrow> sock_error option \<times> sock_dir" where
  "agent_listen h w path fs =
     (case listen_plan_of (h\<lparr>hs_lstat := sock_lstat w fs\<rparr>) path of
        ListenRefused e \<Rightarrow> (Some (SockRefused e), fs)
      | RemoveStale \<Rightarrow>
          if kw_remove_fails w then (Some SockRemove, fs) else bind_socket w path (fs(path := None))
      | BindFresh \<Rightarrow> bind_socket w path fs)"

text \<open>A path is fit for the socket when nothing is there but, perhaps, an old socket.\<close>

definition replaceable :: "node option \<Rightarrow> bool" where
  "replaceable x \<longleftrightarrow> (case x of None \<Rightarrow> True | Some n \<Rightarrow> nd_kind n = SocketFile)"

lemma agent_listen_result:
  assumes "agent_listen h w path fs = (e, fs')"
  shows "e = None \<Longrightarrow> is_abs path \<and> replaceable (fs path)
      \<and> fs' path = Some \<lparr>nd_kind = SocketFile, nd_perm = socket_mode\<rparr>"
    and "e \<noteq> None \<Longrightarrow> fs' path = fs path \<or> (replaceable (fs path) \<and> fs' path = None)"
    and "q \<noteq> path \<Longrightarrow> fs' q = fs q"
  using assms
  by (auto simp: agent_listen_def listen_plan_of_def sock_lstat_def bind_socket_def replaceable_def
      split: if_splits option.splits sum.splits fs_error.splits)

text \<open>What others may do with it: nothing.\<close>

lemma socket_mode_closed: "and socket_mode 7 = 0"
  by (simp add: socket_mode_def)

section \<open>The life of the agent\<close>

datatype agent_stop = AgentServeEnded "string option" | AgentStopped | AgentOvertime

datatype agent_phase = AgentServing | AgentShutdown | AgentEnded agent_stop

record agent_life =
  al_pool :: pool
  al_phase :: agent_phase

definition shutdown_grace :: duration where "shutdown_grace = 90 * second"

text \<open>
  The select of \<open>run\<close> and \<open>Shutdown\<close>, which returns when no handler is left, or at its
  deadline; until then the handlers go on.
\<close>

inductive agent_life_step :: "agent_life \<Rightarrow> agent_life \<Rightarrow> bool" where
  handlers: "al_phase l \<in> {AgentServing, AgentShutdown} \<Longrightarrow> agent_step (al_pool l) p \<Longrightarrow>
    agent_life_step l (l\<lparr>al_pool := p\<rparr>)"
| serve_ended: "al_phase l = AgentServing \<Longrightarrow>
    agent_life_step l (l\<lparr>al_phase := AgentEnded (AgentServeEnded e)\<rparr>)"
| signalled: "al_phase l = AgentServing \<Longrightarrow> agent_life_step l (l\<lparr>al_phase := AgentShutdown\<rparr>)"
| closed: "al_phase l = AgentShutdown \<Longrightarrow> pl_flight (al_pool l) = [] \<Longrightarrow>
    agent_life_step l (l\<lparr>al_phase := AgentEnded AgentStopped\<rparr>)"
| deadline: "al_phase l = AgentShutdown \<Longrightarrow>
    agent_life_step l (l\<lparr>al_phase := AgentEnded AgentOvertime\<rparr>)"

inductive agent_life_reachable :: "agent_life \<Rightarrow> bool" where
  started: "agent_life_reachable
    \<lparr>al_pool = \<lparr>pl_locks = \<lparr>lk_running = {}, lk_slots = 0\<rparr>, pl_flight = []\<rparr>, al_phase = AgentServing\<rparr>"
| step: "agent_life_reachable l \<Longrightarrow> agent_life_step l l' \<Longrightarrow> agent_life_reachable l'"

lemma agent_life_pool: "agent_life_reachable l \<Longrightarrow> agent_reachable (al_pool l)"
proof (induction rule: agent_life_reachable.induct)
  case (step l l')
  from step.hyps(2) step.IH show ?case
    by (cases rule: agent_life_step.cases) (auto intro: agent_reachable.step)
qed (simp add: agent_reachable.idle)

lemma agent_stopped_idle:
  assumes "agent_life_reachable l"
  shows "al_phase l = AgentEnded AgentStopped \<Longrightarrow> pl_flight (al_pool l) = []"
  using assms
proof (induction rule: agent_life_reachable.induct)
  case (step l l')
  from step.hyps(2) step.IH step.prems show ?case
    by (cases rule: agent_life_step.cases) auto
qed simp

text \<open>An orderly stop of the agent leaves no update in the middle: no target is held, no slot taken.\<close>

lemma agent_stops_idle:
  assumes "agent_life_reachable l" and "al_phase l = AgentEnded AgentStopped"
  shows "lk_running (pl_locks (al_pool l)) = {} \<and> lk_slots (pl_locks (al_pool l)) = 0"
  using agent_reachable_inv [OF agent_life_pool [OF assms(1)]] agent_stopped_idle [OF assms]
  by (simp add: pool_inv_def)

end
