(* ===== verification/Sample_World.thy ===== *)
theory Sample_World
  imports Agentd Service
begin

text \<open>
  A small concrete world: a host without files, a clock in nanoseconds that every command
  moves by one second, and a docker with one service \<open>web\<close> that is always running.  The
  properties of the root theory that have hypotheses are applied to it.
\<close>

definition bare_host :: host where
  "bare_host =
     \<lparr>hs_stat = (\<lambda>p. Inl NotExist), hs_lstat = (\<lambda>p. Inl NotExist),
      hs_eval_symlinks = (\<lambda>p. Inl NotExist), hs_read_file = (\<lambda>p. Inl NotExist),
      hs_getenv = (\<lambda>k. None), hs_environ = [], hs_uid = 0, hs_gid = 0,
      hs_user_gid = (\<lambda>n. None), hs_parse_addr = (\<lambda>s. None), hs_parse_prefix = (\<lambda>s. None),
      hs_parse_url = (\<lambda>s. None)\<rparr>"

definition web_entry :: ps_entry where
  "web_entry = \<lparr>pe_name = ''w'', pe_service = ''web'', pe_state = ''running'', pe_status = [],
     pe_health = ''healthy'', pe_image = ''r:1''\<rparr>"

text \<open>The output of a command: the listing is an array, every image is \<open>x\<close>.\<close>

definition sample_output :: "string list \<Rightarrow> string" where
  "sample_output args = (if docker_verb args = ''ps'' then ''['' else ''x'')"

definition sample_docker :: "int docker" where
  "sample_docker =
     \<lparr>dk_bin = ''docker'', dk_host = (\<lambda>w. bare_host), dk_clock = (\<lambda>w. (w, w)),
      dk_caller_done = (\<lambda>w. None),
      dk_run = (\<lambda>b args wd env c w. ((sample_output args, None), w + second)),
      dk_wait = (\<lambda>c due w. (True, max w due)), dk_look_path = (\<lambda>b w. None),
      dk_services = (\<lambda>s. Inr [(''web'', ''r:1'')]), dk_ps_array = (\<lambda>s. Inr [web_entry]),
      dk_ps_entry = (\<lambda>s. Inr web_entry)\<rparr>"

definition sample_target :: target where
  "sample_target =
     \<lparr>t_name = ''app'', t_dir = ''/srv/app'', t_compose_file = [], t_env_file = [], t_services = [],
      t_image_tag_env = [], t_allow_prerelease = False, t_auto_update = True,
      t_check_interval = hour, t_soak_opt = None, t_rollback = None, t_pull_timeout = minute,
      t_health_timeout = minute, t_job_timeout = hour, t_stability_window = 0,
      t_pre_update = None, t_soak = minute, t_docker_cfg = []\<rparr>"

definition sample_request :: job_request where
  "sample_request = \<lparr>rq_tag = [], rq_reason = [], rq_trigger = [], rq_dry_run = False, rq_force = False\<rparr>"

definition sample_run :: "int run" where
  "sample_run = \<lparr>r_world = 0, r_trace = [], r_stamps = []\<rparr>"

text \<open>A disk on which every call succeeds, one where only the first does, and a finished job.\<close>

definition all_fine :: faults where
  "all_fine = \<lparr>ft_ok = (\<lambda>k. True), ft_short = (\<lambda>k. 0)\<rparr>"

definition only_first :: faults where
  "only_first = \<lparr>ft_ok = (\<lambda>k. k = 0), ft_short = (\<lambda>k. 0)\<rparr>"

definition empty_disk :: disk where
  "empty_disk = \<lparr>ds_files = (\<lambda>p. None), ds_ops = 0\<rparr>"

definition sample_snapshot :: snapshot where
  "sample_snapshot =
     snapshot_of 9 ((new_job ''i'' 0 ''app'' sample_request)\<lparr>j_state := StateSucceeded, j_finished := Some 9\<rparr>)"

lemma sample_clock_laws: "clock_laws sample_docker"
  by (simp add: clock_laws_def sample_docker_def time_at_def second_def)

lemma sample_exec:
  "run_state (exec_docker sample_docker CallerCtx wd env args) s =
   (\<lparr>rs_args = args, rs_output = sample_output args, rs_err = None\<rparr>,
    s\<lparr>r_world := r_world s + second,
      r_trace := r_trace s @ [Ran wd env \<lparr>rs_args = args, rs_output = sample_output args, rs_err = None\<rparr>],
      r_stamps := r_stamps s @ [r_world s + second]\<rparr>)"
  by (simp add: exec_docker_def Let_def ctx_err_def clock_def world_do_def emit_def sample_docker_def Compose.truncate_def truncate_to_def
    sample_output_def max_output_bytes_def)

lemma sample_parse: "parse_ps sample_docker ''['' = Inr [container_of web_entry]"
  by (simp add: parse_ps_def trim_space_def Let_def utf8_chunks_ascii is_space_def byte_def sample_docker_def web_entry_def)

lemma sample_lines: "inspect_lines ''x'' = []"
  by (simp add: inspect_lines_def trim_space_def Let_def utf8_chunks_ascii is_space_def byte_def chr_def List.map_filter_def trim_prefix_def)

lemma sample_containers:
  "\<exists>res s'. run_state (containers sample_docker CallerCtx sample_target env) s = (([container_of web_entry], res), s')
   \<and> rs_err res = None \<and> r_world s' = r_world s + 2 * second"
  by (simp add: containers_def sample_exec attach_image_ids_def sample_output_def sample_parse sample_lines attach_one_def)

lemma sample_running: "running (container_of web_entry)"
  by (simp add: running_def equal_fold_def container_of_def web_entry_def utf8_chunks_ascii fold_chunk_def byte_def)

lemma sample_healthy: "healthy (container_of web_entry)"
  by (simp add: healthy_def to_lower_def container_of_def web_entry_def utf8_chunks_ascii lower_chunk_def byte_def)

lemma sample_settled: "fst (settled [container_of web_entry] [''web''])"
  using sample_running sample_healthy by (simp add: settled_def index_by_service_def container_of_def web_entry_def)

lemma sample_wait:
  "fst (run_state (wait_healthy 1 sample_docker CallerCtx sample_target JobSink [] [''web''] ''health'') sample_run) = Some None"
proof -
  let ?s = "\<lparr>r_world = 0::int, r_trace = [Called (StartStep ''health'')], r_stamps = [0]\<rparr>"
  obtain res s' where c: "run_state (containers sample_docker CallerCtx sample_target []) ?s = (([container_of web_entry], res), s')" "rs_err res = None"
    using sample_containers [of "[]" ?s] by blast
  have k: "dk_clock sample_docker = (\<lambda>w. (w, w))" "t_stability_window sample_target = 0"
     by (simp_all add: sample_docker_def sample_target_def)
  show ?thesis
    using c by (simp add: Let_def wait_healthy_def begin_step_def clock_def call_def emit_def world_do_def k sample_run_def poll_health_def judge_poll_def sample_settled
      done_step_def)
qed

text \<open>A service in which the scheduler started an update of the target and the agent finished it.\<close>

definition sample_answer :: check_result where
  "sample_answer = \<lparr>cr_available = True, cr_changed = [''web''], cr_message = []\<rparr>"

definition sample_started :: "wiring \<Rightarrow> (writer \<times> disk) option \<Rightarrow> service" where
  "sample_started w l =
     service_round w ''i'' (sample_target\<lparr>t_soak := 0\<rparr>) (Inr sample_answer) (0, 0, 0, 0) (service_init l)"

lemma sample_started_job:
  "\<exists>j. s_heap (se_store (sample_started w l)) 0 = Some j \<and> j_state j = StateRunning \<and> \<not> j_done j"
  by (simp add: sample_started_def service_round_def watch_round_def tick_def service_busy_def service_init_def
      manager_busy_def store_running_def new_store_def note_recovered_def mark_broken_def sample_answer_def
      offer_def mark_def set_last_def new_sched_def Let_def ready_at_def sample_target_def apply_pending_def
      service_start_def manager_start_def store_begin_def auto_request_def clear_def fold_posts new_job_def
      split: prod.split)

lemma sample_finished:
  "\<exists>sv. service_reachable w l sv \<and> finished_jobs (se_store sv) \<noteq> {}"
proof -
  have r: "service_reachable w l (sample_started w l)"
    unfolding sample_started_def
    by (rule service_reachable.step [OF service_reachable.init service_step.round])
      (simp add: fresh_id_def service_init_def new_store_def)
  obtain j where j: "s_heap (se_store (sample_started w l)) 0 = Some j" "\<not> terminal (j_state j)"
    using sample_started_job [of w l] by auto
  have inv: "store_inv (se_store (sample_started w l))"
    using store_reachable_inv service_store_reachable r by blast
  let ?res = "Inr (StateSucceeded, [])"
  have t: "terminal (fst (run_result ?res))" by (simp add: run_result_def)
  obtain as st' where d: "manager_done (wired_manager w (sample_started w l)) 5 0 ?res (se_store (sample_started w l))
      = Some (as, st')"
    using manager_done_actions [OF inv j] by blast
  then have "service_done w 5 0 ?res (sample_started w l)
      = Some ((sample_started w l)\<lparr>se_store := st', se_tails := se_tails (sample_started w l) @ [as]\<rparr>)"
    by (simp add: service_done_def)
  from service_reachable.step [OF r service_step.complete [OF j t this]] done_finished [OF d j t inv]
  show ?thesis by (metis insert_not_empty service.select_convs(1) service.surjective service.update_convs(1,6))
qed

end
