(* ===== verification/Credfile.thy ===== *)
theory Credfile
  imports Path_Audit Safe_Install
begin

text \<open>
  The file half of \<open>internal/dockercfg\<close>: \<open>Read\<close>, \<open>marshal\<close>, \<open>Write\<close>, \<open>EnsureBase\<close> and
  \<open>Delete\<close> on a disk of directories and files with their modes, where every system call may
  fail.  \<open>encoding/json\<close> is the record \<open>cred_codec\<close>; \<open>codec_ok\<close> states what its documentation
  says of raw messages.
\<close>

section \<open>The disk and its faults\<close>

record cred_disk =
  cd_dirs :: "string \<Rightarrow> 32 word option"
  cd_files :: "string \<Rightarrow> (32 word \<times> string) option"

datatype sys =
    SysMkdir string | SysChmod string | SysCreateTemp | SysWrite | SysSync | SysClose
  | SysRename | SysRemove string | SysRead

text \<open>
  Which calls fail; how many directories a failing \<open>MkdirAll\<close> and how many bytes a failing
  \<open>Write\<close> leave behind; the process's umask; the random numbers of \<open>os.CreateTemp\<close>.
\<close>

record sys_world =
  sw_fails :: "sys \<Rightarrow> bool"
  sw_made :: nat
  sw_written :: nat
  sw_umask :: "32 word"
  sw_random :: "nat list"

definition dir_mode :: "32 word" where "dir_mode = 0x1C0"
definition file_mode :: "32 word" where "file_mode = 0x180"

definition put_dirs :: "string list \<Rightarrow> 32 word \<Rightarrow> cred_disk \<Rightarrow> cred_disk" where
  "put_dirs ps m d = d\<lparr>cd_dirs := (\<lambda>q. if q \<in> set ps then Some m else cd_dirs d q)\<rparr>"

definition put_cred_file :: "string \<Rightarrow> (32 word \<times> string) option \<Rightarrow> cred_disk \<Rightarrow> cred_disk" where
  "put_cred_file p f d = d\<lparr>cd_files := (cd_files d)(p := f)\<rparr>"

text \<open>\<open>os.MkdirAll\<close>, from the root down.\<close>

definition mkdir_all :: "sys_world \<Rightarrow> string \<Rightarrow> cred_disk \<Rightarrow> bool \<times> cred_disk" where
  "mkdir_all w p d =
     (let chain = rev (with_ancestors p);
          missing = [q \<leftarrow> chain. cd_dirs d q = None];
          mode = and dir_mode (not (sw_umask w))
      in if list_ex (\<lambda>q. cd_files d q \<noteq> None) chain then (False, d)
         else if sw_fails w (SysMkdir p) then (False, put_dirs (take (sw_made w) missing) mode d)
         else (True, put_dirs missing mode d))"

definition chmod_dir :: "sys_world \<Rightarrow> string \<Rightarrow> cred_disk \<Rightarrow> bool \<times> cred_disk" where
  "chmod_dir w p d =
     (if sw_fails w (SysChmod p) \<or> cd_dirs d (clean p) = None then (False, d)
      else (True, put_dirs [clean p] dir_mode d))"

section \<open>Writing\<close>

datatype store_error =
    RelativeStore string | BadBase dir_error | CreateStore string | ChmodStore string
  | MarshalFailed | TempFailed | ChmodTemp | WriteFailed | SyncFailed | CloseFailed | InstallFailed
  | ReadFailed | ParseFailed | RemoveFailed

definition ensure_base :: "sys_world \<Rightarrow> string \<Rightarrow> cred_disk \<Rightarrow> store_error option \<times> cred_disk" where
  "ensure_base w b d =
     (case valid_base b of
        Some e \<Rightarrow> (Some (BadBase e), d)
      | None \<Rightarrow>
     (case mkdir_all w b d of
        (False, d1) \<Rightarrow> (Some (CreateStore b), d1)
      | (True, d1) \<Rightarrow>
     (case chmod_dir w b d1 of
        (False, d2) \<Rightarrow> (Some (ChmodStore b), d2)
      | (True, d2) \<Rightarrow> (None, d2))))"

record cred_codec =
  cc_marshal_auths :: "(string \<times> (string \<times> raw_json) list) list \<Rightarrow> raw_json option"
  cc_marshal :: "(string \<times> raw_json) list \<Rightarrow> string option"
  cc_fields :: "string \<Rightarrow> (string \<times> raw_json) list option"
  cc_auths :: "raw_json \<Rightarrow> (string \<times> (string \<times> raw_json) list) list option option"
  cc_indent :: "raw_json \<Rightarrow> raw_json"

definition marshal :: "cred_codec \<Rightarrow> docker_config \<Rightarrow> string option" where
  "marshal k c =
     (case cc_marshal_auths k (d_auths c) of
        None \<Rightarrow> None
      | Some auths \<Rightarrow>
          (case cc_marshal k (al_put ''auths'' auths (d_fields c)) of
             None \<Rightarrow> None
           | Some b \<Rightarrow> Some (b @ [chr 10])))"

text \<open>\<open>os.CreateTemp\<close> in a directory: the first random name that is not taken.\<close>

definition temp_path :: "string \<Rightarrow> nat \<Rightarrow> string" where
  "temp_path p n =
     (if has_suffix p [slash] then p else p @ [slash]) @ ''.config.json.'' @ nat_digits n"

definition create_temp :: "sys_world \<Rightarrow> string \<Rightarrow> cred_disk \<Rightarrow> (string \<times> cred_disk) option" where
  "create_temp w p d =
     (if sw_fails w SysCreateTemp then None
      else (case find (\<lambda>n. cd_files d (temp_path p n) = None \<and> cd_dirs d (temp_path p n) = None)
                   (sw_random w) of
              None \<Rightarrow> None
            | Some n \<Rightarrow>
                Some (temp_path p n,
                  put_cred_file (temp_path p n) (Some (and file_mode (not (sw_umask w)), [])) d)))"

text \<open>From the open temporary file to the rename.\<close>

definition install :: "sys_world \<Rightarrow> string \<Rightarrow> string \<Rightarrow> string \<Rightarrow> cred_disk \<Rightarrow> store_error option \<times> cred_disk" where
  "install w p name body d =
     (if sw_fails w (SysChmod name) then (Some ChmodTemp, d)
      else let d1 = put_cred_file name (Some (file_mode, [])) d
      in if sw_fails w SysWrite
         then (Some WriteFailed, put_cred_file name (Some (file_mode, take (sw_written w) body)) d1)
      else let d2 = put_cred_file name (Some (file_mode, body)) d1
      in if sw_fails w SysSync then (Some SyncFailed, d2)
      else if sw_fails w SysClose then (Some CloseFailed, d2)
      else if sw_fails w SysRename \<or> cd_dirs d2 (config_path p) \<noteq> None then (Some InstallFailed, d2)
      else (None, put_cred_file name None (put_cred_file (config_path p) (Some (file_mode, body)) d2)))"

definition remove_temp :: "sys_world \<Rightarrow> string \<Rightarrow> cred_disk \<Rightarrow> cred_disk" where
  "remove_temp w name d = (if sw_fails w (SysRemove name) then d else put_cred_file name None d)"

definition write_marshalled :: "sys_world \<Rightarrow> string \<Rightarrow> string option \<Rightarrow> cred_disk \<Rightarrow> store_error option \<times> cred_disk" where
  "write_marshalled w p body d =
     (case body of
        None \<Rightarrow> (Some MarshalFailed, d)
      | Some b \<Rightarrow>
          (case create_temp w p d of
             None \<Rightarrow> (Some TempFailed, d)
           | Some (name, d1) \<Rightarrow>
               (case install w p name b d1 of (e, d2) \<Rightarrow> (e, remove_temp w name d2))))"

definition write_store ::
  "sys_world \<Rightarrow> cred_codec \<Rightarrow> docker_config \<Rightarrow> string \<Rightarrow> cred_disk \<Rightarrow> store_error option \<times> cred_disk" where
  "write_store w k c p d =
     (if \<not> is_abs p then (Some (RelativeStore p), d)
      else (case ensure_base w (dir p) d of
        (Some e, d1) \<Rightarrow> (Some e, d1)
      | (None, d1) \<Rightarrow>
     (case mkdir_all w p d1 of
        (False, d2) \<Rightarrow> (Some (CreateStore p), d2)
      | (True, d2) \<Rightarrow>
     (case chmod_dir w p d2 of
        (False, d3) \<Rightarrow> (Some (ChmodStore p), d3)
      | (True, d3) \<Rightarrow> write_marshalled w p (marshal k c) d3))))"

section \<open>Reading and deleting\<close>

definition parse_store :: "cred_codec \<Rightarrow> string \<Rightarrow> store_error + docker_config" where
  "parse_store k raw =
     (if trim_space raw = [] then Inr new_docker_config
      else (case cc_fields k raw of
              None \<Rightarrow> Inl ParseFailed
            | Some fs \<Rightarrow>
                (case map_of fs ''auths'' of
                   None \<Rightarrow> Inr \<lparr>d_fields = fs, d_auths = []\<rparr>
                 | Some auths \<Rightarrow>
                     (case cc_auths k auths of
                        None \<Rightarrow> Inl ParseFailed
                      | Some decoded \<Rightarrow>
                          Inr \<lparr>d_fields = al_del ''auths'' fs,
                               d_auths = (case decoded of None \<Rightarrow> [] | Some a \<Rightarrow> a)\<rparr>))))"

definition read_store :: "sys_world \<Rightarrow> cred_codec \<Rightarrow> string \<Rightarrow> cred_disk \<Rightarrow> store_error + docker_config" where
  "read_store w k p d =
     (case cd_files d (config_path p) of
        None \<Rightarrow> if cd_dirs d (config_path p) = None then Inr new_docker_config else Inl ReadFailed
      | Some (m, raw) \<Rightarrow> if sw_fails w SysRead then Inl ReadFailed else parse_store k raw)"

text \<open>An empty directory of that name is removed too, as \<open>os.Remove\<close> does.\<close>

definition delete_store :: "sys_world \<Rightarrow> string \<Rightarrow> cred_disk \<Rightarrow> store_error option \<times> cred_disk" where
  "delete_store w p d =
     (if cd_files d (config_path p) = None \<and> cd_dirs d (config_path p) = None then (None, d)
      else if sw_fails w (SysRemove (config_path p)) then (Some RemoveFailed, d)
      else (None, put_cred_file (config_path p) None
                    (d\<lparr>cd_dirs := (cd_dirs d)(config_path p := None)\<rparr>)))"

section \<open>Atomicity\<close>

lemma put_cred_file_simps [simp]:
  "cd_files (put_cred_file p f d) = (cd_files d)(p := f)" "cd_dirs (put_cred_file p f d) = cd_dirs d"
  by (simp_all add: put_cred_file_def)

lemma put_dirs_simps [simp]:
  "cd_files (put_dirs ps m d) = cd_files d"
  "cd_dirs (put_dirs ps m d) q = (if q \<in> set ps then Some m else cd_dirs d q)"
  by (simp_all add: put_dirs_def)

lemma mkdir_all_files: "mkdir_all w p d = (b, d') \<Longrightarrow> cd_files d' = cd_files d"
  by (auto simp: mkdir_all_def Let_def split: if_splits)

lemma mkdir_all_dirs:
  "mkdir_all w p d = (b, d') \<Longrightarrow> cd_dirs d q = Some m \<Longrightarrow> cd_dirs d' q = Some m"
  by (auto simp: mkdir_all_def Let_def split: if_splits dest!: in_set_takeD)

lemma chmod_dir_files: "chmod_dir w p d = (b, d') \<Longrightarrow> cd_files d' = cd_files d"
  by (auto simp: chmod_dir_def split: if_splits)

lemma chmod_dir_mode: "chmod_dir w p d = (True, d') \<Longrightarrow> cd_dirs d' (clean p) = Some dir_mode"
  by (auto simp: chmod_dir_def split: if_splits)

lemma chmod_dir_keeps:
  "chmod_dir w p d = (b, d') \<Longrightarrow> cd_dirs d q = Some dir_mode \<Longrightarrow> cd_dirs d' q = Some dir_mode"
  by (auto simp: chmod_dir_def split: if_splits)

lemma ensure_base_result:
  assumes "ensure_base w b d = (e, d')"
  shows "cd_files d' = cd_files d" and "e = None \<Longrightarrow> cd_dirs d' (clean b) = Some dir_mode"
proof -
  obtain ok1 d1 where m: "mkdir_all w b d = (ok1, d1)" by fastforce
  obtain ok2 d2 where c: "chmod_dir w b d1 = (ok2, d2)" by fastforce
  show "cd_files d' = cd_files d"
    using assms mkdir_all_files [OF m] chmod_dir_files [OF c]
    by (auto simp: ensure_base_def m c split: option.splits bool.splits)
  show "e = None \<Longrightarrow> cd_dirs d' (clean b) = Some dir_mode"
    using assms c chmod_dir_mode [of w b d1]
    by (auto simp: ensure_base_def m c split: option.splits bool.splits)
qed

lemma private_mode [simp]: "and (and file_mode m) 63 = 0" "and file_mode 63 = 0"
proof -
  have "and (and file_mode m) 63 = and (and file_mode 63) m" by (simp only: ac_simps)
  then show "and (and file_mode m) 63 = 0" "and file_mode 63 = 0" by (simp_all add: file_mode_def)
qed

definition private_file :: "cred_disk \<Rightarrow> string \<Rightarrow> bool" where
  "private_file d q = (case cd_files d q of None \<Rightarrow> True | Some (m, s) \<Rightarrow> and m 63 = 0)"

lemma create_temp_result:
  "create_temp w p d = Some (name, d1) \<Longrightarrow>
   (\<exists>n. name = temp_path p n) \<and> cd_files d name = None \<and> cd_dirs d1 = cd_dirs d
   \<and> cd_files d1 = (cd_files d)(name \<mapsto> (and file_mode (not (sw_umask w)), []))"
  by (auto simp: create_temp_def find_Some_iff split: if_splits option.splits)

lemma install_result:
  assumes "install w p name body d = (e, d')"
  shows "cd_dirs d' = cd_dirs d"
    and "e = None \<Longrightarrow> cd_files d' = ((cd_files d)(config_path p \<mapsto> (file_mode, body)))(name := None)"
    and "e \<noteq> None \<Longrightarrow> q \<noteq> name \<Longrightarrow> cd_files d' q = cd_files d q"
    and "private_file d name \<Longrightarrow> private_file d' name"
  using assms by (auto simp: install_def private_file_def Let_def split: if_splits)

text \<open>The temporary file is another one than \<open>config.json\<close>.\<close>

lemma temp_path_other:
  assumes "list_all normal cs" and "cs \<noteq> []"
  shows "temp_path (abs_path cs) n \<noteq> config_path (abs_path cs)"
proof -
  have "normal ''config.json''" by (simp add: normal_def)
  then have c: "config_path (abs_path cs) = abs_path cs @ slash # ''config.json''"
    using assms by (simp add: config_path_def abs_path_snoc)
  have "last (abs_path cs) \<noteq> slash"
  proof -
    obtain ys y where cs: "cs = ys @ [y]" using assms(2) by (cases cs rule: rev_cases) auto
    then have "y \<noteq> []" "slash \<notin> set y" using assms(1) by (auto simp: normal_def)
    then show ?thesis using cs by (cases y rule: rev_cases) (auto simp: abs_path_snoc)
  qed
  then have "\<not> has_suffix (abs_path cs) [slash]" by (auto simp: has_suffix_iff)
  then show ?thesis unfolding c temp_path_def by simp
qed

lemma write_marshalled_result:
  assumes "write_marshalled w p body d = (e, d')" and "\<And>n. temp_path p n \<noteq> config_path p"
  shows "cd_dirs d' = cd_dirs d"
    and "e \<noteq> None \<Longrightarrow> cd_files d' (config_path p) = cd_files d (config_path p)"
    and "e = None \<Longrightarrow> \<exists>b. body = Some b \<and> cd_files d' (config_path p) = Some (file_mode, b)"
    and "q \<noteq> config_path p \<Longrightarrow> cd_files d' q = cd_files d q \<or> (sw_fails w (SysRemove q) \<and> private_file d' q)"
proof -
  have "cd_dirs d' = cd_dirs d
    \<and> (e \<noteq> None \<longrightarrow> cd_files d' (config_path p) = cd_files d (config_path p))
    \<and> (e = None \<longrightarrow> (\<exists>b. body = Some b \<and> cd_files d' (config_path p) = Some (file_mode, b)))
    \<and> (q \<noteq> config_path p \<longrightarrow>
        cd_files d' q = cd_files d q \<or> (sw_fails w (SysRemove q) \<and> private_file d' q))"
  proof (cases "body = None \<or> create_temp w p d = None")
    case True
    then show ?thesis using assms(1) by (auto simp: write_marshalled_def split: option.splits)
  next
    case False
    then obtain b name d1 d2 where b: "body = Some b" and t: "create_temp w p d = Some (name, d1)"
      and i: "install w p name b d1 = (e, d2)" and d': "d' = remove_temp w name d2"
      using assms(1) by (auto simp: write_marshalled_def split: prod.splits)
    note temp = create_temp_result [OF t]
    have other: "name \<noteq> config_path p" using temp assms(2) by auto
    have "private_file d1 name" using temp by (simp add: private_file_def)
    with install_result(4) [OF i] have p: "private_file d2 name" .
    have dirs: "cd_dirs d' = cd_dirs d"
      using install_result(1) [OF i] temp by (simp add: d' remove_temp_def)
    have old: "cd_files d2 r = cd_files d r" if "r \<noteq> name" "r \<noteq> config_path p \<or> e \<noteq> None" for r
      using that temp install_result(2,3) [OF i] by (cases "e = None") auto
    have new: "cd_files d2 (config_path p) = Some (file_mode, b)" if "e = None"
      using that install_result(2) [OF i] other by simp
    show ?thesis
      using dirs old new other p temp b by (auto simp: d' remove_temp_def private_file_def)
  qed
  then show "cd_dirs d' = cd_dirs d"
    "e \<noteq> None \<Longrightarrow> cd_files d' (config_path p) = cd_files d (config_path p)"
    "e = None \<Longrightarrow> \<exists>b. body = Some b \<and> cd_files d' (config_path p) = Some (file_mode, b)"
    "q \<noteq> config_path p \<Longrightarrow> cd_files d' q = cd_files d q \<or> (sw_fails w (SysRemove q) \<and> private_file d' q)"
    by auto
qed

lemma write_store_steps:
  assumes "write_store w k c p d = (e, d')" and "is_abs p"
  obtains d0 where "cd_files d0 = cd_files d" "e \<noteq> None" "d' = d0"
  | d0 where "cd_files d0 = cd_files d" "cd_dirs d0 (clean (dir p)) = Some dir_mode"
      "cd_dirs d0 (clean p) = Some dir_mode" "write_marshalled w p (marshal k c) d0 = (e, d')"
proof -
  obtain e1 d1 where b: "ensure_base w (dir p) d = (e1, d1)" by fastforce
  obtain ok2 d2 where m: "mkdir_all w p d1 = (ok2, d2)" by fastforce
  obtain ok3 d3 where c: "chmod_dir w p d2 = (ok3, d3)" by fastforce
  have f1: "cd_files d1 = cd_files d" using ensure_base_result [OF b] by simp
  have f2: "cd_files d2 = cd_files d" using mkdir_all_files [OF m] f1 by simp
  have f3: "cd_files d3 = cd_files d" using chmod_dir_files [OF c] f2 by simp
  consider "e1 \<noteq> None" | "e1 = None" "\<not> ok2" | "e1 = None" "ok2" "\<not> ok3" | "e1 = None" "ok2" "ok3"
    by blast
  then show ?thesis
  proof cases
    case 4
    have "cd_dirs d1 (clean (dir p)) = Some dir_mode" using ensure_base_result [OF b] 4 by simp
    then have "cd_dirs d3 (clean (dir p)) = Some dir_mode"
      using mkdir_all_dirs [OF m] chmod_dir_keeps [OF c] by blast
    moreover have "cd_dirs d3 (clean p) = Some dir_mode" using chmod_dir_mode c 4 by simp
    moreover have "write_marshalled w p (marshal k c) d3 = (e, d')"
      using assms b m c 4 by (simp add: write_store_def)
    ultimately show ?thesis using that(2) f3 by blast
  qed (use assms b m c f1 f2 f3 that(1) in \<open>auto simp: write_store_def\<close>)
qed

lemma credential_write_result:
  assumes "store_dir b stack = Inr p" and "write_store w k c p d = (None, d')"
  shows "\<exists>body. marshal k c = Some body \<and> cd_files d' (config_path p) = Some (file_mode, body)"
proof -
  obtain cs where cs: "list_all normal (cs @ [stack])" and p: "p = abs_path (cs @ [stack])"
    using store_dir_inside [OF assms(1)] by metis
  have other: "temp_path p m \<noteq> config_path p" for m
    unfolding p using temp_path_other [OF cs(1)] by simp
  have "is_abs p" by (simp add: p)
  from write_store_steps [OF assms(2) this] show ?thesis
  proof cases
    case (2 d0)
    from write_marshalled_result(3) [OF 2(4) other] show ?thesis by simp
  qed simp
qed

lemma write_store_file:
  assumes "store_dir b stack = Inr p" and "write_store s k c p d = (e, d')"
  shows "e \<noteq> None \<Longrightarrow> cd_files d' (config_path p) = cd_files d (config_path p)"
    and "e = None \<Longrightarrow> \<exists>body. marshal k c = Some body \<and> cd_files d' (config_path p) = Some (file_mode, body)"
proof -
  obtain cs where cs: "list_all normal (cs @ [stack])" and p: "p = abs_path (cs @ [stack])"
    using store_dir_inside [OF assms(1)] by metis
  have other: "temp_path p m \<noteq> config_path p" for m
    unfolding p using temp_path_other [OF cs] by simp
  have "is_abs p" by (simp add: p)
  from write_store_steps [OF assms(2) this] show "e \<noteq> None \<Longrightarrow> cd_files d' (config_path p) = cd_files d (config_path p)"
  proof cases
    case (2 d0)
    then show "e \<noteq> None \<Longrightarrow> ?thesis" using write_marshalled_result(2) [OF 2(4) other] by simp
  qed simp
  show "e = None \<Longrightarrow> \<exists>body. marshal k c = Some body \<and> cd_files d' (config_path p) = Some (file_mode, body)"
    using credential_write_result [OF assms(1)] assms(2) by blast
qed

text \<open>The store of a stack is installed safely: a reader finds an old text or a whole new one.\<close>

definition store_put ::
  "sys_world \<Rightarrow> cred_codec \<Rightarrow> string \<Rightarrow> string \<Rightarrow> docker_config \<Rightarrow> cred_disk \<Rightarrow> bool \<times> cred_disk" where
  "store_put w k b stack c d =
     (case store_dir b stack of
        Inl e \<Rightarrow> (False, d)
      | Inr p \<Rightarrow> (case write_store w k c p d of (e, d') \<Rightarrow> (e = None, d')))"

definition store_text :: "string \<Rightarrow> string \<Rightarrow> cred_disk \<Rightarrow> (32 word \<times> string) option" where
  "store_text b stack d =
     (case store_dir b stack of Inl e \<Rightarrow> None | Inr p \<Rightarrow> cd_files d (config_path p))"

interpretation store_file: safe_install "store_put w k b stack" "store_text b stack"
    "\<lambda>c. (file_mode, the (marshal k c))" for w k b stack
  by unfold_locales
    (auto simp: store_put_def store_text_def dest: write_store_file split: sum.splits prod.splits)

section \<open>Reading back what was written\<close>

text \<open>A raw field of an entry, and the keys JSON writes as they are.\<close>

definition auth_view :: "(string \<times> (string \<times> raw_json) list) list \<Rightarrow> string \<Rightarrow> string \<Rightarrow> raw_json option" where
  "auth_view a h key = Option.bind (map_of a h) (\<lambda>e. map_of e key)"

definition plain_keys :: "docker_config \<Rightarrow> bool" where
  "plain_keys c \<longleftrightarrow> list_all (list_all json_plain \<circ> fst) (d_fields c)
     \<and> list_all (\<lambda>(h, e). list_all json_plain h \<and> list_all (list_all json_plain \<circ> fst) e) (d_auths c)"

text \<open>
  What the documentation of \<open>encoding/json\<close> says: an object of raw messages is decoded to the
  same keys, its messages indented anew, and indentation does not change a message's meaning.
\<close>

definition codec_ok :: "cred_codec \<Rightarrow> (raw_json \<Rightarrow> string option) \<Rightarrow> bool" where
  "codec_ok k unjson \<longleftrightarrow>
     (\<forall>c r s. plain_keys c \<and> cc_marshal_auths k (d_auths c) = Some r
        \<and> cc_marshal k (al_put ''auths'' r (d_fields c)) = Some s \<longrightarrow>
        trim_space (s @ [chr 10]) \<noteq> []
        \<and> (\<exists>fs a. cc_fields k (s @ [chr 10]) = Some fs
            \<and> (\<forall>key. map_of fs key = map_option (cc_indent k) (map_of (al_put ''auths'' r (d_fields c)) key))
            \<and> cc_auths k (cc_indent k r) = Some (Some a)
            \<and> (\<forall>h. map_of a h = None \<longleftrightarrow> map_of (d_auths c) h = None)
            \<and> (\<forall>h key. auth_view a h key = map_option (cc_indent k) (auth_view (d_auths c) h key))))
     \<and> (\<forall>v. unjson (cc_indent k v) = unjson v)"

lemma username_auth_view:
  "username unjson c h =
     (case Option.bind (auth_view (d_auths c) h ''auth'') unjson of
        None \<Rightarrow> None
      | Some encoded \<Rightarrow>
          (case b64_decode encoded of
             None \<Rightarrow> None
           | Some decoded \<Rightarrow>
               (case cut (CHR '':'') decoded of (user, _, ok) \<Rightarrow> if ok then Some user else None)))"
  by (auto simp: username_def auth_view_def split: option.splits)

text \<open>What was stored is found again, with every field the program does not know.\<close>

definition same_store :: "cred_codec \<Rightarrow> (raw_json \<Rightarrow> string option) \<Rightarrow> docker_config \<Rightarrow> docker_config \<Rightarrow> bool" where
  "same_store k unjson c c' \<longleftrightarrow>
     (\<forall>h. has c' h = has c h \<and> username unjson c' h = username unjson c h)
     \<and> (\<forall>key. key \<noteq> ''auths'' \<longrightarrow>
          map_of (d_fields c') key = map_option (cc_indent k) (map_of (d_fields c) key))"

lemma parse_marshal:
  assumes "codec_ok k unjson" and "plain_keys c" and "marshal k c = Some body"
  shows "\<exists>c'. parse_store k body = Inr c' \<and> same_store k unjson c c'"
proof -
  obtain r s where r: "cc_marshal_auths k (d_auths c) = Some r"
    and s: "cc_marshal k (al_put ''auths'' r (d_fields c)) = Some s" and body: "body = s @ [chr 10]"
    using assms(3) by (auto simp: marshal_def split: option.splits)
  obtain fs a where ok: "trim_space body \<noteq> []" "cc_fields k body = Some fs"
      "\<And>key. map_of fs key = map_option (cc_indent k) (map_of (al_put ''auths'' r (d_fields c)) key)"
      "cc_auths k (cc_indent k r) = Some (Some a)"
      "\<And>h. map_of a h = None \<longleftrightarrow> map_of (d_auths c) h = None"
      "\<And>h key. auth_view a h key = map_option (cc_indent k) (auth_view (d_auths c) h key)"
    and u: "\<And>v. unjson (cc_indent k v) = unjson v"
    using assms(1,2) r s unfolding codec_ok_def body by blast
  let ?c = "\<lparr>d_fields = al_del ''auths'' fs, d_auths = a\<rparr>"
  have "map_of fs ''auths'' = Some (cc_indent k r)" using ok(3) [of "''auths''"] by simp
  then have p: "parse_store k body = Inr ?c" using ok by (simp add: parse_store_def)
  have names: "username unjson ?c h = username unjson c h" for h
  proof -
    have "Option.bind (auth_view a h ''auth'') unjson = Option.bind (auth_view (d_auths c) h ''auth'') unjson"
      using ok(6) [of h "''auth''"] u by (cases "auth_view (d_auths c) h ''auth''") simp_all
    then show ?thesis by (simp add: username_auth_view)
  qed
  have "same_store k unjson c ?c"
    using ok(3,5) names by (simp add: same_store_def has_def)
  with p show ?thesis by blast
qed

lemma host_plain:
  assumes "normalise_host raw = Inr h" shows "list_all json_plain h"
proof -
  have "json_plain c" if "is_alnum c \<or> c \<in> set ''._-:''" for c
    using that by (auto simp: json_plain_def is_alnum_def is_upper_def is_lower_def is_digit_def byte_def)
  then have "list_all json_plain h" if "host_re h"
    using host_re_chars [OF that] by (auto simp: list_all_iff)
  moreover have "list_all json_plain hub_host" by (simp add: hub_host_def json_plain_def byte_def)
  ultimately show ?thesis using normalise_host_result [OF assms] by blast
qed

lemma set_al_put: "p \<in> set (al_put k v ps) \<Longrightarrow> p = (k, v) \<or> p \<in> set ps"
  by (induction ps) (auto split: if_splits)

lemma set_cred_plain_keys:
  assumes "set_cred c h u p = Inr c'" and "plain_keys c" and "list_all json_plain h"
  shows "plain_keys c'"
proof -
  define entry where "entry = (case map_of (d_auths c) h of None \<Rightarrow> [] | Some e \<Rightarrow> e)"
  define new where "new = al_del ''password'' (al_del ''username'' (al_del ''registrytoken''
    (al_del ''identitytoken'' (al_put ''auth'' (json_quote (b64_encode (u @ CHR '':'' # p))) entry))))"
  have c': "c' = c\<lparr>d_auths := al_put h new (d_auths c)\<rparr>"
    using assms(1) by (simp add: set_cred_def new_def entry_def Let_def split: if_splits)
  have old: "\<forall>q \<in> set entry. list_all json_plain (fst q)"
  proof (cases "map_of (d_auths c) h")
    case (Some e)
    with map_of_SomeD [OF Some] assms(2) show ?thesis by (auto simp: entry_def plain_keys_def list_all_iff)
  qed (simp add: entry_def)
  have auth: "list_all json_plain ''auth''" by (simp add: json_plain_def byte_def)
  have new: "\<forall>q \<in> set new. list_all json_plain (fst q)"
  proof
    fix q assume "q \<in> set new"
    then have "fst q = ''auth'' \<or> q \<in> set entry"
      unfolding new_def in_al_del using set_al_put by fastforce
    then show "list_all json_plain (fst q)" using old auth by metis
  qed
  have "\<forall>q \<in> set (al_put h new (d_auths c)). list_all json_plain (fst q)
      \<and> (\<forall>r \<in> set (snd q). list_all json_plain (fst r))"
  proof
    fix q assume "q \<in> set (al_put h new (d_auths c))"
    from set_al_put [OF this] show "list_all json_plain (fst q) \<and> (\<forall>r \<in> set (snd q). list_all json_plain (fst r))"
    proof
      assume "q = (h, new)"
      then show ?thesis using assms(3) new by simp
    next
      assume "q \<in> set (d_auths c)"
      then show ?thesis using assms(2) unfolding plain_keys_def list_all_iff by fastforce
    qed
  qed
  moreover have "list_all (list_all json_plain \<circ> fst) (d_fields c)" using assms(2) by (simp add: plain_keys_def)
  ultimately show ?thesis unfolding c' plain_keys_def list_all_iff by fastforce
qed

section \<open>A codec for one store\<close>

text \<open>An instance of \<open>codec_ok\<close> that writes and reads one store.\<close>

definition quoted :: "raw_json \<Rightarrow> string option" where
  "quoted r = (if r \<noteq> [] \<and> r = json_quote (butlast (tl r)) then Some (butlast (tl r)) else None)"

definition single_codec :: "docker_config \<Rightarrow> cred_codec" where
  "single_codec c = \<lparr>
     cc_marshal_auths = (\<lambda>a. if a = d_auths c then Some ''{auths}'' else None),
     cc_marshal = (\<lambda>fs. if fs = al_put ''auths'' ''{auths}'' (d_fields c) then Some ''{store}'' else None),
     cc_fields = (\<lambda>s. if s = ''{store}'' @ [chr 10]
                      then Some (al_put ''auths'' ''{auths}'' (d_fields c)) else None),
     cc_auths = (\<lambda>r. if r = ''{auths}'' then Some (Some (d_auths c)) else None),
     cc_indent = (\<lambda>r. r)\<rparr>"

lemma unjson_ok_quoted: "unjson_ok quoted"
  by (simp add: unjson_ok_def quoted_def json_quote_def)

lemma codec_ok_single: "codec_ok (single_codec c) unjson"
proof -
  have "trim_space (''{store}'' @ [chr 10]) \<noteq> []" by code_simp
  then show ?thesis
    by (auto simp: codec_ok_def single_codec_def option.map_ident simp del: map_of_al_put split: if_splits)
qed

definition calm_calls :: sys_world where
  "calm_calls = \<lparr>sw_fails = (\<lambda>s. False), sw_made = 0, sw_written = 0, sw_umask = 0x12, sw_random = [7]\<rparr>"

definition bare_disk :: cred_disk where
  "bare_disk = \<lparr>cd_dirs = (\<lambda>q. if q = ''/'' \<or> q = ''/etc'' then Some 0x1ED else None), cd_files = (\<lambda>q. None)\<rparr>"

definition sample_store :: docker_config where
  "sample_store = \<lparr>d_fields = [], d_auths = [(''r.example'', [(''auth'', json_quote (b64_encode ''u:p''))])]\<rparr>"

lemma sample_paths:
  "store_dir ''/etc/dup'' ''web'' = Inr ''/etc/dup/web''"
  "with_ancestors ''/etc/dup/web'' = [''/etc/dup/web'', ''/etc/dup'', ''/etc'', ''/'']"
  "with_ancestors ''/etc/dup'' = [''/etc/dup'', ''/etc'', ''/'']"
  "clean ''/etc/dup/web'' = ''/etc/dup/web''" "clean ''/etc/dup'' = ''/etc/dup''"
  "dir ''/etc/dup/web'' = ''/etc/dup''" "is_abs ''/etc/dup/web''" "valid_base ''/etc/dup'' = None"
  "temp_path ''/etc/dup/web'' 7 = ''/etc/dup/web/.config.json.7''"
  "config_path ''/etc/dup/web'' = ''/etc/dup/web/config.json''"
  by code_simp+

lemma sample_write:
  "fst (write_store calm_calls (single_codec sample_store) sample_store ''/etc/dup/web'' bare_disk) = None"
  by (simp add: write_store_def ensure_base_def mkdir_all_def chmod_dir_def write_marshalled_def create_temp_def
      install_def marshal_def sample_paths calm_calls_def bare_disk_def single_codec_def sample_store_def Let_def)

lemma sample_host: "normalise_host ''r.example'' = Inr ''r.example''"
proof -
  have t: "trim_space ''r.example'' = ''r.example''"
    by (intro trim_space_prefix(2)) (simp_all add: byte_def is_space_def)
  have l: "to_lower ''r.example'' = ''r.example''"
    by (simp add: to_lower_def utf8_chunks_ascii lower_chunk_def byte_def)
  have x: "trim_suffix (trim_prefix (trim_prefix ''r.example'' ''https://'') ''http://'') ''/'' = ''r.example''"
    by code_simp
  have "host_re ''r.example''" by code_simp
  then show ?thesis unfolding normalise_host_def t x Let_def l by simp
qed

end
