(* ===== verification/Registry.thy ===== *)
theory Registry
  imports Dockercfg Go_Order
begin

text \<open>
  \<open>internal/registry\<close>: does a registry take a user name and a password?

  A run is the list of the requests sent, each with the credentials it carried, and a verdict.
  What the other side answers is a function of the requests sent so far (\<open>wb_send\<close>); URL
  parsing and JSON decoding are fields of the same record \<open>web\<close>.  Following redirects is the
  behaviour of \<open>net/http\<close> with the client's \<open>CheckRedirect\<close>.
\<close>

section \<open>The outside\<close>

record reg_url =
  ru_scheme :: string
  ru_host :: string
  ru_path :: string
  ru_query :: "(string \<times> string) list"

record reg_request =
  rq_url :: reg_url
  rq_auth :: "(string \<times> string) option"

record reg_response =
  rs_status :: nat
  rs_challenge :: string
  rs_location :: string
  rs_body :: string

text \<open>\<open>wb_hostname\<close> is a host without its port; \<open>wb_token\<close> decodes the two token fields.\<close>

record web =
  wb_send :: "reg_request list \<Rightarrow> reg_request \<Rightarrow> reg_response option"
  wb_parse :: "string \<Rightarrow> reg_url option"
  wb_render :: "reg_url \<Rightarrow> string"
  wb_location :: "reg_url \<Rightarrow> string \<Rightarrow> reg_url option"
  wb_hostname :: "string \<Rightarrow> string"
  wb_token :: "string \<Rightarrow> (string \<times> string) option"

datatype unreachable =
    Transport | WrongStatus nat | UnsupportedScheme string | BadRealm string | NotAToken | NoToken

datatype verify_error = NoRegistry | MissingLogin | BadRequestUrl | Unreachable unreachable | Rejected

definition redirect_limit :: nat where "redirect_limit = 3"

definition clip_text :: "string \<Rightarrow> string" where
  "clip_text s = (if 64 < length s then take 64 s @ ''...'' else s)"

section \<open>The challenge\<close>

text \<open>\<open>splitParams\<close>: commas inside quotes do not separate.  Writing a rune mends an invalid byte.\<close>

definition write_rune :: "nat \<times> string \<Rightarrow> string" where
  "write_rune p = (if fst p = 65533 then ufffd else snd p)"

fun split_params_loop :: "(nat \<times> string) list \<Rightarrow> string list \<Rightarrow> string \<Rightarrow> bool \<Rightarrow> string list" where
  "split_params_loop [] out buf quoted = (if trim_space buf \<noteq> [] then out @ [buf] else out)"
| "split_params_loop (r # rs) out buf quoted =
     (if fst r = 34 then split_params_loop rs out (buf @ write_rune r) (\<not> quoted)
      else if fst r = 44 \<and> \<not> quoted then split_params_loop rs (out @ [buf]) [] quoted
      else split_params_loop rs out (buf @ write_rune r) quoted)"

definition split_params :: "string \<Rightarrow> string list" where
  "split_params s = split_params_loop (utf8_chunks s) [] [] False"

definition dquote :: char where "dquote = CHR 0x22"

fun read_params :: "string list \<Rightarrow> (string \<times> string) list \<Rightarrow> (string \<times> string) list" where
  "read_params [] params = params"
| "read_params (part # parts) params =
     (case cut (CHR ''='') part of
        (key, value, ok) \<Rightarrow>
          read_params parts
            (if ok then al_put (to_lower (trim_space key))
                          (trim_left {dquote} (trim_right {dquote} (trim_space value))) params
             else params))"

definition parse_challenge :: "string \<Rightarrow> string \<times> (string \<times> string) list" where
  "parse_challenge header =
     (let h = trim_space header
      in if h = [] then ([], [])
         else (case cut (CHR '' '') h of
                 (scheme, rest, _) \<Rightarrow> (scheme, read_params (split_params rest) [])))"

definition param_value :: "(string \<times> string) list \<Rightarrow> string \<Rightarrow> string" where
  "param_value ps k = (case map_of ps k of None \<Rightarrow> [] | Some v \<Rightarrow> v)"

section \<open>Sending\<close>

definition is_redirect :: "reg_response \<Rightarrow> bool" where
  "is_redirect r \<longleftrightarrow> rs_status r \<in> {301, 302, 303, 307, 308} \<and> rs_location r \<noteq> []"

text \<open>
  \<open>net/http\<close> sends the credentials of the first request on to its own host and to that host's
  subdomains, whatever the scheme and the port.
\<close>

definition keeps_auth :: "web \<Rightarrow> reg_url \<Rightarrow> reg_url \<Rightarrow> bool" where
  "keeps_auth w initial dest =
     (let i = wb_hostname w (ru_host initial); d = wb_hostname w (ru_host dest)
      in d = i \<or> (CHR '':'' \<notin> set d \<and> CHR ''%'' \<notin> set d \<and> has_suffix d (CHR ''.'' # i)))"

definition check_redirect :: "string \<Rightarrow> reg_url \<Rightarrow> reg_request list \<Rightarrow> bool" where
  "check_redirect host u via \<longleftrightarrow> length via < redirect_limit \<and> ru_host u = host"

text \<open>\<open>http.Client.Do\<close>: the requests sent, and the final answer.\<close>

function follow ::
  "web \<Rightarrow> string \<Rightarrow> reg_request list \<Rightarrow> reg_request list \<Rightarrow> reg_request \<Rightarrow>
   reg_request list \<times> (verify_error + reg_response)" where
  "follow w host via sent req =
     (case wb_send w sent req of
        None \<Rightarrow> (sent @ [req], Inl (Unreachable Transport))
      | Some resp \<Rightarrow>
          if \<not> is_redirect resp then (sent @ [req], Inr resp)
          else (case wb_location w (rq_url req) (rs_location resp) of
                  None \<Rightarrow> (sent @ [req], Inl (Unreachable Transport))
                | Some u \<Rightarrow>
                    if \<not> check_redirect host u (via @ [req])
                    then (sent @ [req], Inl (Unreachable Transport))
                    else (let first = hd (via @ [req])
                          in follow w host (via @ [req]) (sent @ [req])
                               \<lparr>rq_url = u,
                                rq_auth = (if keeps_auth w (rq_url first) u then rq_auth first else None)\<rparr>)))"
  by pat_completeness auto
termination
  by (relation "measure (\<lambda>(w, host, via, sent, req). redirect_limit - length via)")
    (auto simp: check_redirect_def)

declare follow.simps [simp del]

definition reg_get ::
  "web \<Rightarrow> string \<Rightarrow> string \<Rightarrow> string \<Rightarrow> string \<Rightarrow> reg_request list \<Rightarrow>
   reg_request list \<times> (verify_error + reg_response)" where
  "reg_get w raw host user password sent =
     (case wb_parse w raw of
        None \<Rightarrow> (sent, Inl BadRequestUrl)
      | Some u \<Rightarrow>
          follow w host [] sent
            \<lparr>rq_url = u, rq_auth = (if user \<noteq> [] then Some (user, password) else None)\<rparr>)"

section \<open>The verdict\<close>

definition set_param :: "string \<Rightarrow> string \<Rightarrow> (string \<times> string) list \<Rightarrow> (string \<times> string) list" where
  "set_param k v q = (if v \<noteq> [] then al_put k v (al_del k q) else q)"

definition token_verdict :: "web \<Rightarrow> reg_response \<Rightarrow> verify_error option" where
  "token_verdict w resp =
     (if rs_status resp = 200 then
        (case wb_token w (take 1048576 (rs_body resp)) of
           None \<Rightarrow> Some (Unreachable NotAToken)
         | Some (tok, access) \<Rightarrow>
             if tok = [] \<and> access = [] then Some (Unreachable NoToken) else None)
      else if rs_status resp = 401 \<or> rs_status resp = 403 then Some Rejected
      else Some (Unreachable (WrongStatus (rs_status resp))))"

definition request_token ::
  "web \<Rightarrow> (string \<times> string) list \<Rightarrow> string \<Rightarrow> string \<Rightarrow> reg_request list \<Rightarrow>
   reg_request list \<times> verify_error option" where
  "request_token w params user password sent =
     (let realm = param_value params ''realm''; refuse = (sent, Some (Unreachable (BadRealm (clip_text realm))))
      in case wb_parse w realm of
           None \<Rightarrow> refuse
         | Some u \<Rightarrow>
             if ru_scheme u \<noteq> ''https'' \<or> ru_host u = [] then refuse
             else
               (let u' = u\<lparr>ru_query := set_param ''scope'' (param_value params ''scope'')
                             (set_param ''service'' (param_value params ''service'') (ru_query u))\<rparr>
                in case reg_get w (wb_render w u') (ru_host u) user password sent of
                     (sent', Inl e) \<Rightarrow> (sent', Some e)
                   | (sent', Inr resp) \<Rightarrow> (sent', token_verdict w resp)))"

definition basic_verdict :: "reg_response \<Rightarrow> verify_error option" where
  "basic_verdict resp =
     (if rs_status resp = 200 then None
      else if rs_status resp = 401 \<or> rs_status resp = 403 then Some Rejected
      else Some (Unreachable (WrongStatus (rs_status resp))))"

definition try_basic ::
  "web \<Rightarrow> string \<Rightarrow> string \<Rightarrow> string \<Rightarrow> string \<Rightarrow> reg_request list \<Rightarrow>
   reg_request list \<times> verify_error option" where
  "try_basic w raw host user password sent =
     (case reg_get w raw host user password sent of
        (sent', Inl e) \<Rightarrow> (sent', Some e)
      | (sent', Inr resp) \<Rightarrow> (sent', basic_verdict resp))"

definition verify_login ::
  "web \<Rightarrow> string \<Rightarrow> string \<Rightarrow> string \<Rightarrow> reg_request list \<times> verify_error option" where
  "verify_login w host user password =
     (if host = [] then ([], Some NoRegistry)
      else if user = [] \<or> password = [] then ([], Some MissingLogin)
      else
        (let raw = ''https://'' @ host @ ''/v2/''
         in case reg_get w raw host [] [] [] of
              (sent, Inl e) \<Rightarrow> (sent, Some e)
            | (sent, Inr resp) \<Rightarrow>
                if rs_status resp = 200 then (sent, None)
                else if rs_status resp \<noteq> 401 then (sent, Some (Unreachable (WrongStatus (rs_status resp))))
                else
                  (case parse_challenge (rs_challenge resp) of
                     (scheme, params) \<Rightarrow>
                       if to_lower scheme = ''bearer'' then request_token w params user password sent
                       else if to_lower scheme = ''basic'' \<or> to_lower scheme = []
                       then try_basic w raw host user password sent
                       else (sent, Some (Unreachable (UnsupportedScheme (clip_text scheme)))))))"

section \<open>Where the credentials go\<close>

text \<open>
  What the documentation of \<open>net/url\<close> says: the host of a URL built from a registry name is
  that name, and a URL's text is parsed back to the same scheme and host.
\<close>

definition url_ok :: "web \<Rightarrow> bool" where
  "url_ok w \<longleftrightarrow>
     (\<forall>host u. host_re host \<and> wb_parse w (''https://'' @ host @ ''/v2/'') = Some u \<longrightarrow>
        ru_scheme u = ''https'' \<and> ru_host u = host)
     \<and> (\<forall>u v. wb_parse w (wb_render w u) = Some v \<longrightarrow> ru_scheme v = ru_scheme u \<and> ru_host v = ru_host u)"

lemma keeps_auth_same_host: "ru_host u = ru_host v \<Longrightarrow> keeps_auth w u v"
  by (simp add: keeps_auth_def)

text \<open>What a chain of requests to one host adds: its requests, and where its answer comes from.\<close>

definition asked :: "web \<Rightarrow> string \<Rightarrow> (string \<times> string) option \<Rightarrow> nat \<Rightarrow> reg_request list \<Rightarrow>
    reg_request list \<times> (verify_error + reg_response) \<Rightarrow> bool" where
  "asked w host auth n sent r \<longleftrightarrow>
     (\<exists>new. fst r = sent @ new \<and> length new \<le> n
        \<and> list_all (\<lambda>q. ru_host (rq_url q) = host \<and> rq_auth q = auth) new
        \<and> (case snd r of
             Inl e \<Rightarrow> e = Unreachable Transport \<or> e = BadRequestUrl
           | Inr resp \<Rightarrow> new \<noteq> [] \<and> wb_send w (sent @ butlast new) (last new) = Some resp))"

lemma asked_Cons:
  assumes "asked w host auth n (sent @ [q]) r" and "ru_host (rq_url q) = host" and "rq_auth q = auth"
  shows "asked w host auth (Suc n) sent r"
proof -
  obtain new where new: "fst r = sent @ q # new" "length new \<le> n"
      "list_all (\<lambda>q. ru_host (rq_url q) = host \<and> rq_auth q = auth) new"
      "case snd r of Inl e \<Rightarrow> e = Unreachable Transport \<or> e = BadRequestUrl
       | Inr resp \<Rightarrow> new \<noteq> [] \<and> wb_send w ((sent @ [q]) @ butlast new) (last new) = Some resp"
    using assms(1) by (auto simp: asked_def)
  then show ?thesis unfolding asked_def
    using assms(2,3) by (intro exI [of _ "q # new"]) (auto split: sum.splits)
qed

lemma follow_asked:
  assumes "length via < redirect_limit"
    and "\<forall>q \<in> set (via @ [req]). ru_host (rq_url q) = host \<and> rq_auth q = auth"
  shows "asked w host auth (redirect_limit - length via) sent (follow w host via sent req)"
  using assms
proof (induction w host via sent req rule: follow.induct)
  case (1 w host via sent req)
  let ?step = "redirect_limit - length via"
  have here: "ru_host (rq_url req) = host" "rq_auth req = auth" using "1.prems"(2) by simp_all
  have n: "?step = Suc (redirect_limit - length (via @ [req]))" using "1.prems"(1) by simp
  have stop: "asked w host auth ?step sent (sent @ [req], Inl (Unreachable Transport))"
    using here n unfolding asked_def by (intro exI [of _ "[req]"]) simp
  show ?case
  proof (cases "wb_send w sent req")
    case None
    then show ?thesis using stop by (simp add: follow.simps)
  next
    case (Some resp)
    show ?thesis
    proof (cases "is_redirect resp")
      case False
      then show ?thesis
        using Some here n unfolding asked_def by (intro exI [of _ "[req]"]) (simp add: follow.simps)
    next
      case True
      show ?thesis
      proof (cases "wb_location w (rq_url req) (rs_location resp)")
        case None
        then show ?thesis using Some True stop by (simp add: follow.simps)
      next
        case (Some u)
        show ?thesis
        proof (cases "check_redirect host u (via @ [req])")
          case False
          then show ?thesis using Some True \<open>wb_send w sent req = Some resp\<close> stop by (simp add: follow.simps)
        next
          case go: True
          let ?first = "hd (via @ [req])"
          have first: "ru_host (rq_url ?first) = host" "rq_auth ?first = auth"
            using "1.prems"(2) by (auto simp: hd_append split: if_splits)
          have u: "ru_host u = host" "length (via @ [req]) < redirect_limit"
            using go by (simp_all add: check_redirect_def)
          have keep: "keeps_auth w (rq_url ?first) u" using first u by (simp add: keeps_auth_same_host)
          let ?next = "\<lparr>rq_url = u, rq_auth = rq_auth ?first\<rparr>"
          have f: "follow w host via sent req = follow w host (via @ [req]) (sent @ [req]) ?next"
            using \<open>wb_send w sent req = Some resp\<close> True Some go keep
            by (subst follow.simps) (simp add: Let_def)
          have "asked w host auth (redirect_limit - length (via @ [req])) (sent @ [req])
              (follow w host (via @ [req]) (sent @ [req]) ?next)"
            using "1.IH" [OF \<open>wb_send w sent req = Some resp\<close> _ Some _ refl] True go keep first u "1.prems"(2)
            by simp
          then show ?thesis using asked_Cons here f n by simp
        qed
      qed
    qed
  qed
qed

lemma get_asked:
  assumes "\<And>u. wb_parse w raw = Some u \<Longrightarrow> ru_host u = host"
  shows "asked w host (if user \<noteq> [] then Some (user, password) else None) redirect_limit sent
           (reg_get w raw host user password sent)"
proof (cases "wb_parse w raw")
  case None
  then show ?thesis by (simp add: reg_get_def asked_def)
next
  case (Some u)
  then show ?thesis
    using follow_asked [of "[]" "\<lparr>rq_url = u, rq_auth = (if user \<noteq> [] then Some (user, password) else None)\<rparr>" host]
      assms [OF Some] by (simp add: reg_get_def redirect_limit_def)
qed

text \<open>A token endpoint that the registry named in answer to a request without credentials.\<close>

definition token_host :: "web \<Rightarrow> string \<Rightarrow> string \<Rightarrow> bool" where
  "token_host w host h \<longleftrightarrow>
     (\<exists>before req resp u. wb_send w before req = Some resp \<and> ru_host (rq_url req) = host
        \<and> rq_auth req = None \<and> rs_status resp = 401
        \<and> wb_parse w (param_value (snd (parse_challenge (rs_challenge resp))) ''realm'') = Some u
        \<and> ru_scheme u = ''https'' \<and> ru_host u = h)"

definition confined :: "web \<Rightarrow> string \<Rightarrow> (string \<times> string) option \<Rightarrow> reg_request \<Rightarrow> bool" where
  "confined w host auth r \<longleftrightarrow>
     (ru_host (rq_url r) = host \<and> (rq_auth r = None \<or> rq_auth r = auth))
     \<or> (token_host w host (ru_host (rq_url r)) \<and> rq_auth r = auth)"

text \<open>Success and refusal are answers to the last request; a refusal is one with the credentials.\<close>

definition honest :: "web \<Rightarrow> (string \<times> string) option \<Rightarrow> reg_request list \<times> verify_error option \<Rightarrow> bool" where
  "honest w auth r \<longleftrightarrow>
     (snd r = None \<or> snd r = Some Rejected \<longrightarrow>
       (\<exists>before req resp. fst r = before @ [req] \<and> wb_send w before req = Some resp
          \<and> (if snd r = None then rs_status resp = 200
             else (rs_status resp = 401 \<or> rs_status resp = 403) \<and> rq_auth req = auth)))"

lemma asked_honest:
  assumes "asked w host auth n sent (sent', Inr resp)"
  shows "\<exists>before req. sent' = before @ [req] \<and> wb_send w before req = Some resp
    \<and> rq_auth req = auth \<and> ru_host (rq_url req) = host"
proof -
  obtain new where "sent' = sent @ new" "new \<noteq> []"
      "list_all (\<lambda>q. ru_host (rq_url q) = host \<and> rq_auth q = auth) new"
      "wb_send w (sent @ butlast new) (last new) = Some resp"
    using assms by (auto simp: asked_def)
  then show ?thesis
    by (intro exI [of _ "sent @ butlast new"] exI [of _ "last new"]) (auto simp: list_all_iff)
qed

lemma asked_requests:
  "asked w host auth n sent (sent', r) \<Longrightarrow> q \<in> set sent' \<Longrightarrow>
   q \<in> set sent \<or> (ru_host (rq_url q) = host \<and> rq_auth q = auth)"
  by (auto simp: asked_def list_all_iff)

lemma basic_ok:
  assumes "url_ok w" and "host_re host" and "user \<noteq> []" and "list_all (confined w host (Some (user, password))) sent"
    and "try_basic w (''https://'' @ host @ ''/v2/'') host user password sent = (sent', e)"
  shows "list_all (confined w host (Some (user, password))) sent'
    \<and> honest w (Some (user, password)) (sent', e) \<and> length sent' \<le> length sent + redirect_limit"
proof -
  obtain r where g: "reg_get w (''https://'' @ host @ ''/v2/'') host user password sent = (sent', r)"
    and e: "e = (case r of Inl e \<Rightarrow> Some e | Inr resp \<Rightarrow> basic_verdict resp)"
    using assms(5) by (auto simp: try_basic_def split: prod.splits sum.splits)
  have a: "asked w host (Some (user, password)) redirect_limit sent (sent', r)"
    using get_asked [of w "''https://'' @ host @ ''/v2/''" host user password sent] assms(1-3) g
    by (simp add: url_ok_def)
  have "list_all (confined w host (Some (user, password))) sent'"
    using assms(4) asked_requests [OF a] by (auto simp: list_all_iff confined_def)
  moreover have "honest w (Some (user, password)) (sent', e)"
  proof (cases r)
    case (Inl x)
    with a e show ?thesis by (auto simp: honest_def asked_def)
  next
    case (Inr resp)
    with asked_honest a e show ?thesis
      by (fastforce simp: honest_def basic_verdict_def split: if_splits)
  qed
  ultimately show ?thesis using a by (auto simp: asked_def)
qed

lemma token_ok:
  assumes "url_ok w" and "user \<noteq> []" and "list_all (confined w host (Some (user, password))) sent"
    and chal: "wb_send w before req = Some resp" "ru_host (rq_url req) = host" "rq_auth req = None" "rs_status resp = 401"
    and "request_token w (snd (parse_challenge (rs_challenge resp))) user password sent = (sent', e)"
  shows "list_all (confined w host (Some (user, password))) sent'
    \<and> honest w (Some (user, password)) (sent', e) \<and> length sent' \<le> length sent + redirect_limit"
proof -
  let ?ps = "snd (parse_challenge (rs_challenge resp))"
  show ?thesis
  proof (cases "sent' = sent \<and> (\<exists>x. e = Some (Unreachable x))")
    case True
    then show ?thesis using assms(3) by (auto simp: honest_def)
  next
    case False
    then obtain u where u: "wb_parse w (param_value ?ps ''realm'') = Some u" "ru_scheme u = ''https''" "ru_host u \<noteq> []"
      using assms(8) by (auto simp: request_token_def Let_def split: option.splits if_splits)
    define u' where "u' = u\<lparr>ru_query := set_param ''scope'' (param_value ?ps ''scope'')
        (set_param ''service'' (param_value ?ps ''service'') (ru_query u))\<rparr>"
    have u': "ru_scheme u' = ru_scheme u" "ru_host u' = ru_host u" by (simp_all add: u'_def)
    obtain r where g: "reg_get w (wb_render w u') (ru_host u) user password sent = (sent', r)"
      and e: "e = (case r of Inl e \<Rightarrow> Some e | Inr resp \<Rightarrow> token_verdict w resp)"
      using assms(8) u unfolding request_token_def Let_def u'_def by (auto split: prod.splits sum.splits)
    have h: "token_host w host (ru_host u)" using chal u by (auto simp: token_host_def)
    have a: "asked w (ru_host u) (Some (user, password)) redirect_limit sent (sent', r)"
      using get_asked [of w "wb_render w u'" "ru_host u" user password sent] assms(1,2) u' g
      by (auto simp: url_ok_def)
    have "list_all (confined w host (Some (user, password))) sent'"
      using assms(3) asked_requests [OF a] h unfolding list_all_iff confined_def by metis
    moreover have "honest w (Some (user, password)) (sent', e)"
    proof (cases r)
      case (Inl x)
      with a e show ?thesis by (auto simp: honest_def asked_def)
    next
      case (Inr resp)
      with asked_honest a e show ?thesis
        by (fastforce simp: honest_def token_verdict_def split: if_splits option.splits prod.splits)
    qed
    ultimately show ?thesis using a by (auto simp: asked_def)
  qed
qed

lemma verify_ok:
  assumes "url_ok w" and "host_re host" and "verify_login w host user password = (sent, e)"
  shows "list_all (confined w host (Some (user, password))) sent
    \<and> honest w (Some (user, password)) (sent, e) \<and> length sent \<le> 2 * redirect_limit"
proof (cases "host = [] \<or> user = [] \<or> password = []")
  case True
  then show ?thesis using assms(3) by (auto simp: verify_login_def honest_def split: if_splits)
next
  case False
  then have user: "user \<noteq> []" by simp
  let ?raw = "''https://'' @ host @ ''/v2/''"
  obtain sent1 r where g: "reg_get w ?raw host [] [] [] = (sent1, r)" by fastforce
  have a: "asked w host None redirect_limit [] (sent1, r)"
    using get_asked [of w ?raw host "[]" "[]" "[]"] assms(1,2) g by (simp add: url_ok_def)
  have c1: "list_all (confined w host (Some (user, password))) sent1"
    using asked_requests [OF a] by (auto simp: list_all_iff confined_def)
  have l1: "length sent1 \<le> redirect_limit" using a by (simp add: asked_def)
  show ?thesis
  proof (cases r)
    case (Inl x)
    then have "(sent, e) = (sent1, Some x)" using assms(3) False g by (simp add: verify_login_def)
    moreover have "x \<noteq> Rejected" using a Inl by (auto simp: asked_def)
    ultimately show ?thesis using c1 l1 by (auto simp: honest_def)
  next
    case (Inr resp)
    obtain before req where q: "sent1 = before @ [req]" "wb_send w before req = Some resp"
        "rq_auth req = None" "ru_host (rq_url req) = host"
      using asked_honest a Inr by blast
    obtain scheme params where p: "parse_challenge (rs_challenge resp) = (scheme, params)" by fastforce
    consider "rs_status resp \<noteq> 401" | "rs_status resp = 401" "to_lower scheme = ''bearer''"
      | "rs_status resp = 401" "to_lower scheme = ''basic'' \<or> to_lower scheme = []"
      | "rs_status resp = 401" "to_lower scheme \<notin> {''bearer'', ''basic'', []}" by blast
    then show ?thesis
    proof cases
      case 1
      then show ?thesis
        using assms(3) False g Inr q c1 l1 by (auto simp: verify_login_def honest_def split: if_splits)
    next
      case 2
      then have "request_token w (snd (parse_challenge (rs_challenge resp))) user password sent1 = (sent, e)"
        using assms(3) False g Inr p by (simp add: verify_login_def)
      with token_ok [OF assms(1) user c1 q(2,4,3) 2(1)] l1 show ?thesis by fastforce
    next
      case 3
      then have "try_basic w ?raw host user password sent1 = (sent, e)"
        using assms(3) False g Inr p by (auto simp: verify_login_def)
      with basic_ok [OF assms(1,2) user c1] l1 show ?thesis by fastforce
    next
      case 4
      then have "(sent, e) = (sent1, Some (Unreachable (UnsupportedScheme (clip_text scheme))))"
        using assms(3) False g Inr p by (simp add: verify_login_def)
      then show ?thesis using c1 l1 by (simp add: honest_def)
    qed
  qed
qed

section \<open>Reading a challenge\<close>

text \<open>A challenge as a registry writes it; a value may hold commas, spaces and equals signs.\<close>

definition one_param :: "string \<times> string \<Rightarrow> string" where
  "one_param p = fst p @ CHR ''='' # dquote # snd p @ [dquote]"

definition challenge_text :: "string \<Rightarrow> (string \<times> string) list \<Rightarrow> string" where
  "challenge_text scheme ps = scheme @ CHR '' '' # join '','' (map one_param ps)"

definition challenge_param :: "string \<times> string \<Rightarrow> bool" where
  "challenge_param p \<longleftrightarrow> fst p \<noteq> [] \<and> list_all is_lower (fst p) \<and> list_all json_plain (snd p)"

lemma is_lower_byte: "is_lower c \<longleftrightarrow> 97 \<le> byte c \<and> byte c \<le> 122"
  by (auto simp: is_lower_def)

lemma byte_separators [simp]:
  "byte dquote = 34" "byte (CHR '','') = 44" "byte (CHR '' '') = 32"
  by (simp_all add: dquote_def byte_def)

lemma split_loop_plain:
  "list_all (\<lambda>c. byte c < 128 \<and> byte c \<noteq> 34 \<and> (quoted \<or> byte c \<noteq> 44)) s \<Longrightarrow>
   split_params_loop (map (\<lambda>c. (byte c, [c])) s @ rs) out buf quoted = split_params_loop rs out (buf @ s) quoted"
  by (induction s arbitrary: buf) (auto simp: write_rune_def)

lemma split_loop_param:
  assumes "challenge_param p"
  shows "split_params_loop (map (\<lambda>c. (byte c, [c])) (one_param p) @ rs) out buf False =
    split_params_loop rs out (buf @ one_param p) False"
proof -
  have k: "list_all (\<lambda>c. byte c < 128 \<and> byte c \<noteq> 34 \<and> (False \<or> byte c \<noteq> 44)) (fst p @ ''='')"
    using assms by (auto simp: challenge_param_def is_lower_byte list_all_iff)
  have v: "list_all (\<lambda>c. byte c < 128 \<and> byte c \<noteq> 34 \<and> (True \<or> byte c \<noteq> 44)) (snd p)"
    using assms by (auto simp: challenge_param_def json_plain_def list_all_iff)
  have "one_param p = (fst p @ ''='') @ dquote # snd p @ [dquote]" by (simp add: one_param_def)
  then show ?thesis
    using split_loop_plain [OF k] split_loop_plain [OF v] by (simp add: write_rune_def del: map_append)
      (simp add: write_rune_def)
qed

lemma one_param_trimmed:
  assumes "challenge_param p"
  shows "trim_space (one_param p) = one_param p" "one_param p \<noteq> []"
    "list_all (\<lambda>c. byte c < 128) (one_param p)"
proof -
  show a: "list_all (\<lambda>c. byte c < 128) (one_param p)"
    using assms by (auto simp: one_param_def challenge_param_def is_lower_byte json_plain_def list_all_iff)
  show n: "one_param p \<noteq> []" by (simp add: one_param_def)
  obtain c cs where k: "fst p = c # cs" "is_lower c"
    using assms by (cases "fst p") (auto simp: challenge_param_def)
  then show "trim_space (one_param p) = one_param p"
    by (intro trim_space_prefix(2) [OF a n]) (simp_all add: one_param_def is_space_def is_lower_byte)
qed

lemma split_params_join:
  assumes "list_all challenge_param ps" and "ps \<noteq> []"
  shows "split_params_loop (map (\<lambda>c. (byte c, [c])) (join '','' (map one_param ps))) out [] False =
    out @ map one_param ps"
  using assms
proof (induction ps arbitrary: out)
  case (Cons p ps)
  show ?case
  proof (cases ps)
    case Nil
    then show ?thesis using Cons.prems split_loop_param [of p "[]" out "[]"] one_param_trimmed [of p] by simp
  next
    case cons: (Cons q qs)
    have j: "join '','' (map one_param (p # ps)) = one_param p @ CHR '','' # join '','' (map one_param ps)"
      by (simp add: cons)
    show ?thesis
      unfolding j using split_loop_param [of p] Cons.prems Cons.IH cons by (simp add: write_rune_def)
  qed
qed simp

lemma list_all_join: "list_all P sep \<Longrightarrow> list_all (list_all P) ws \<Longrightarrow> list_all P (join sep ws)"
  by (induction sep ws rule: join.induct) auto

lemma split_params_render:
  assumes "list_all challenge_param ps" and "ps \<noteq> []"
  shows "split_params (join '','' (map one_param ps)) = map one_param ps"
proof -
  have "list_all (\<lambda>c. byte c < 128) (join '','' (map one_param ps))"
    using assms(1) one_param_trimmed(3) by (intro list_all_join) (auto simp: list_all_iff)
  then have "utf8_chunks (join '','' (map one_param ps)) = map (\<lambda>c. (byte c, [c])) (join '','' (map one_param ps))"
    using utf8_chunks_append [of _ "[]"] by simp
  then show ?thesis using split_params_join [OF assms, of "[]"] by (simp add: split_params_def)
qed

lemma to_lower_lower: "list_all is_lower k \<Longrightarrow> to_lower k = k"
proof -
  assume k: "list_all is_lower k"
  then have "list_all (\<lambda>c. byte c < 128) k" by (auto simp: list_all_iff is_lower_byte)
  then have "utf8_chunks k = map (\<lambda>c. (byte c, [c])) k" using utf8_chunks_append [of k "[]"] by simp
  moreover have "concat (map (\<lambda>c. lower_chunk (byte c, [c])) k) = k"
    using k by (induction k) (auto simp: lower_chunk_def is_lower_byte)
  ultimately show ?thesis by (simp add: to_lower_def comp_def)
qed

lemma trim_quotes:
  assumes "dquote \<notin> set v"
  shows "trim_left {dquote} (trim_right {dquote} (dquote # v @ [dquote])) = v"
proof (cases v rule: rev_cases)
  case (snoc w x)
  then have "trim_right {dquote} (dquote # v @ [dquote]) = dquote # v"
    using assms by (auto simp: trim_right_def)
  moreover have "dropWhile (\<lambda>c. c = dquote) v = v" using assms by (cases v) auto
  ultimately show ?thesis by (simp add: trim_left_def)
qed (simp add: trim_left_def trim_right_def)

lemma al_put_fresh: "k \<notin> fst ` set ps \<Longrightarrow> al_put k v ps = ps @ [(k, v)]"
  by (induction ps) auto

lemma read_params_render:
  assumes "list_all challenge_param ps" and "distinct (map fst acc @ map fst ps)"
  shows "read_params (map one_param ps) acc = acc @ ps"
  using assms
proof (induction ps arbitrary: acc)
  case (Cons p ps)
  have p: "fst p \<noteq> []" "list_all is_lower (fst p)" "list_all json_plain (snd p)"
    using Cons.prems(1) by (auto simp: challenge_param_def)
  have eq: "CHR ''='' \<notin> set (fst p)" using p(2) by (auto simp: list_all_iff is_lower_byte)
  have k: "trim_space (fst p) = fst p"
  proof (rule trim_space_prefix(2))
    show "list_all (\<lambda>c. byte c < 128) (fst p)" using p(2) by (auto simp: list_all_iff is_lower_byte)
    have "is_lower (hd (fst p))" "is_lower (last (fst p))" using p by (auto simp: list_all_iff)
    then show "\<not> is_space (byte (hd (fst p)))" "\<not> is_space (byte (last (fst p)))"
      by (auto simp: is_space_def is_lower_byte)
  qed (rule p(1))
  let ?v = "dquote # snd p @ [dquote]"
  have v: "trim_space ?v = ?v"
    using p(3) by (intro trim_space_prefix(2)) (auto simp: list_all_iff json_plain_def is_space_def)
  have "dquote \<notin> set (snd p)" using p(3) by (auto simp: list_all_iff json_plain_def)
  note q = trim_quotes [OF this]
  have step: "read_params (map one_param (p # ps)) acc = read_params (map one_param ps) (acc @ [p])"
    using eq k v q Cons.prems(2) al_put_fresh [of "fst p" acc "snd p"]
    by (simp add: one_param_def to_lower_lower [OF p(2)])
  have "read_params (map one_param ps) (acc @ [p]) = (acc @ [p]) @ ps"
    using Cons.prems by (intro Cons.IH) auto
  with step show ?case by simp
qed simp

lemma parse_challenge_text:
  assumes "scheme \<noteq> []" and "list_all is_alnum scheme"
    and "ps \<noteq> []" and "list_all challenge_param ps" and "distinct (map fst ps)"
  shows "parse_challenge (challenge_text scheme ps) = (scheme, ps)"
proof -
  let ?t = "challenge_text scheme ps"
  have alnum: "byte c < 128" "\<not> is_space (byte c)" if "is_alnum c" for c
    using that by (auto simp: is_alnum_def is_upper_def is_lower_def is_digit_def is_space_def)
  have s: "CHR '' '' \<notin> set scheme" using assms(2) alnum(2) [of "CHR '' ''"] by (auto simp: list_all_iff is_space_def)
  have "list_all (\<lambda>c. byte c < 128) (join '','' (map one_param ps))"
    using assms(4) one_param_trimmed(3) by (intro list_all_join) (auto simp: list_all_iff)
  then have ascii: "list_all (\<lambda>c. byte c < 128) ?t"
    using assms(2) alnum(1) by (auto simp: challenge_text_def list_all_iff)
  obtain qs q where ps: "ps = qs @ [q]" using assms(3) by (cases ps rule: rev_cases) auto
  have "last (join '','' (map one_param ps)) = dquote \<and> join '','' (map one_param ps) \<noteq> []"
    by (cases "qs = []") (simp_all add: ps join_snoc one_param_def)
  then have last: "last ?t = dquote" by (simp add: challenge_text_def)
  have "trim_space ?t = ?t"
    using assms(1,2) alnum(2) last
    by (intro trim_space_prefix(2) [OF ascii]) (auto simp: challenge_text_def list_all_iff is_space_def hd_append)
  moreover have "cut (CHR '' '') ?t = (scheme, join '','' (map one_param ps), True)"
    using s by (simp add: challenge_text_def)
  moreover have "?t \<noteq> []" by (simp add: challenge_text_def)
  ultimately show ?thesis
    using split_params_render [OF assms(4,3)] read_params_render [of ps "[]"] assms(4,5)
    by (simp add: parse_challenge_def Let_def)
qed

section \<open>A redirect to plaintext\<close>

text \<open>
  \<open>CheckRedirect\<close> compares the hosts and not the schemes: a registry that answers the request
  with the credentials by a redirect to \<open>http\<close> on its own host gets them again, in the clear.
\<close>

definition sample_registry :: string where "sample_registry = ''r.example''"

definition reg_answer :: "nat \<Rightarrow> string \<Rightarrow> string \<Rightarrow> reg_response" where
  "reg_answer st chal loc = \<lparr>rs_status = st, rs_challenge = chal, rs_location = loc, rs_body = []\<rparr>"

definition sample_web :: "(nat \<Rightarrow> reg_response) \<Rightarrow> web" where
  "sample_web f =
     \<lparr>wb_send = (\<lambda>sent req. Some (f (length sent))),
      wb_parse = (\<lambda>raw. if raw = ''https://'' @ sample_registry @ ''/v2/''
                    then Some \<lparr>ru_scheme = ''https'', ru_host = sample_registry, ru_path = ''/v2/'', ru_query = []\<rparr>
                    else None),
      wb_render = (\<lambda>u. []),
      wb_location = (\<lambda>u loc. Some \<lparr>ru_scheme = ''http'', ru_host = sample_registry, ru_path = ''/v2/'', ru_query = []\<rparr>),
      wb_hostname = (\<lambda>h. h), wb_token = (\<lambda>b. None)\<rparr>"

definition downgrade_answers :: "nat \<Rightarrow> reg_response" where
  "downgrade_answers n =
     (if n = 0 then reg_answer 401 ''Basic'' [] else if n = 1 then reg_answer 302 [] ''http://r.example/v2/''
      else reg_answer 200 [] [])"

lemma url_ok_sample: "url_ok (sample_web f)"
  by (auto simp: url_ok_def sample_web_def)

lemma sample_challenge: "parse_challenge ''Basic'' = (''Basic'', [])"
proof -
  have "trim_space ''Basic'' = ''Basic''"
    by (intro trim_space_prefix(2)) (simp_all add: byte_def is_space_def)
  moreover have "trim_space [] = []" by (simp add: trim_space_def)
  ultimately show ?thesis by (simp add: parse_challenge_def split_params_def)
qed

lemma sample_lower: "to_lower ''Basic'' = ''basic''" "to_lower [] = []"
  by (simp_all add: to_lower_def utf8_chunks_ascii lower_chunk_def chr_def byte_def char_of_def bit_simps)

lemma plaintext_redirect:
  "\<exists>r \<in> set (fst (verify_login (sample_web downgrade_answers) sample_registry ''u'' ''p'')).
     rq_auth r = Some (''u'', ''p'') \<and> ru_scheme (rq_url r) = ''http''"
proof -
  let ?w = "sample_web downgrade_answers" and ?raw = "''https://'' @ sample_registry @ ''/v2/''"
  let ?s = "\<lparr>ru_scheme = ''https'', ru_host = sample_registry, ru_path = ''/v2/'', ru_query = []\<rparr>"
  let ?p = "\<lparr>ru_scheme = ''http'', ru_host = sample_registry, ru_path = ''/v2/'', ru_query = []\<rparr>"
  let ?a = "Some (''u'', ''p'')"
  have g1: "reg_get ?w ?raw sample_registry [] [] [] = ([\<lparr>rq_url = ?s, rq_auth = None\<rparr>], Inr (reg_answer 401 ''Basic'' []))"
    by (simp add: reg_get_def follow.simps sample_web_def downgrade_answers_def is_redirect_def reg_answer_def)
  have g2: "reg_get ?w ?raw sample_registry ''u'' ''p'' [q] =
      ([q, \<lparr>rq_url = ?s, rq_auth = ?a\<rparr>, \<lparr>rq_url = ?p, rq_auth = ?a\<rparr>], Inr (reg_answer 200 [] []))" for q
    by (simp add: reg_get_def follow.simps [of _ _ "[]"] sample_web_def downgrade_answers_def is_redirect_def
        reg_answer_def check_redirect_def redirect_limit_def keeps_auth_def)
      (simp add: follow.simps is_redirect_def reg_answer_def Let_def)
  have "sample_registry \<noteq> []" by (simp add: sample_registry_def)
  then have "fst (verify_login ?w sample_registry ''u'' ''p'') =
      [\<lparr>rq_url = ?s, rq_auth = None\<rparr>, \<lparr>rq_url = ?s, rq_auth = ?a\<rparr>, \<lparr>rq_url = ?p, rq_auth = ?a\<rparr>]"
    using g1 g2 by (simp add: verify_login_def try_basic_def reg_answer_def sample_challenge sample_lower)
  then show ?thesis by simp
qed

lemma host_re_probe: "normalise_host raw = Inr h \<Longrightarrow> host_re (probe_host h)"
proof -
  assume "normalise_host raw = Inr h"
  moreover have "host_re ''registry-1.docker.io''" by code_simp
  ultimately show ?thesis using normalise_host_result [of raw h] by (auto simp: probe_host_def)
qed

end
