(* ===== verification/Cli_Auth.thy ===== *)
theory Cli_Auth
  imports Credfile Registry Cli_Api
begin

text \<open>
  \<open>cli/auth.go\<close> and the terminal of \<open>cli/termios_linux.go\<close>: prompting for registry
  credentials, verifying them with the registry and writing them to a stack's store.  The
  terminal echoes what it reads while its echo flag is set, so what appears on the screen is
  part of the state.
\<close>

section \<open>The terminal\<close>

text \<open>
  The bytes still to be read, and whether the read after them fails instead of ending; the
  local mode flags; the screen; the number of \<open>ioctl\<close> calls made, which of them fail, and
  whether a signal arrives in place of the answer to a password prompt.
\<close>

record console =
  co_input :: string
  co_broken :: bool
  co_tty :: bool
  co_lflag :: "32 word"
  co_screen :: string
  co_ioctls :: nat
  co_ioctl_fails :: "nat \<Rightarrow> bool"
  co_signal :: "nat \<Rightarrow> bool"

definition echo_flag :: "32 word" where "echo_flag = 8"

definition echo_off :: "32 word \<Rightarrow> 32 word" where
  "echo_off l = and l (not echo_flag)"

definition echoes :: "console \<Rightarrow> bool" where
  "echoes c \<longleftrightarrow> and (co_lflag c) echo_flag \<noteq> 0"

definition say :: "string \<Rightarrow> console \<Rightarrow> console" where
  "say s c = c\<lparr>co_screen := co_screen c @ s\<rparr>"

definition say_line :: "string \<Rightarrow> console \<Rightarrow> console" where
  "say_line s c = say (s @ [chr 10]) c"

definition get_term_state :: "console \<Rightarrow> 32 word option \<times> console" where
  "get_term_state c =
     (if co_ioctl_fails c (co_ioctls c) then None else Some (co_lflag c),
      c\<lparr>co_ioctls := Suc (co_ioctls c)\<rparr>)"

definition set_term_state :: "32 word \<Rightarrow> console \<Rightarrow> bool \<times> console" where
  "set_term_state l c =
     (if co_ioctl_fails c (co_ioctls c) then (False, c\<lparr>co_ioctls := Suc (co_ioctls c)\<rparr>)
      else (True, c\<lparr>co_lflag := l, co_ioctls := Suc (co_ioctls c)\<rparr>))"

text \<open>\<open>ReadString('\n')\<close>: the line with its end; the flag is an error other than the end of the input.\<close>

definition read_string :: "console \<Rightarrow> (string \<times> bool) \<times> console" where
  "read_string c =
     (let n = (case index_byte (chr 10) (co_input c) of Some i \<Rightarrow> Suc i | None \<Rightarrow> length (co_input c));
          line = take n (co_input c);
          failed = (co_broken c \<and> chr 10 \<notin> set (co_input c));
          c1 = c\<lparr>co_input := drop n (co_input c)\<rparr>
      in ((line, failed), if echoes c then say line c1 else c1))"

section \<open>Prompts\<close>

datatype auth_stop =
    NotTerminal | TermModeUnreadable | EchoStaysOn | InputFailed | Interrupted | StoreFailed store_error

definition prompt_line :: "string \<Rightarrow> console \<Rightarrow> (auth_stop + string) \<times> console" where
  "prompt_line prompt c =
     (case read_string (say prompt c) of
        ((line, failed), c1) \<Rightarrow> (if failed then Inl InputFailed else Inr (trim_space line), c1))"

definition prompt_password :: "string \<Rightarrow> console \<Rightarrow> (auth_stop + string) \<times> console" where
  "prompt_password prompt c =
     (if \<not> co_tty c then (Inl NotTerminal, c)
      else
        (case get_term_state (say prompt c) of
           (None, c1) \<Rightarrow> (Inl TermModeUnreadable, c1)
         | (Some original, c1) \<Rightarrow>
             (case set_term_state (echo_off original) c1 of
                (False, c2) \<Rightarrow> (Inl EchoStaysOn, c2)
              | (True, c2) \<Rightarrow>
                  if co_signal c2 (co_ioctls c2)
                  then (Inl Interrupted, say_line [] (snd (set_term_state original c2)))
                  else
                    (case read_string c2 of
                       ((line, failed), c3) \<Rightarrow>
                         (if failed then Inl InputFailed else Inr (trim_right {chr 13, chr 10} line),
                          say_line [] (snd (set_term_state original c3)))))))"

text \<open>\<open>authArgsSuffix\<close>.\<close>

definition auth_args_suffix :: "string \<Rightarrow> bool \<Rightarrow> string \<Rightarrow> bool \<Rightarrow> string" where
  "auth_args_suffix target lst rm force =
     (if target \<noteq> [] then '' '' @ target else []) @ (if lst then '' --list'' else [])
     @ (if rm \<noteq> [] then '' --remove '' @ rm else []) @ (if force then '' --force'' else [])"

section \<open>Verifying and saving one login\<close>

datatype auth_outcome = AuthSaved | AuthSkipped | AuthFailed

text \<open>
  What happens outside while the prompts for a host wait: the registry's answers, the faults of
  the system calls, and what other processes do to the disk.
\<close>

record auth_world =
  aw_web :: "string \<Rightarrow> web"
  aw_sys :: "string \<Rightarrow> sys_world"
  aw_meanwhile :: "string \<Rightarrow> cred_disk \<Rightarrow> cred_disk"
  aw_codec :: cred_codec
  aw_verify_text :: "verify_error \<Rightarrow> string"

fun cred_error_text :: "cred_error \<Rightarrow> string" where
  "cred_error_text NoHost = ''no registry host given''"
| "cred_error_text MissingCredential = ''both a username and a password are needed''"
| "cred_error_text ColonInUsername = ''a registry username cannot contain a colon''"

fun host_error_text :: "host_error \<Rightarrow> string" where
  "host_error_text EmptyHost = ''no registry host given''"
| "host_error_text (NotAHost h) =
     quote (clip_text h) @ '' is not a registry host such as harbor.example.com or registry.example.com:5000''"

definition verdict_text :: "auth_world \<Rightarrow> string \<Rightarrow> verify_error \<Rightarrow> string" where
  "verdict_text w host e =
     (case e of
        Rejected \<Rightarrow> ''    rejected: wrong username or password, nothing saved''
      | Unreachable u \<Rightarrow> ''    could not reach '' @ host @ '', nothing saved: '' @ aw_verify_text w e
      | _ \<Rightarrow> ''    could not verify, nothing saved: '' @ aw_verify_text w e)"

definition verdict :: "auth_world \<Rightarrow> string \<Rightarrow> string \<Rightarrow> string \<Rightarrow> verify_error option" where
  "verdict w host user password = snd (verify_login (aw_web w host) (probe_host host) user password)"

definition judge_login ::
  "auth_world \<Rightarrow> docker_config \<Rightarrow> string \<Rightarrow> string \<Rightarrow> string \<Rightarrow> console \<Rightarrow> (auth_outcome \<times> docker_config) \<times> console" where
  "judge_login w st host user password c =
     (case verdict w host user password of
        Some e \<Rightarrow> ((AuthFailed, st), say_line (verdict_text w host e) c)
      | None \<Rightarrow>
          (case set_cred st host user password of
             Inl e \<Rightarrow> ((AuthFailed, st), say_line (''    '' @ cred_error_text e @ '', nothing saved'') c)
           | Inr st' \<Rightarrow> ((AuthSaved, st'), c)))"

definition prompt_and_verify ::
  "auth_world \<Rightarrow> docker_config \<Rightarrow> string \<Rightarrow> console \<Rightarrow> (auth_stop + auth_outcome \<times> docker_config) \<times> console" where
  "prompt_and_verify w st host c =
     (case prompt_line ''    username (blank if this registry needs no login): '' (say_line (''  '' @ host) c) of
        (Inl e, c1) \<Rightarrow> (Inl e, c1)
      | (Inr user, c1) \<Rightarrow>
          if user = []
          then (Inr (AuthSkipped, st), say_line ''    left alone, dup will pull from it anonymously'' c1)
          else
            (case prompt_password ''    password: '' c1 of
               (Inl e, c2) \<Rightarrow> (Inl e, c2)
             | (Inr password, c2) \<Rightarrow>
                 if password = []
                 then (Inr (AuthSkipped, st), say_line ''    left alone, no password given'' c2)
                 else (case judge_login w st host user password c2 of (r, c3) \<Rightarrow> (Inr r, c3))))"

section \<open>A stack and all stacks\<close>

record auth_tally =
  at_saved :: nat
  at_skipped :: nat
  at_failed :: nat

definition no_tally :: auth_tally where
  "no_tally = \<lparr>at_saved = 0, at_skipped = 0, at_failed = 0\<rparr>"

definition tally_add :: "auth_tally \<Rightarrow> auth_tally \<Rightarrow> auth_tally" where
  "tally_add a b =
     \<lparr>at_saved = at_saved a + at_saved b, at_skipped = at_skipped a + at_skipped b,
      at_failed = at_failed a + at_failed b\<rparr>"

definition tally_summary :: "auth_tally \<Rightarrow> string" where
  "tally_summary a =
     (if at_saved a = 0 \<and> at_failed a = 0 \<and> at_skipped a = 0 then ''nothing to do''
      else join '', ''
        ([''stored '' @ nat_digits (at_saved a)]
         @ (if 0 < at_skipped a then [''left '' @ nat_digits (at_skipped a) @ '' alone''] else [])
         @ (if 0 < at_failed a then [''could not store '' @ nat_digits (at_failed a)] else [])))"

text \<open>One host: read the store, prompt and verify, write the store that was read.\<close>

definition auth_host ::
  "auth_world \<Rightarrow> string \<Rightarrow> bool \<Rightarrow> string \<Rightarrow> console \<Rightarrow> cred_disk
   \<Rightarrow> (auth_stop + auth_outcome) \<times> console \<times> cred_disk" where
  "auth_host w p force host c d =
     (case normalise_host host of
        Inl e \<Rightarrow> (Inr AuthFailed, say_line (''  '' @ host_error_text e) c, d)
      | Inr h \<Rightarrow>
     (case read_store (aw_sys w h) (aw_codec w) p d of
        Inl e \<Rightarrow> (Inl (StoreFailed e), c, d)
      | Inr st \<Rightarrow>
          if has st h \<and> \<not> force
          then (Inr AuthSkipped,
                say_line (''  '' @ h @ '' already has stored credentials, leaving it alone (--force to replace)'') c, d)
          else
     (case prompt_and_verify w st h c of
        (Inl e, c1) \<Rightarrow> (Inl e, c1, aw_meanwhile w h d)
      | (Inr (oc, st'), c1) \<Rightarrow>
          if oc \<noteq> AuthSaved then (Inr oc, c1, aw_meanwhile w h d)
          else
     (case write_store (aw_sys w h) (aw_codec w) st' p (aw_meanwhile w h d) of
        (Some e, d1) \<Rightarrow> (Inl (StoreFailed e), c1, d1)
      | (None, d1) \<Rightarrow> (Inr AuthSaved, say_line ''    saved'' c1, d1)))))"

definition count_auth :: "auth_outcome \<Rightarrow> auth_tally \<Rightarrow> auth_tally" where
  "count_auth oc a =
     (case oc of
        AuthSaved \<Rightarrow> a\<lparr>at_saved := Suc (at_saved a)\<rparr>
      | AuthSkipped \<Rightarrow> a\<lparr>at_skipped := Suc (at_skipped a)\<rparr>
      | AuthFailed \<Rightarrow> a\<lparr>at_failed := Suc (at_failed a)\<rparr>)"

fun auth_hosts ::
  "auth_world \<Rightarrow> string \<Rightarrow> bool \<Rightarrow> string list \<Rightarrow> auth_tally \<Rightarrow> console \<Rightarrow> cred_disk
   \<Rightarrow> (auth_tally \<times> auth_stop option) \<times> console \<times> cred_disk" where
  "auth_hosts w p force [] a c d = ((a, None), c, d)"
| "auth_hosts w p force (host # hs) a c d =
     (case auth_host w p force host c d of
        (Inl e, c1, d1) \<Rightarrow> ((a, Some e), c1, d1)
      | (Inr oc, c1, d1) \<Rightarrow> auth_hosts w p force hs (count_auth oc a) c1 d1)"

text \<open>\<open>resolveHosts\<close>: what the agent says, or one host typed by hand.\<close>

definition resolve_hosts ::
  "host \<Rightarrow> config \<Rightarrow> (string \<Rightarrow> net_error + images_result) \<Rightarrow> target \<Rightarrow> console
   \<Rightarrow> (auth_stop + string list) \<times> console" where
  "resolve_hosts h cfg regs t c =
     (case regs (t_name t) of
        Inr r \<Rightarrow> (Inr (ir_registries r), c)
      | Inl e \<Rightarrow>
          (case prompt_line (t_name t @ '': registry host (blank to skip): '')
                  (say_line [] (say_line (t_name t @ '': ''
                     @ join [chr 10] (agent_unreachable h (c_agent_socket cfg) e)) c)) of
             (Inl x, c1) \<Rightarrow> (Inl x, c1)
           | (Inr s, c1) \<Rightarrow> (Inr (if s = [] then [] else [s]), c1)))"

definition auth_target ::
  "auth_world \<Rightarrow> host \<Rightarrow> config \<Rightarrow> (string \<Rightarrow> net_error + images_result) \<Rightarrow> bool \<Rightarrow> target \<Rightarrow> console
   \<Rightarrow> cred_disk \<Rightarrow> (auth_tally \<times> auth_stop option) \<times> console \<times> cred_disk" where
  "auth_target w h cfg regs force t c d =
     (case resolve_hosts h cfg regs t c of
        (Inl e, c1) \<Rightarrow> ((no_tally, Some e), c1, d)
      | (Inr hs, c1) \<Rightarrow>
          if hs = []
          then ((no_tally, None),
                say_line (t_name t @ '': no registries found, nothing to store credentials for'') c1, d)
          else auth_hosts w (t_docker_cfg t) force hs no_tally (say_line (t_name t) c1) d)"

fun auth_targets ::
  "auth_world \<Rightarrow> host \<Rightarrow> config \<Rightarrow> (string \<Rightarrow> net_error + images_result) \<Rightarrow> bool \<Rightarrow> bool \<Rightarrow> target list
   \<Rightarrow> auth_tally \<Rightarrow> console \<Rightarrow> cred_disk \<Rightarrow> (auth_tally \<times> auth_stop option) \<times> console \<times> cred_disk" where
  "auth_targets w h cfg regs force first [] a c d = ((a, None), c, d)"
| "auth_targets w h cfg regs force first (t # ts) a c d =
     (case auth_target w h cfg regs force t (if first then c else say_line [] c) d of
        ((b, Some e), c1, d1) \<Rightarrow> ((a, Some e), c1, d1)
      | ((b, None), c1, d1) \<Rightarrow> auth_targets w h cfg regs force False ts (tally_add a b) c1 d1)"

datatype auth_end =
    AuthOk | AuthNotStored nat | AuthStopped auth_stop | AuthUnknown string | AuthNotRoot string
  | AuthUsage string | AuthBadHost host_error

definition selected :: "config \<Rightarrow> string \<Rightarrow> string + target list" where
  "selected cfg target =
     (if target = [] then Inr (the_targets cfg)
      else case target_by_name cfg target of None \<Rightarrow> Inl target | Some t \<Rightarrow> Inr [t])"

definition run_auth_add ::
  "auth_world \<Rightarrow> host \<Rightarrow> config \<Rightarrow> (string \<Rightarrow> net_error + images_result) \<Rightarrow> string \<Rightarrow> bool \<Rightarrow> console
   \<Rightarrow> cred_disk \<Rightarrow> auth_end \<times> console \<times> cred_disk" where
  "run_auth_add w h cfg regs target force c d =
     (if \<not> co_tty c then (AuthStopped NotTerminal, c, d)
      else
        (case selected cfg target of
           Inl n \<Rightarrow> (AuthUnknown n, c, d)
         | Inr [] \<Rightarrow> (AuthOk, say_line ''no stacks configured, so there is nothing to add credentials for'' c, d)
         | Inr ts \<Rightarrow>
             (case auth_targets w h cfg regs force True ts no_tally c d of
                ((a, Some e), c1, d1) \<Rightarrow> (AuthStopped e, c1, d1)
              | ((a, None), c1, d1) \<Rightarrow>
                  (if 0 < at_failed a then AuthNotStored (at_failed a) else AuthOk,
                   say_line (tally_summary a) (say_line [] c1), d1))))"

definition stored_file :: "cred_disk \<Rightarrow> target \<Rightarrow> bool" where
  "stored_file d t \<longleftrightarrow> t_docker_cfg t \<noteq> [] \<and> cd_files d (config_path (t_docker_cfg t)) \<noteq> None"

definition run_auth_remove ::
  "sys_world \<Rightarrow> cred_codec \<Rightarrow> config \<Rightarrow> string \<Rightarrow> string \<Rightarrow> console \<Rightarrow> cred_disk
   \<Rightarrow> auth_end \<times> console \<times> cred_disk" where
  "run_auth_remove w k cfg target host c d =
     (if target = [] then (AuthUsage ''usage: dup auth <stack> --remove <host>'', c, d)
      else (case target_by_name cfg target of
        None \<Rightarrow> (AuthUnknown target, c, d)
      | Some t \<Rightarrow>
     (case normalise_host host of
        Inl e \<Rightarrow> (AuthBadHost e, c, d)
      | Inr h \<Rightarrow>
          if \<not> stored_file d t
          then (AuthOk, say_line (target @ '' has no stored registry credentials'') c, d)
          else
     (case read_store w k (t_docker_cfg t) d of
        Inl e \<Rightarrow> (AuthStopped (StoreFailed e), c, d)
      | Inr st \<Rightarrow>
     (case remove st h of
        (st', False) \<Rightarrow> (AuthOk, say_line (target @ '' has no stored credentials for '' @ h) c, d)
      | (st', True) \<Rightarrow>
          if empty st' then
            (case delete_store w (t_docker_cfg t) d of
               (Some e, d1) \<Rightarrow> (AuthStopped (StoreFailed e), c, d1)
             | (None, d1) \<Rightarrow>
                 (AuthOk, say_line (''removed '' @ h @ '' from '' @ target
                            @ ''; no registries left, removed the credential store'') c, d1))
          else
            (case write_store w k st' (t_docker_cfg t) d of
               (Some e, d1) \<Rightarrow> (AuthStopped (StoreFailed e), c, d1)
             | (None, d1) \<Rightarrow> (AuthOk, say_line (''removed '' @ h @ '' from '' @ target) c, d1)))))))"

text \<open>
  \<open>dup auth --list\<close>: the rows of the table, or the store that cannot be read.  \<open>stamp\<close> is the
  formatted modification time of a file, when \<open>Stat\<close> succeeds.
\<close>

definition store_rows ::
  "sys_world \<Rightarrow> cred_codec \<Rightarrow> (raw_json \<Rightarrow> string option) \<Rightarrow> (string \<Rightarrow> string option) \<Rightarrow> cred_disk \<Rightarrow> target
   \<Rightarrow> store_error + string list list" where
  "store_rows w k unjson stamp d t =
     (if \<not> stored_file d t then Inr []
      else (case read_store w k (t_docker_cfg t) d of
        Inl e \<Rightarrow> Inl e
      | Inr st \<Rightarrow>
          Inr (map (\<lambda>h. [t_name t, h, (case username unjson st h of None \<Rightarrow> [] | Some u \<Rightarrow> u),
                         (case stamp (config_path (t_docker_cfg t)) of None \<Rightarrow> ''-'' | Some s \<Rightarrow> s)])
                 (hosts st))))"

fun all_rows ::
  "(target \<Rightarrow> store_error + string list list) \<Rightarrow> target list \<Rightarrow> store_error + string list list" where
  "all_rows f [] = Inr []"
| "all_rows f (t # ts) =
     (case f t of
        Inl e \<Rightarrow> Inl e
      | Inr rows \<Rightarrow> (case all_rows f ts of Inl e \<Rightarrow> Inl e | Inr others \<Rightarrow> Inr (rows @ others)))"

datatype auth_listing = ListUnknown string | ListFailed store_error | ListNone string | ListTable "string list list"

definition run_auth_list ::
  "sys_world \<Rightarrow> cred_codec \<Rightarrow> (raw_json \<Rightarrow> string option) \<Rightarrow> (string \<Rightarrow> string option) \<Rightarrow> config \<Rightarrow> string
   \<Rightarrow> cred_disk \<Rightarrow> auth_listing" where
  "run_auth_list w k unjson stamp cfg target d =
     (case selected cfg target of
        Inl n \<Rightarrow> ListUnknown n
      | Inr ts \<Rightarrow>
          (case all_rows (store_rows w k unjson stamp d) ts of
             Inl e \<Rightarrow> ListFailed e
           | Inr [] \<Rightarrow>
               ListNone (if target \<noteq> [] then ''no registry credentials stored for '' @ target
                         else ''no registry credentials stored for any stack'')
           | Inr rows \<Rightarrow> ListTable ([''STACK'', ''HOST'', ''USERNAME'', ''ADDED''] # rows)))"

text \<open>
  \<open>runAuth\<close> after the flags, with the loaded configuration; \<open>lst\<close> and \<open>rm\<close> are \<open>--list\<close> and
  \<open>--remove\<close>.
\<close>

datatype auth_command = AuthList | AuthRemove string | AuthAdd bool

definition choose_auth :: "nat \<Rightarrow> string \<Rightarrow> bool \<Rightarrow> string \<Rightarrow> bool \<Rightarrow> auth_end + auth_command" where
  "choose_auth euid target lst rm force =
     (if lst \<and> rm \<noteq> [] then Inl (AuthUsage ''--list and --remove cannot be combined'')
      else if euid \<noteq> 0 then Inl (AuthNotRoot (''sudo dup auth'' @ auth_args_suffix target lst rm force))
      else Inr (if rm \<noteq> [] then AuthRemove rm else if lst then AuthList else AuthAdd force))"

section \<open>The password stays off the screen\<close>

text \<open>The terminal shows a line only while it echoes.\<close>

lemma echoes_off: "and (echo_off l) echo_flag = 0"
proof -
  have "and (echo_off l) echo_flag = and l (and (not echo_flag) echo_flag)"
    unfolding echo_off_def by (simp only: and.assoc)
  then show ?thesis by simp
qed

lemma read_string_silent:
  "\<not> echoes c \<Longrightarrow> read_string c = (lf, c') \<Longrightarrow> co_screen c' = co_screen c"
  by (auto simp: read_string_def Let_def)

lemma prompt_password_screen:
  assumes "prompt_password prompt c = (r, c')"
  shows "co_screen c' \<in> {co_screen c, co_screen c @ prompt, co_screen c @ prompt @ [chr 10]}"
proof (cases "co_tty c")
  case True
  obtain o1 c1 where g: "get_term_state (say prompt c) = (o1, c1)" by fastforce
  have s1: "co_screen c1 = co_screen c @ prompt" using g by (auto simp: get_term_state_def say_def)
  show ?thesis
  proof (cases o1)
    case None
    then show ?thesis using assms True g s1 by (simp add: prompt_password_def)
  next
    case (Some l)
    obtain ok c2 where t: "set_term_state (echo_off l) c1 = (ok, c2)" by fastforce
    have s2: "co_screen c2 = co_screen c @ prompt"
      using t s1 by (auto simp: set_term_state_def split: if_splits)
    have restored: "co_screen (say_line [] (snd (set_term_state l x))) = co_screen x @ [chr 10]" for x
      by (simp add: set_term_state_def say_line_def say_def)
    show ?thesis
    proof (cases ok)
      case ok: True
      then have "\<not> echoes c2"
        using t by (auto simp: set_term_state_def echoes_def echoes_off split: if_splits)
      obtain line failed c3 where rd: "read_string c2 = ((line, failed), c3)" by (metis surj_pair)
      have s3: "co_screen c3 = co_screen c @ prompt"
        using read_string_silent [OF \<open>\<not> echoes c2\<close> rd] s2 by simp
      have "c' = say_line [] (snd (set_term_state l c2)) \<or> c' = say_line [] (snd (set_term_state l c3))"
        using assms True g Some t ok rd by (auto simp: prompt_password_def split: if_splits)
      then show ?thesis using s2 s3 restored by auto
    next
      case False
      then show ?thesis using assms True g Some t s2 by (simp add: prompt_password_def)
    qed
  qed
qed (use assms in \<open>simp add: prompt_password_def\<close>)

text \<open>The mode is put back on every path, a signal included, unless the call that does it fails.\<close>

lemma prompt_password_mode:
  assumes "prompt_password prompt c = (r, c')" and "\<And>n. co_ioctls c + 2 \<le> n \<Longrightarrow> \<not> co_ioctl_fails c n"
  shows "co_lflag c' = co_lflag c"
  using assms(1) assms(2) [of "co_ioctls c + 2"]
  by (auto simp: prompt_password_def get_term_state_def set_term_state_def read_string_def say_line_def say_def Let_def
      split: if_splits prod.splits)

section \<open>Only verified logins are saved\<close>

lemma prompt_and_verify_saved:
  assumes "prompt_and_verify w st h c = (Inr (AuthSaved, st'), c')"
  shows "\<exists>user password. verdict w h user password = None \<and> set_cred st h user password = Inr st'"
  using assms
  by (auto simp: prompt_and_verify_def judge_login_def split: sum.splits prod.splits if_splits option.splits)

text \<open>What a credential file says, and a login saved over it.\<close>

definition store_in :: "cred_codec \<Rightarrow> (32 word \<times> string) option \<Rightarrow> store_error + docker_config" where
  "store_in k f = (case f of None \<Rightarrow> Inr new_docker_config | Some (m, raw) \<Rightarrow> parse_store k raw)"

definition login_saved ::
  "auth_world \<Rightarrow> bool \<Rightarrow> (32 word \<times> string) option \<Rightarrow> (32 word \<times> string) option \<Rightarrow> bool" where
  "login_saved w force f g \<longleftrightarrow>
     (\<exists>host h st st' user password body.
        normalise_host host = Inr h \<and> store_in (aw_codec w) f = Inr st \<and> (has st h \<longrightarrow> force)
        \<and> verdict w h user password = None \<and> set_cred st h user password = Inr st'
        \<and> marshal (aw_codec w) st' = Some body \<and> g = Some (file_mode, body))"

definition alone :: "auth_world \<Rightarrow> bool" where
  "alone w \<longleftrightarrow> (\<forall>h d. aw_meanwhile w h d = d)"

lemma read_store_in: "read_store s k p d = Inr st \<Longrightarrow> store_in k (cd_files d (config_path p)) = Inr st"
  by (auto simp: read_store_def store_in_def split: option.splits if_splits prod.splits)

text \<open>Saving a host, whatever others do to the disk while it prompts.\<close>

lemma auth_host_saved:
  assumes "store_dir b stack = Inr p" and "auth_host w p force host c d = (Inr AuthSaved, c', d')"
  shows "login_saved w force (cd_files d (config_path p)) (cd_files d' (config_path p))"
proof -
  obtain h st where h: "normalise_host host = Inr h" and st: "read_store (aw_sys w h) (aw_codec w) p d = Inr st"
    and free: "has st h \<longrightarrow> force"
    using assms(2) by (auto simp: auth_host_def split: sum.splits if_splits)
  then obtain st' c1 where v: "prompt_and_verify w st h c = (Inr (AuthSaved, st'), c1)"
    and wr: "write_store (aw_sys w h) (aw_codec w) st' p (aw_meanwhile w h d) = (None, d')"
    using assms(2) by (auto simp: auth_host_def split: sum.splits if_splits prod.splits option.splits)
  from prompt_and_verify_saved [OF v] obtain user password
    where "verdict w h user password = None" "set_cred st h user password = Inr st'" by blast
  with h free read_store_in [OF st] write_store_file(2) [OF assms(1) wr]
  show ?thesis unfolding login_saved_def by blast
qed

lemma auth_host_other:
  assumes "store_dir b stack = Inr p" and "alone w"
    and "auth_host w p force host c d = (r, c', d')" and "r \<noteq> Inr AuthSaved"
  shows "cd_files d' (config_path p) = cd_files d (config_path p)"
  using assms(2-4) write_store_file(1) [OF assms(1)]
  by (auto simp: auth_host_def alone_def split: sum.splits if_splits prod.splits option.splits)

lemma auth_hosts_saved:
  assumes "store_dir b stack = Inr p" and "alone w" and "auth_hosts w p force hs a c d = (r, c', d')"
  shows "rtranclp (login_saved w force) (cd_files d (config_path p)) (cd_files d' (config_path p))"
  using assms(3)
proof (induction hs arbitrary: a c d)
  case (Cons host hs)
  obtain o1 c1 d1 where h: "auth_host w p force host c d = (o1, c1, d1)" by (rule prod_cases3)
  have first: "rtranclp (login_saved w force) (cd_files d (config_path p)) (cd_files d1 (config_path p))"
  proof (cases "o1 = Inr AuthSaved")
    case True
    with auth_host_saved [OF assms(1)] h show ?thesis by blast
  next
    case False
    with auth_host_other [OF assms(1,2) h] show ?thesis by simp
  qed
  show ?case
  proof (cases o1)
    case (Inl e)
    then show ?thesis using Cons.prems h first by simp
  next
    case (Inr oc)
    with Cons.prems h have "auth_hosts w p force hs (count_auth oc a) c1 d1 = (r, c', d')" by simp
    from Cons.IH [OF this] first show ?thesis by (rule rtranclp_trans [rotated])
  qed
qed simp

lemma auth_target_saved:
  assumes "store_dir b stack = Inr (t_docker_cfg t)" and "alone w"
    and "auth_target w h cfg regs force t c d = (r, c', d')"
  shows "rtranclp (login_saved w force)
    (cd_files d (config_path (t_docker_cfg t))) (cd_files d' (config_path (t_docker_cfg t)))"
  using assms(3) auth_hosts_saved [OF assms(1,2)]
  by (auto simp: auth_target_def split: sum.splits if_splits prod.splits)

text \<open>Every host is counted once.\<close>

lemma auth_hosts_tally:
  assumes "auth_hosts w p force hs a c d = ((a', None), c', d')"
  shows "at_saved a' + at_skipped a' + at_failed a' = at_saved a + at_skipped a + at_failed a + length hs"
  using assms
proof (induction hs arbitrary: a c d)
  case (Cons host hs)
  obtain o1 c1 d1 where h: "auth_host w p force host c d = (o1, c1, d1)" by (rule prod_cases3)
  then obtain oc where "o1 = Inr oc" "auth_hosts w p force hs (count_auth oc a) c1 d1 = ((a', None), c', d')"
    using Cons.prems by (cases o1) auto
  with Cons.IH [OF this(2)] show ?case by (cases oc) (simp_all add: count_auth_def)
qed simp

section \<open>Removing a login\<close>

text \<open>What is left in the file when the command succeeds.\<close>

definition removed_ok ::
  "cred_codec \<Rightarrow> string \<Rightarrow> (32 word \<times> string) option \<Rightarrow> (32 word \<times> string) option \<Rightarrow> bool" where
  "removed_ok k h f g \<longleftrightarrow>
     (\<exists>st. store_in k f = Inr st
        \<and> (if \<not> has st h then g = f
           else if empty (fst (remove st h)) then g = None
           else \<exists>body. marshal k (fst (remove st h)) = Some body \<and> g = Some (file_mode, body)))"

lemma auth_remove_result:
  assumes "target_by_name cfg target = Some t" and "store_dir b stack = Inr (t_docker_cfg t)"
    and "normalise_host host = Inr h" and "target \<noteq> []" and "stored_file d t"
    and "run_auth_remove s k cfg target host c d = (AuthOk, c', d')"
  shows "removed_ok k h (cd_files d (config_path (t_docker_cfg t))) (cd_files d' (config_path (t_docker_cfg t)))"
proof -
  let ?p = "t_docker_cfg t"
  obtain st where st: "read_store s k ?p d = Inr st"
    using assms by (auto simp: run_auth_remove_def split: sum.splits)
  note si = read_store_in [OF st]
  show ?thesis
  proof (cases "has st h")
    case False
    then have "remove st h = (st, False)" by (simp add: remove_def has_def)
    with assms st False si show ?thesis by (auto simp: run_auth_remove_def removed_ok_def)
  next
    case True
    then obtain st' where r: "remove st h = (st', True)" by (auto simp: remove_def has_def)
    show ?thesis
    proof (cases "empty st'")
      case True
      obtain e d1 where dl: "delete_store s ?p d = (e, d1)" by fastforce
      with assms st r True have "e = None" "d' = d1" by (auto simp: run_auth_remove_def split: option.splits)
      with dl have "cd_files d' (config_path ?p) = None" by (auto simp: delete_store_def split: if_splits)
      with si \<open>has st h\<close> r True show ?thesis by (auto simp: removed_ok_def)
    next
      case False
      obtain e d1 where wr: "write_store s k st' ?p d = (e, d1)" by fastforce
      with assms st r False have "e = None" "d' = d1" by (auto simp: run_auth_remove_def split: option.splits)
      with wr write_store_file(2) [OF assms(2) wr] si \<open>has st h\<close> r False show ?thesis
        by (auto simp: removed_ok_def)
    qed
  qed
qed

end
