(* ===== verification/Cli_Notify.thy ===== *)
theory Cli_Notify
  imports Cli_Render Notify
begin

text \<open>
  \<open>cli/notify.go\<close>: \<open>dup notify\<close> posts a test to the webhook and explains the answer.  The HTTP
  exchange is the parameter \<open>http\<close> of \<open>notify_test\<close>; how long it took is \<open>took\<close>.
\<close>

definition test_snapshot :: "time \<Rightarrow> snapshot" where
  "test_snapshot now =
     \<lparr>sn_id = ''0000000000000000'', sn_target = ''dup-notify-test'', sn_state = StateDryRun,
      sn_message = ''test notification from dup notify, no stack was touched'', sn_trigger = ''cli'',
      sn_reason = ''dup notify'', sn_requested_tag = [], sn_dry_run = False, sn_changed = [],
      sn_before = [], sn_after = [], sn_steps = [], sn_progress = [], sn_started = now,
      sn_finished = Some now, sn_duration = 0\<rparr>"

definition print_notify_config :: "config \<Rightarrow> notifier \<Rightarrow> string list" where
  "print_notify_config c n =
     (let f = c_notify c;
          on = [e \<leftarrow> known_events. wants f e]; off = [e \<leftarrow> known_events. \<not> wants f e]
      in [''url      '' @ nf_url (nt_cfg n),
          if nt_detected n then ''format   '' @ nt_format n @ '', detected from the url as '' @ nt_resolved n
          else ''format   '' @ nt_resolved n @ '', set in the config'',
          ''timeout  '' @ duration_string (nf_timeout f),
          ''events   '' @ join '', '' on]
         @ (if off \<noteq> [] then [''  muted  '' @ join '', '' off] else [])
         @ [if nf_headers f = [] then ''headers  none''
            else ''headers  '' @ join '', '' (sort_strings (map fst (nf_headers f)))])"

text \<open>\<open>status\<close> is 0 when nothing answered.\<close>

definition print_notify_advice :: "host \<Rightarrow> config \<Rightarrow> string \<Rightarrow> nat \<Rightarrow> string list" where
  "print_notify_advice h c format status =
     [] # (if is_discord_webhook h (nf_url (c_notify c)) \<and> format \<noteq> ''discord'' then
        [''That is a discord webhook, and discord refuses any body without content,'',
         ''embeds or files. dup posts its own json, so discord answers 400. Set:'', [],
         ''  notify:'', ''    format: discord'', [], ''and dup posts the summary sentence instead.'']
      else if status = 401 \<or> status = 403 then
        [''The endpoint refused the credentials. Check notify.headers, which is where'',
         ''an auth token for the receiving end belongs.'']
      else if status = 404 then
        [''Nothing is listening at that path. A discord or n8n webhook url is'',
         ''revoked by deleting it, and then answers 404 rather than telling you.'']
      else if 500 \<le> status then
        [''The endpoint itself failed. dup does not retry a notification, so an'',
         ''update that finishes during an outage there is reported nowhere.'']
      else if status = 0 then
        [''Nothing answered. Check dns, the firewall, and that the agent host can'',
         ''reach it at all: curl -sS -X POST '' @ nf_url (c_notify c)]
      else
        [''The body above is what the endpoint said. dup does not retry, so a real'',
         ''update failing this way is reported nowhere but the journal.''])"

datatype notify_end =
    NotifyNoUrl string | NotifyUnbuilt | NotifyUnreached | NotifyUnreachedQuiet string
  | NotifyRejected nat | NotifyRejectedQuiet nat string | NotifyOk

definition took_text :: "duration \<Rightarrow> string" where
  "took_text took = duration_string (round_duration took millisecond)"

text \<open>
  \<open>encoded\<close> is the text of the body that is sent.  The command fails unless it ends with
  \<open>NotifyOk\<close>.
\<close>

definition run_notify ::
  "host \<Rightarrow> config \<Rightarrow> string \<Rightarrow> string \<Rightarrow> time \<Rightarrow> (posted \<Rightarrow> string + nat \<times> string) \<Rightarrow> (json \<Rightarrow> string)
   \<Rightarrow> duration \<Rightarrow> bool \<Rightarrow> string list \<times> notify_end" where
  "run_notify h c host_name cfg_file now http render took quiet =
     (if nf_url (c_notify c) = [] then ([], NotifyNoUrl cfg_file)
      else (case new_notifier h (c_notify c) host_name of
        None \<Rightarrow> ([], NotifyUnbuilt)
      | Some n \<Rightarrow>
          (let s = test_snapshot now;
               sent = render (encode_payload n (job_payload n now s (event_for (sn_state s)) True));
               intro = (if quiet then []
                        else print_notify_config c n
                          @ [[], ''sending '' @ nat_digits (length sent) @ '' bytes'', ''  '' @ clip_head sent 400])
           in case notify_test http n now s True of
                Inl e \<Rightarrow>
                  if quiet then (intro, NotifyUnreachedQuiet e)
                  else (intro @ [[], ''no response after '' @ took_text took, ''  '' @ e]
                          @ print_notify_advice h c (nt_resolved n) 0, NotifyUnreached)
              | Inr r \<Rightarrow>
                  if quiet then
                    (if \<not> result_ok r
                     then (intro, NotifyRejectedQuiet (nr_status r) (clip_head (nr_body r) 200))
                     else ([''delivered, '' @ nat_digits (nr_status r) @ '' in '' @ took_text took], NotifyOk))
                  else
                    (let body = trim_space (nr_body r);
                         answer = [[], ''response '' @ nat_digits (nr_status r) @ '' in '' @ took_text took,
                           if body \<noteq> [] then ''  '' @ clip_head body 400
                           else ''  (empty body, which is normal for a webhook that accepted it)'']
                     in if \<not> result_ok r
                        then (intro @ answer @ print_notify_advice h c (nt_resolved n) (nr_status r),
                              NotifyRejected (nr_status r))
                        else (intro @ answer @ [[], ''delivered.'']
                          @ (if nt_resolved n = ''discord'' then
                               [''Discord only accepts a message, so it got the summary sentence and nothing'',
                                ''machine readable. It says it is a test in the words, not in a field.'']
                             else
                               [''The receiving end got a payload marked \"test\": true, so it can tell this'',
                                ''apart from a real update.'']),
                              NotifyOk)))))"

section \<open>What the command promises\<close>

text \<open>Two configurations that differ in the values of their headers only.\<close>

definition same_but_headers :: "config \<Rightarrow> config \<Rightarrow> bool" where
  "same_but_headers c c' \<longleftrightarrow>
     (\<exists>hs. c' = c\<lparr>c_notify := (c_notify c)\<lparr>nf_headers := hs\<rparr>\<rparr> \<and> map fst hs = map fst (nf_headers (c_notify c)))"

lemma new_notifier_headers:
  "new_notifier h (cfg\<lparr>nf_headers := hs\<rparr>) name =
     map_option (\<lambda>n. n\<lparr>nt_cfg := cfg\<lparr>nf_headers := hs\<rparr>\<rparr>) (new_notifier h cfg name)"
  by (auto simp: new_notifier_def Let_def)

lemma payload_headers:
  "job_payload (n\<lparr>nt_cfg := f\<rparr>) now s ev t = job_payload n now s ev t"
  "encode_payload (n\<lparr>nt_cfg := f\<rparr>) p = encode_payload n p"
  by (simp_all add: job_payload_def build_payload_def encode_payload_def)

lemma wants_headers [simp]: "wants (f\<lparr>nf_headers := hs\<rparr>) = wants f"
  by (simp add: fun_eq_iff wants_def)

lemma post_headers:
  "post_of (n\<lparr>nt_cfg := (nt_cfg n)\<lparr>nf_headers := hs\<rparr>\<rparr>) p =
     (post_of n p)\<lparr>po_headers := po_headers (post_of (n\<lparr>nt_cfg := (nt_cfg n)\<lparr>nf_headers := hs\<rparr>\<rparr>) p)\<rparr>"
  by (simp add: post_of_def payload_headers)

lemma notify_config_headers:
  assumes "map fst hs = map fst (nf_headers (c_notify c))" and "nt_cfg n = c_notify c"
  shows "print_notify_config (c\<lparr>c_notify := (c_notify c)\<lparr>nf_headers := hs\<rparr>\<rparr>)
           (n\<lparr>nt_cfg := (c_notify c)\<lparr>nf_headers := hs\<rparr>\<rparr>) = print_notify_config c n"
proof -
  have "hs = [] \<longleftrightarrow> nf_headers (c_notify c) = []" using assms(1) by (metis map_is_Nil_conv)
  then show ?thesis using assms by (simp add: print_notify_config_def Let_def)
qed

text \<open>When the endpoint answers the same, so is the output: the values are not shown.\<close>

lemma notify_hides_headers:
  assumes "same_but_headers c c'" and "\<And>p hs. http (p\<lparr>po_headers := hs\<rparr>) = http p"
  shows "run_notify h c' name file now http render took quiet = run_notify h c name file now http render took quiet"
proof -
  obtain hs where c': "c' = c\<lparr>c_notify := (c_notify c)\<lparr>nf_headers := hs\<rparr>\<rparr>"
    and hs: "map fst hs = map fst (nf_headers (c_notify c))"
    using assms(1) by (auto simp: same_but_headers_def)
  show ?thesis
  proof (cases "new_notifier h (c_notify c) name")
    case None
    then show ?thesis by (simp add: run_notify_def c' new_notifier_headers)
  next
    case (Some n)
    then have nc: "nt_cfg n = c_notify c" by (auto simp: new_notifier_def Let_def split: if_splits)
    let ?n = "n\<lparr>nt_cfg := (c_notify c)\<lparr>nf_headers := hs\<rparr>\<rparr>"
    have "http (post_of ?n p) = http (post_of n p)" for p
      using post_headers [of hs n p] assms(2) nc by metis
    then have t: "notify_test http ?n now s True = notify_test http n now s True" for s
      by (simp add: notify_test_def notify_deliver_def payload_headers)
    have a: "print_notify_advice h c' f st = print_notify_advice h c f st" for f st
      by (simp add: print_notify_advice_def c')
    show ?thesis
      using Some nc notify_config_headers [OF hs nc] t a
      by (cases quiet; cases "notify_test http n now (test_snapshot now) True")
        (simp_all add: run_notify_def c' new_notifier_headers payload_headers Let_def)
  qed
qed

text \<open>The command succeeds exactly when the endpoint accepted the test, and the test says it is one.\<close>

lemma notify_ok:
  assumes "run_notify h c name file now http render took quiet = (out, NotifyOk)"
  shows "\<exists>n p code body. new_notifier h (c_notify c) name = Some n
    \<and> p = job_payload n now (test_snapshot now) (event_for StateDryRun) True
    \<and> http (post_of n p) = Inr (code, body) \<and> 0 < code \<and> code < 300"
proof -
  obtain n where n: "new_notifier h (c_notify c) name = Some n"
    using assms by (auto simp: run_notify_def split: if_splits option.splits)
  then obtain r where "notify_test http n now (test_snapshot now) True = Inr r" "result_ok r"
    using assms by (auto simp: run_notify_def Let_def split: if_splits sum.splits)
  with n show ?thesis
    by (auto simp: notify_test_def notify_deliver_def test_snapshot_def result_ok_def split: sum.splits prod.splits)
qed

text \<open>
  A chat format carries the summary only, yet the closing words are those for the full payload:
  \<open>The receiving end got a payload marked test\<close>.
\<close>

lemma chat_test_unmarked:
  assumes "new_notifier h (c_notify c) name = Some n" and "nt_resolved n \<in> {''slack'', ''google-chat'', ''teams''}"
    and "run_notify h c name file now http render took False = (out, NotifyOk)"
  shows "encode_payload n p = JObj [(''text'', JStr (pl_summary p))]
    \<and> ''The receiving end got a payload marked \"test\": true, so it can tell this'' \<in> set out"
proof -
  have url: "nf_url (c_notify c) \<noteq> []" using assms(1) by (auto simp: new_notifier_def)
  have "nt_resolved n \<noteq> ''discord''" using assms(2) by auto
  then show ?thesis
    using assms url
    by (auto simp: encode_payload_def run_notify_def Let_def simp del: char_of_eq_iff split: sum.splits if_splits)
qed

end
