(* ===== verification/Sample_Cli.thy ===== *)
theory Sample_Cli
  imports Sample_World Cli_Auth Cli_Check Cli_Notify
begin

text \<open>Concrete inputs for the properties of the command line.\<close>

section \<open>Credentials\<close>

definition sample_auth :: auth_world where
  "sample_auth =
     \<lparr>aw_web = (\<lambda>h. sample_web (\<lambda>n. reg_answer 200 [] [])), aw_sys = (\<lambda>h. calm_calls),
      aw_meanwhile = (\<lambda>h d. d), aw_codec = single_codec sample_store, aw_verify_text = (\<lambda>e. [])\<rparr>"

definition sample_stack :: target where
  "sample_stack = sample_target\<lparr>t_docker_cfg := ''/etc/dup/web''\<rparr>"

definition sample_regs :: "string \<Rightarrow> net_error + images_result" where
  "sample_regs n = Inr \<lparr>ir_images = [], ir_registries = [''r.example'']\<rparr>"

definition sample_console :: console where
  "sample_console =
     \<lparr>co_input = ''u'' @ [chr 10] @ ''p'' @ [chr 10], co_broken = False, co_tty = True, co_lflag = 8,
      co_screen = [], co_ioctls = 0, co_ioctl_fails = (\<lambda>n. False), co_signal = (\<lambda>n. False)\<rparr>"

lemma sample_alone: "alone sample_auth"
  by (simp add: alone_def sample_auth_def)

lemma sample_prompts:
  "fst (prompt_and_verify sample_auth new_docker_config ''r.example'' (say_line ''app'' sample_console)) =
     Inr (AuthSaved, sample_store)"
  by code_simp

section \<open>A configuration that loads\<close>

definition sample_config :: config where
  "sample_config =
     \<lparr>c_listen = [], c_allow_non_loopback = True,
      c_tls = \<lparr>tls_enabled = None, tls_cert_file = [], tls_key_file = [], tls_self_signed = False, tls_hosts = []\<rparr>,
      c_cors_origins = [], c_allow_from_raw = [], c_trusted_proxies_raw = [], c_agent_socket = [],
      c_agent_peer_user = ''dup'', c_log_level = [], c_log_file = [], c_log_max_size_mb = 0, c_log_keep = 0,
      c_history_file = [], c_docker_config_dir = [], c_history_max_size_mb = 0, c_history_keep = 0,
      c_auth = \<lparr>au_bearer_token = replicate 32 (CHR ''t''), au_bearer_token_file = [], au_github_secret = [],
                au_github_secret_file = [], au_bearer = [], au_gh_secret = []\<rparr>,
      c_defaults = \<lparr>df_check_interval = 0, df_soak = None, df_pull_timeout = 0, df_health_timeout = 0,
                    df_job_timeout = 0, df_stability_window = 0, df_rollback = None\<rparr>,
      c_notify = \<lparr>nf_url = [], nf_format = [], nf_timeout = 0, nf_headers = [], nf_events = []\<rparr>,
      c_targets = [], c_fingerprint = [], c_by_name = [], c_allow_from = [], c_trusted_proxies = [],
      c_warnings = []\<rparr>"

lemma sample_secret: "trim_space (replicate 32 (CHR ''t'')) = replicate 32 (CHR ''t'')" "trim_space [] = []"
  by code_simp+

lemma sample_defaults:
  "clean default_docker_cfg = default_docker_cfg" "is_abs default_docker_cfg" "is_abs default_agent_socket"
  "is_abs default_log_file" "is_abs default_history_file" "default_log_file \<noteq> ''none''" "default_history_file \<noteq> ''none''"
  "length default_agent_socket \<le> max_socket_path_len" "split_host_port default_listen \<noteq> None"
  by code_simp+

lemma sample_apply:
  "\<exists>c. apply_defaults sample_config = Inr c \<and> c_listen c = default_listen \<and> c_allow_non_loopback c
     \<and> \<not> tls_is_enabled (c_tls c) \<and> c_agent_peer_user c = ''dup'' \<and> c_auth c = c_auth sample_config
     \<and> c_targets c = [] \<and> nf_url (c_notify c) = [] \<and> c_allow_from_raw c = [] \<and> c_trusted_proxies_raw c = []
     \<and> c_cors_origins c = []"
  using sample_defaults
  by (simp add: apply_defaults_def sample_config_def if_empty_def none_off_def default_durations_def
      default_tls_def tls_is_enabled_def minute_def second_def Let_def)

lemma sample_resolves:
  "c_auth c = c_auth sample_config \<Longrightarrow> \<exists>a. resolve_secrets bare_host c = Inr (c\<lparr>c_auth := a\<rparr>)"
  using sample_secret
  by (simp add: resolve_secrets_def resolve_secret_def sample_config_def getenv_def bare_host_def min_secret_len_def Let_def)
    blast

lemma sample_loads:
  "\<exists>c. load_config bare_host True True sample_config = Inr c
     \<and> c_agent_peer_user c = ''dup'' \<and> check_listen bare_host c = None \<and> \<not> tls_is_enabled (c_tls c)"
proof -
  obtain c where c: "apply_defaults sample_config = Inr c" "c_listen c = default_listen" "c_allow_non_loopback c"
      "\<not> tls_is_enabled (c_tls c)" "c_agent_peer_user c = ''dup''" "c_auth c = c_auth sample_config"
      "c_targets c = []" "nf_url (c_notify c) = []" "c_allow_from_raw c = []" "c_trusted_proxies_raw c = []"
      "c_cors_origins c = []"
    using sample_apply by blast
  obtain a where a: "resolve_secrets bare_host c = Inr (c\<lparr>c_auth := a\<rparr>)" using sample_resolves [OF c(6)] by blast
  show ?thesis
    using c a sample_defaults(9)
    by (auto simp: load_config_def validate_notify_def validate_networks_def validate_targets_def check_listen_def
        split: option.split)
qed

lemma sample_check: "\<exists>out. run_check k bare_host sample_config path health = CheckOk out"
  using sample_loads by (auto simp: run_check_def)

section \<open>A save that succeeds\<close>

lemma sample_auth_saves:
  "\<exists>a c' d' body. auth_target sample_auth bare_host sample_config sample_regs False sample_stack sample_console bare_disk
       = ((a, None), c', d') \<and> at_saved a = 1
     \<and> cd_files d' (config_path ''/etc/dup/web'') = Some (file_mode, body)"
proof -
  have t: "t_docker_cfg sample_stack = ''/etc/dup/web''" "t_name sample_stack = ''app''"
    by (simp_all add: sample_stack_def sample_target_def)
  have read: "read_store calm_calls k ''/etc/dup/web'' bare_disk = Inr new_docker_config" for k
    by (simp add: read_store_def sample_paths bare_disk_def)
  obtain c1 where v: "prompt_and_verify sample_auth new_docker_config ''r.example'' (say_line ''app'' sample_console)
      = (Inr (AuthSaved, sample_store), c1)"
    using sample_prompts by (metis prod.collapse)
  obtain d' where w: "write_store calm_calls (single_codec sample_store) sample_store ''/etc/dup/web'' bare_disk = (None, d')"
    using sample_write by (cases "write_store calm_calls (single_codec sample_store) sample_store ''/etc/dup/web'' bare_disk") simp
  have world: "aw_sys sample_auth h = calm_calls" "aw_meanwhile sample_auth h d = d"
    "aw_codec sample_auth = single_codec sample_store" for h d
    by (simp_all add: sample_auth_def)
  have "auth_host sample_auth ''/etc/dup/web'' False ''r.example'' (say_line ''app'' sample_console) bare_disk
      = (Inr AuthSaved, say_line ''    saved'' c1, d')"
    using v w read by (simp add: auth_host_def sample_host world has_def new_docker_config_def)
  then have "auth_target sample_auth bare_host sample_config sample_regs False sample_stack sample_console bare_disk
      = ((count_auth AuthSaved no_tally, None), say_line ''    saved'' c1, d')"
    by (simp add: auth_target_def resolve_hosts_def sample_regs_def t)
  moreover obtain body where "cd_files d' (config_path ''/etc/dup/web'') = Some (file_mode, body)"
    using write_store_file(2) [OF sample_paths(1) w] by blast
  ultimately show ?thesis by (intro exI conjI) (assumption, simp add: count_auth_def no_tally_def, assumption)
qed

text \<open>
  What another process saves while the prompts wait is lost, however much it is: the store that
  is written is the one read before them.
\<close>

lemma concurrent_saves_lost:
  assumes "store_dir b stack = Inr p" and "auth_host w p force host c d = (Inr AuthSaved, c', d')"
  shows "\<exists>h st st' user password body.
      store_in (aw_codec w) (cd_files d (config_path p)) = Inr st \<and> set_cred st h user password = Inr st'
    \<and> marshal (aw_codec w) st' = Some body \<and> cd_files d' (config_path p) = Some (file_mode, body)"
  using auth_host_saved [OF assms] unfolding login_saved_def by blast

section \<open>Certificates\<close>

definition sample_crypto :: cert_crypto where
  "sample_crypto =
     \<lparr>cy_new_key = Some 1, cy_serial = Some 2, cy_create = (\<lambda>t k. Some ''c''), cy_marshal_key = (\<lambda>k. Some ''k''),
      cy_pem = (\<lambda>t der. t @ der), cy_unpem = (\<lambda>s. None), cy_parse = (\<lambda>s. None), cy_sha256 = (\<lambda>s. []),
      cy_show_ip = (\<lambda>a. [])\<rparr>"

text \<open>Every call works, except, when asked for, the rename of the key.\<close>

definition sample_pem :: "bool \<Rightarrow> pem_world" where
  "sample_pem broken =
     \<lparr>pw_fails = (\<lambda>c p. broken \<and> c = PemRename \<and> p = default_key_file @ ''.tmp''), pw_written = 0,
      pw_umask = 18, pw_euid = 0, pw_egid = 0\<rparr>"

lemma default_apart: "apart default_cert_file default_key_file"
  by (simp add: apart_def default_cert_file_def default_key_file_def)

lemma sample_generate:
  "\<exists>r d'. generate sample_crypto (sample_pem False) bare_host 0 0 default_cert_file default_key_file [''h''] 7 (\<lambda>p. None)
     = (Inr r, d')"
  by (simp add: generate_def write_pem_def sample_crypto_def sample_pem_def Let_def)

text \<open>
  The certificate is installed before the key: when the key cannot be, the old key stays beside
  a certificate for another one.
\<close>

lemma sample_mismatch:
  "\<exists>e d'. generate sample_crypto (sample_pem True) bare_host 0 0 default_cert_file default_key_file [''h''] 7 d = (Inl e, d')
     \<and> (\<exists>t. new_cert sample_crypto (sample_pem True) 1 t 7 (d' default_cert_file))
     \<and> d' default_key_file = d default_key_file"
  by (rule exI, rule exI)
    (auto simp: generate_def write_pem_def new_cert_def owned_def sample_crypto_def sample_pem_def Let_def
      default_cert_file_def default_key_file_def pem_open_def)

section \<open>An update and two notifications\<close>

definition sample_client :: "client_fault + api_client" where
  "sample_client = Inr \<lparr>ap_base = ''http://127.0.0.1:7788'', ap_token = ''t'', ap_root_cert = None\<rparr>"

definition sample_update :: update_request where
  "sample_update = \<lparr>ub_tag = [], ub_reason = [], ub_dry_run = False, ub_force = False\<rparr>"

lemma sample_update_done:
  "run_update_command (sample_config\<lparr>c_by_name := [(''app'', sample_target)]\<rparr>) sample_client (\<lambda>s. None) (\<lambda>t. [])
     ''app'' sample_update 0 (\<lambda>p r. Inr sample_snapshot) 0 [] = UpdateDone"
proof -
  have "sn_id sample_snapshot = ''i''" "sn_state sample_snapshot = StateSucceeded"
    by (simp_all add: sample_snapshot_def snapshot_of_def new_job_def)
  then show ?thesis
    by (simp add: run_update_command_def sample_client_def target_by_name_def end_of_update_def terminal_def state_ok_def)
qed

definition sample_headers :: "string \<Rightarrow> config" where
  "sample_headers v =
     sample_config\<lparr>c_notify := \<lparr>nf_url = ''http://h/x'', nf_format = [], nf_timeout = second,
       nf_headers = [(''Authorization'', v)], nf_events = []\<rparr>\<rparr>"

section \<open>A history with one job\<close>

definition sample_finished_job :: snapshot where
  "sample_finished_job = sample_snapshot\<lparr>sn_id := ''0123456789abcdef''\<rparr>"

lemma sample_history:
  assumes "terminal (sn_state s)"
  shows "\<exists>w d w' d'. history_open all_fine ''/h'' 9 2 empty_disk = (Inr w, d)
    \<and> append_all all_fine (\<lambda>s. ''{'') [s] (w, d) = (w', d') \<and> glob_ok d' ''/h'' []"
proof -
  have nf: "no_faults all_fine" by (simp add: no_faults_def all_fine_def)
  obtain w d where o: "history_open all_fine ''/h'' 9 2 empty_disk = (Inr w, d)" "holds w d ([], [])"
      "ds_files d = [''/h'' \<mapsto> Plain []]" "wr_path w = ''/h''"
    using rotate_open_holds [OF nf, of "''/h''" 2 empty_disk 9]
    by (auto simp: history_open_def is_abs_def empty_disk_def)
  obtain w' d' where run: "append_all all_fine (\<lambda>s. ''{'') [s] (w, d) = (w', d')"
    by (metis surj_pair)
  have "ds_files d' f = ds_files d f" if "f \<noteq> ''/h''" for f
    using run assms that o(2,4) nf
    by (auto simp: history_append_def rotate_write_def holds_def append_file_def Let_def)
  then have "glob_ok d' ''/h'' []" using o(3) match_not_own by (force simp: glob_ok_def)
  with o(1) run show ?thesis by blast
qed

lemma sample_line: "list_all (line_ok (\<lambda>s. ''{'') (\<lambda>l. Some s)) [s]"
  by (simp add: line_ok_def newline_char_def max_line_def chr_def char_of_def)

end
