(* ===== verification/Sample_Life.thy ===== *)
theory Sample_Life
  imports Lifecycle Agent_Main Sample_Cli
begin

text \<open>
  Concrete lives of the two processes: a service that stops with a job finished and not yet
  recorded, and an agent whose caller and socket are given.
\<close>

lemma sample_started_running:
  "\<exists>n. s_running (se_store (sample_started w l)) = [(n, 0)]"
  by (simp add: sample_started_def service_round_def watch_round_def tick_def service_busy_def service_init_def
      manager_busy_def store_running_def new_store_def note_recovered_def mark_broken_def sample_answer_def
      offer_def mark_def set_last_def new_sched_def Let_def ready_at_def sample_target_def apply_pending_def
      service_start_def manager_start_def store_begin_def auto_request_def clear_def fold_posts new_job_def
      split: prod.split)

lemma sample_unrecorded:
  "\<exists>sv. service_reachable w (Some h) sv \<and> s_running (se_store sv) = [] \<and> to_record (se_tails sv) \<noteq> []"
proof -
  let ?s = "sample_started w (Some h)"
  have r: "service_reachable w (Some h) ?s"
    unfolding sample_started_def
    by (rule service_reachable.step [OF service_reachable.init service_step.round])
      (simp add: fresh_id_def service_init_def new_store_def)
  obtain j where j: "s_heap (se_store ?s) 0 = Some j" "\<not> terminal (j_state j)"
    using sample_started_job [of w "Some h"] by auto
  have inv: "store_inv (se_store ?s)" using store_reachable_inv service_store_reachable r by blast
  let ?res = "Inr (StateSucceeded, [])"
  have t: "terminal (fst (run_result ?res))" by (simp add: run_result_def)
  obtain as st' where d: "manager_done (wired_manager w ?s) 5 0 ?res (se_store ?s) = Some (as, st')"
    using manager_done_actions [OF inv j] by blast
  let ?t = "?s\<lparr>se_store := st', se_tails := se_tails ?s @ [as]\<rparr>"
  have "service_done w 5 0 ?res ?s = Some ?t" using d by (simp add: service_done_def)
  then have reach: "service_reachable w (Some h) ?t"
    using service_reachable.step [OF r service_step.complete [OF j t]] by blast
  obtain st1 where f: "store_finish 5 0 (fst (run_result ?res)) (snd (run_result ?res)) (se_store ?s) = Some st1"
      "st' = store_unregister 0 st1"
    using manager_done_steps [OF d] .
  obtain j' where j': "finish 5 (fst (run_result ?res)) (snd (run_result ?res)) j = Some j'"
      "st1 = (se_store ?s)\<lparr>s_heap := (s_heap (se_store ?s))(0 \<mapsto> j')\<rparr>"
    using store_finish_job [OF f(1)] j(1) by auto
  obtain n where n: "s_running (se_store ?s) = [(n, 0)]" using sample_started_running by blast
  have "j_target j' = n"
    using running_registered [OF inv j] n finish_frame [OF j'(1)] by (auto split: if_splits)
  then have "s_running st' = []"
    using store_unregister_running [OF store_finish_inv [OF inv f(1) t], of 0 j'] f(2) j'(2) n
    by (simp add: al_del_def)
  moreover have "se_log ?s = Some h"
    using service_round_only [of "''i''" "service_init (Some h)" w]
    by (simp add: sample_started_def starts_only_def fresh_id_def service_init_def new_store_def)
  then have "to_record [as] \<noteq> []"
    using done_finished [OF d j t inv] by (auto simp: wired_manager_def recorded_by_def List.map_filter_def)
  ultimately show ?thesis using reach by (intro exI [of _ ?t]) simp
qed

text \<open>A service that was told to stop before it did anything.\<close>

lemma idle_draining:
  "life_reachable w h \<lparr>li_service = service_init h, li_phase = Draining None\<rparr>"
proof -
  let ?l = "\<lambda>p. \<lparr>li_service = service_init h, li_phase = p\<rparr>"
  have "life_step w (?l Serving) (?l ShuttingDown)" "life_step w (?l ShuttingDown) (?l (Draining None))"
    using life_step.main [of "?l Serving" ShuttingDown] life_step.main [of "?l ShuttingDown" "Draining None"]
    by (simp_all add: main_step.signalled main_step.shut)
  then show ?thesis using life_reachable.intros by blast
qed

section \<open>A caller of the agent\<close>

definition sample_conn :: conn where
  "sample_conn = \<lparr>cn_unix = True, cn_raw = True, cn_control = True, cn_cred_error = False, cn_cred = Some 7\<rparr>"

lemma sample_check_gate:
  "check_gate (agent_server Linux (sample_config\<lparr>c_by_name := [(''app'', sample_target)]\<rparr>) 7 [] 0)
     (Inl NoAuthMethod) (\<lambda>b. Inr ''app'') (peer_of Linux (Some sample_conn)) [] = Inr sample_target"
  by (simp add: check_gate_def authorise_peer_def agent_server_def require_peer_uid_def with_config_path_def
      new_server_def peer_of_def peer_uid_def peer_uid_linux_def sample_conn_def peer_cred_supported_def
      decode_body_def max_body_bytes_def find_target_def target_by_name_def)

end
