(* ===== verification/Remote.thy ===== *)
theory Remote
  imports Agentd Manager
begin

text \<open>
  An update end to end: the service's client posts to the root agent, the agent runs the
  pipeline and streams its sink calls, the client replays them on the service's job, and the
  manager finishes that job.  The response of a handler is what \<open>net/http\<close> delivers of it.
\<close>

section \<open>From handler to client\<close>

text \<open>\<open>enc\<close> is the JSON body that \<open>writeError\<close> writes for a message.\<close>

definition exec_response :: "(string \<Rightarrow> string) \<Rightarrow> wire_event list reply \<Rightarrow> response" where
  "exec_response enc rep =
     (case rep of
        Refused n e \<Rightarrow> \<lparr>rp_status = n, rp_body = enc e, rp_stream = []\<rparr>
      | Reply es \<Rightarrow> \<lparr>rp_status = 200, rp_body = [], rp_stream = map (Inr \<circ> transmit) es\<rparr>)"

definition stamped :: "(nat \<Rightarrow> time) \<Rightarrow> sink_call list \<Rightarrow> (time \<times> sink_call) list" where
  "stamped clk cs = zip (map clk [0..<length cs]) cs"

lemma stamped_calls [simp]: "map snd (stamped clk cs) = cs"
  by (simp add: stamped_def)

lemma completed_transmit [simp]: "completed (map transmit_call cs) = map to_valid (completed cs)"
  by (induction cs rule: completed.induct) (auto simp: transmit_step_def)

lemma closes_run_update: "closes None (run_update fuel d t req)"
  unfolding run_update_def by (rule closes_then [OF moves_with_timeout closes_pipeline])

lemma emits_run_update: "emits (run_update fuel d t req) (pipeline_ok t (job_request_of req))"
  unfolding run_update_def
  by (rule emits_bind [OF emits_with_timeout]) (simp add: emits_mono [OF pipeline_spec])

lemma run_update_paired:
  assumes "run_state (run_update fuel d t req) s = (Some v, s')"
  shows "paired (calls (new_events s s'))"
  using closes_run_update [of fuel d t req] assms
  unfolding closes_def paired_def new_events_def by fastforce

text \<open>A reply of the exec handler is the stream of one pipeline run, which all its gates let through.\<close>

definition exec_allowed ::
  "agent \<Rightarrow> (string \<Rightarrow> string + exec_request) \<Rightarrow> peer \<Rightarrow> string \<Rightarrow> target \<Rightarrow> exec_request \<Rightarrow> bool" where
  "exec_allowed s dec p body t req \<longleftrightarrow>
     authorise_peer s p = None \<and> length body \<le> max_body_bytes \<and> dec body = Inr req
     \<and> target_by_name (ag_cfg s) (ex_target req) = Some t \<and> validate_tag t (ex_tag req) = None"

lemma exec_gate_allowed: "exec_gate s cur dec p body = Inr (t, req) \<longleftrightarrow> exec_allowed s dec p body t req"
  by (auto simp: exec_gate_def exec_allowed_def decode_body_def find_target_def
      split: option.splits sum.splits if_splits)

lemma handle_exec_reply:
  assumes "handle_exec fuel d s cur dec p body lr = (Some (Reply es), l', r')"
  obtains t req v where "exec_allowed s dec p body t req"
    and "run_state (run_update fuel d t req) (snd lr) = (Some v, r')"
    and "es = exec_stream (calls (new_events (snd lr) r')) v"
  using assms
  by (auto simp: handle_exec_def new_events_def exec_gate_allowed
      split: sum.splits prod.splits option.splits)

lemma handle_exec_refused:
  "handle_exec fuel d s cur dec p body lr = (Some (Refused n e), l', r') \<Longrightarrow> l' = fst lr \<and> r' = snd lr"
  by (auto simp: handle_exec_def enter_refused split: sum.splits prod.splits option.splits)

section \<open>The service's job\<close>

definition remote_job ::
  "(nat \<Rightarrow> time) \<Rightarrow> sink_call list \<times> (string + job_state \<times> string) \<Rightarrow> job \<Rightarrow> job" where
  "remote_job clk got j = apply_calls (stamped clk (fst got)) j"

definition remote_ok ::
  "(nat \<Rightarrow> time) \<Rightarrow> job \<Rightarrow> target \<Rightarrow> exec_request \<Rightarrow> event list
   \<Rightarrow> sink_call list \<times> (string + job_state \<times> string) \<Rightarrow> bool" where
  "remote_ok clk j t req es got \<longleftrightarrow>
     (\<exists>new st msg. snd got = Inr (transmit_state st, to_valid msg)
        \<and> outcome_ok t (job_request_of req) st msg es
        \<and> j_steps (remote_job clk got j) = j_steps j @ new
        \<and> map st_name new = map to_valid (completed (calls es))
        \<and> list_all (\<lambda>s. \<not> st_running s) new)"

lemma remote_update:
  assumes "run_state (run_update fuel d t req) r = (Some v, r')"
  shows "remote_ok clk j t req (new_events r r')
    (client_update sock dec (Inr (exec_response enc (Reply (exec_stream (calls (new_events r r')) v)))))"
proof -
  let ?cs = "calls (new_events r r')"
  obtain st msg where v: "v = (st, msg)" by fastforce
  have got: "client_update sock dec (Inr (exec_response enc (Reply (exec_stream ?cs v))))
      = (map transmit_call ?cs, Inr (transmit_state st, to_valid msg))"
    by (simp add: client_update_def exec_response_def v consume_stream)
  have "paired (map transmit_call ?cs)" using run_update_paired [OF assms] by (rule paired_transmit)
  then obtain new where
      "j_steps (apply_calls (stamped clk (map transmit_call ?cs)) j) = j_steps j @ new"
      "map st_name new = map to_valid (completed ?cs)" "\<forall>s \<in> set new. \<not> st_running s"
    using paired_steps [of "stamped clk (map transmit_call ?cs)" j] by auto
  moreover have "outcome_ok t (job_request_of req) st msg (new_events r r')"
    using emits_new [OF emits_run_update [of fuel d t req], of r] assms v by (simp add: pipeline_ok_outcome)
  ultimately show ?thesis
    unfolding got by (auto simp: remote_ok_def remote_job_def list_all_iff)
qed

text \<open>What the whole handler guarantees to the service.\<close>

definition handled_ok ::
  "agent \<Rightarrow> (string \<Rightarrow> string + exec_request) \<Rightarrow> peer \<Rightarrow> string \<Rightarrow> (nat \<Rightarrow> time) \<Rightarrow> job
   \<Rightarrow> (wire_event list reply \<Rightarrow> sink_call list \<times> (string + job_state \<times> string))
   \<Rightarrow> 'w run \<Rightarrow> wire_event list reply option \<times> locks \<times> 'w run \<Rightarrow> bool" where
  "handled_ok s dec p body clk j client r out \<longleftrightarrow>
     (case out of
        (None, _) \<Rightarrow> True
      | (Some (Refused n e), _, r') \<Rightarrow> r' = r
      | (Some (Reply es), _, r') \<Rightarrow>
          (\<exists>t req. exec_allowed s dec p body t req
             \<and> remote_ok clk j t req (new_events r r') (client (Reply es))))"

lemma handle_exec_handled:
  "handled_ok s dec p body clk j (\<lambda>rep. client_update sock dec' (Inr (exec_response enc rep))) r
     (handle_exec fuel d s cur dec p body (l, r))"
proof -
  obtain a l' r' where h: "handle_exec fuel d s cur dec p body (l, r) = (a, l', r')" by (metis surj_pair)
  show ?thesis
  proof (cases a)
    case (Some rep)
    show ?thesis
    proof (cases rep)
      case (Refused n e)
      with h Some handle_exec_refused [of fuel d s cur dec p body "(l, r)" n e l' r']
      show ?thesis by (simp add: handled_ok_def)
    next
      case (Reply es)
      with h Some obtain t req v where "exec_allowed s dec p body t req"
          "run_state (run_update fuel d t req) r = (Some v, r')"
          "es = exec_stream (calls (new_events r r')) v"
        by (auto elim: handle_exec_reply)
      then show ?thesis
        using h Some Reply remote_update [of fuel d t req r v r' clk j sock dec' enc]
        by (auto simp: handled_ok_def)
    qed
  qed (simp add: handled_ok_def h)
qed

end
