(* ===== verification/Update_Cache.thy ===== *)
theory Update_Cache
  imports Selfupdate Credfile Safe_Install
begin

text \<open>
  \<open>writeCache\<close> of \<open>selfupdate/cache.go\<close>, on the disk of \<open>Credfile\<close>: best effort, so its result is
  only what it leaves on the disk; the flag tells the proofs whether the cache was replaced.
  \<open>render\<close> and \<open>parse\<close> are \<open>json.Marshal\<close> and \<open>json.Unmarshal\<close>.  Then whole checks, one after
  another on one disk, each with its own faults.
\<close>

definition default_cache :: string where "default_cache = ''/var/lib/dup/update-check.json''"

definition cache_file_mode :: "32 word" where "cache_file_mode = 0x1A4"
definition cache_dir_mode :: "32 word" where "cache_dir_mode = 0x1ED"

definition cache_mkdir :: "sys_world \<Rightarrow> string \<Rightarrow> cred_disk \<Rightarrow> bool \<times> cred_disk" where
  "cache_mkdir w p d =
     (let chain = rev (with_ancestors p);
          missing = [q \<leftarrow> chain. cd_dirs d q = None];
          mode = and cache_dir_mode (not (sw_umask w))
      in if list_ex (\<lambda>q. cd_files d q \<noteq> None) chain then (False, d)
         else if sw_fails w (SysMkdir p) then (False, put_dirs (take (sw_made w) missing) mode d)
         else (True, put_dirs missing mode d))"

definition cache_temp :: "string \<Rightarrow> nat \<Rightarrow> string" where
  "cache_temp p n = (if has_suffix p [slash] then p else p @ [slash]) @ ''.update-check-'' @ nat_digits n"

text \<open>The first random name that is not taken, as \<open>os.CreateTemp\<close>.\<close>

definition cache_create_temp :: "sys_world \<Rightarrow> string \<Rightarrow> cred_disk \<Rightarrow> string option" where
  "cache_create_temp w p d =
     (if sw_fails w SysCreateTemp then None
      else map_option (cache_temp p)
        (find (\<lambda>n. cd_files d (cache_temp p n) = None \<and> cd_dirs d (cache_temp p n) = None) (sw_random w)))"

text \<open>From the open temporary file on; the flag tells whether the cache was replaced.\<close>

definition cache_install :: "sys_world \<Rightarrow> string \<Rightarrow> string \<Rightarrow> string \<Rightarrow> cred_disk \<Rightarrow> bool \<times> cred_disk" where
  "cache_install w path tmp raw d =
     (let private = and file_mode (not (sw_umask w)); d0 = put_cred_file tmp (Some (private, [])) d in
      if sw_fails w SysWrite then (False, put_cred_file tmp (Some (private, take (sw_written w) raw)) d0)
      else let d1 = put_cred_file tmp (Some (private, raw)) d0
      in if sw_fails w SysClose then (False, d1)
      else if sw_fails w (SysChmod tmp) then (False, d1)
      else let d2 = put_cred_file tmp (Some (cache_file_mode, raw)) d1
      in if sw_fails w SysRename \<or> cd_dirs d2 path \<noteq> None then (False, d2)
      else (True, put_cred_file tmp None (put_cred_file path (Some (cache_file_mode, raw)) d2)))"

definition write_cache ::
  "sys_world \<Rightarrow> (update_cache \<Rightarrow> string option) \<Rightarrow> string \<Rightarrow> update_cache \<Rightarrow> cred_disk \<Rightarrow> bool \<times> cred_disk" where
  "write_cache w render path cf d =
     (if path = [] then (False, d)
      else (case cache_mkdir w (dir path) d of
        (False, d1) \<Rightarrow> (False, d1)
      | (True, d1) \<Rightarrow>
     (case render cf of
        None \<Rightarrow> (False, d1)
      | Some raw \<Rightarrow>
     (case cache_create_temp w (dir path) d1 of
        None \<Rightarrow> (False, d1)
      | Some tmp \<Rightarrow>
          (case cache_install w path tmp raw d1 of (ok, d2) \<Rightarrow> (ok, remove_temp w tmp d2))))))"

section \<open>The cache is installed safely\<close>

definition cache_text :: "string \<Rightarrow> cred_disk \<Rightarrow> (32 word \<times> string) option" where
  "cache_text path d = cd_files d path"

lemma cache_mkdir_files: "cache_mkdir w p d = (b, d') \<Longrightarrow> cd_files d' = cd_files d"
  by (auto simp: cache_mkdir_def Let_def split: if_splits)

text \<open>The cache has no name that a temporary file can get.\<close>

definition cache_path_ok :: "string \<Rightarrow> bool" where
  "cache_path_ok p \<longleftrightarrow> \<not> has_prefix (snd (split_path p)) ''.update-check-''"

lemma cache_temp_other:
  assumes "cache_path_ok p" shows "cache_temp (dir p) n \<noteq> p"
proof
  have "slash \<notin> set (''.update-check-'' @ nat_digits n)"
    using nat_digits_digits [of n] by (auto simp: list_all_iff is_digit_def byte_def)
  moreover obtain q where "cache_temp (dir p) n = q @ slash # (''.update-check-'' @ nat_digits n)"
    by (cases "has_suffix (dir p) [slash]") (auto simp: cache_temp_def has_suffix_iff)
  ultimately have "snd (split_path (cache_temp (dir p) n)) = ''.update-check-'' @ nat_digits n"
    by (metis split_path_snoc snd_conv)
  moreover assume "cache_temp (dir p) n = p"
  ultimately show False using assms by (simp add: cache_path_ok_def has_prefix_append)
qed

lemma cache_install_result:
  assumes "cache_install w path tmp raw d = (ok, d')" and "tmp \<noteq> path"
  shows "cd_files d' path = (if ok then Some (cache_file_mode, raw) else cd_files d path)"
  using assms by (auto simp: cache_install_def Let_def split: if_splits)

lemma write_cache_result:
  assumes w: "write_cache w render path cf d = (ok, d')" and other: "\<And>n. cache_temp (dir path) n \<noteq> path"
  shows "cache_text path d' = (if ok then Some (cache_file_mode, the (render cf)) else cache_text path d)"
proof -
  obtain b d1 where m: "cache_mkdir w (dir path) d = (b, d1)" by fastforce
  note f1 = cache_mkdir_files [OF m]
  show ?thesis
  proof (cases "path = [] \<or> \<not> b \<or> render cf = None \<or> cache_create_temp w (dir path) d1 = None")
    case True
    then have "\<not> ok \<and> (d' = d \<or> d' = d1)"
      using w m by (cases "path = []"; cases b; cases "render cf") (simp_all add: write_cache_def)
    then show ?thesis using f1 by (auto simp: cache_text_def)
  next
    case False
    then obtain raw tmp where r: "render cf = Some raw" and t: "cache_create_temp w (dir path) d1 = Some tmp" by auto
    obtain ok2 d2 where i: "cache_install w path tmp raw d1 = (ok2, d2)" by fastforce
    have tmp: "tmp \<noteq> path" using t other by (auto simp: cache_create_temp_def split: if_splits)
    have "ok = ok2" "d' = remove_temp w tmp d2"
      using w m False r t i by (simp_all add: write_cache_def)
    then show ?thesis
      using cache_install_result [OF i tmp] tmp r f1 by (simp add: cache_text_def remove_temp_def)
  qed
qed

definition cache_put ::
  "sys_world \<Rightarrow> (update_cache \<Rightarrow> string option) \<Rightarrow> string \<Rightarrow> update_cache \<Rightarrow> cred_disk \<Rightarrow> bool \<times> cred_disk" where
  "cache_put w render path cf d = (if cache_path_ok path then write_cache w render path cf d else (False, d))"

interpretation cache_file: safe_install "cache_put w render path" "cache_text path"
    "\<lambda>cf. (cache_file_mode, the (render cf))" for w render path
  using write_cache_result [OF _ cache_temp_other] by unfold_locales (auto simp: cache_put_def split: if_splits)

section \<open>Checks on the disk\<close>

text \<open>What a check sees of the disk; a read may fail, for want of permission or otherwise.\<close>

definition cache_host :: "sys_world \<Rightarrow> host \<Rightarrow> cred_disk \<Rightarrow> host" where
  "cache_host w h d =
     h\<lparr>hs_stat := (\<lambda>p. case cd_files d p of
          None \<Rightarrow> Inl NotExist
        | Some (m, x) \<Rightarrow> Inr \<lparr>fi_kind = RegularFile, fi_perm = m, fi_sticky = False,
                             fi_uid = hs_uid h, fi_gid = hs_gid h\<rparr>),
       hs_read_file := (\<lambda>p. if sw_fails w SysRead then Inl PermissionDenied
          else (case cd_files d p of None \<Rightarrow> Inl NotExist | Some (m, x) \<Rightarrow> Inr x))\<rparr>"

text \<open>The checker of \<open>New\<close>, and what one call of \<open>Check\<close> depends on.\<close>

record checker =
  ch_repo :: string
  ch_base :: string
  ch_path :: string
  ch_ttl :: duration

definition new_checker :: "host \<Rightarrow> checker" where
  "new_checker h =
     \<lparr>ch_repo = env_or h ''DUP_GITHUB_REPO'' default_repo, ch_base = default_base,
      ch_path = env_or h ''DUP_CACHE_FILE'' default_cache, ch_ttl = default_ttl\<rparr>"

record check_call =
  cc_sys :: sys_world
  cc_host :: host
  cc_fetch :: "string \<Rightarrow> string + gh_response"
  cc_readings :: "time \<times> time \<times> time"
  cc_current :: string
  cc_force :: bool

record cache_codec =
  kc_render :: "update_cache \<Rightarrow> string option"
  kc_parse :: "string \<Rightarrow> update_cache option"
  kc_release :: "string \<Rightarrow> string + gh_release"

definition check_on_disk :: "cache_codec \<Rightarrow> checker \<Rightarrow> check_call \<Rightarrow> cred_disk \<Rightarrow> check_run \<times> cred_disk" where
  "check_on_disk k ch cc d =
     (let cached = read_cache (cache_host (cc_sys cc) (cc_host cc) d) (kc_parse k) (ch_path ch);
          run = check_update (cc_host cc) cached (latest (cc_fetch cc) (kc_release k) (ch_repo ch) (ch_base ch))
                  (ch_ttl ch) (cc_readings cc) (cc_current cc) (cc_force cc)
      in (run, case ck_wrote run of
                 None \<Rightarrow> d
               | Some cf \<Rightarrow> snd (write_cache (cc_sys cc) (kc_render k) (ch_path ch) cf d)))"

fun run_checks :: "cache_codec \<Rightarrow> checker \<Rightarrow> check_call list \<Rightarrow> cred_disk \<Rightarrow> check_run list \<times> cred_disk" where
  "run_checks k ch [] d = ([], d)"
| "run_checks k ch (cc # ccs) d =
     (case check_on_disk k ch cc d of (r, d1) \<Rightarrow>
      case run_checks k ch ccs d1 of (rs, d2) \<Rightarrow> (r # rs, d2))"

text \<open>A whole cache, readable for both sides, whose tag is a version or missing.\<close>

definition whole_cache :: "cache_codec \<Rightarrow> (32 word \<times> string) option \<Rightarrow> bool" where
  "whole_cache k f \<longleftrightarrow> (\<exists>cf. good_cache cf \<and> f = Some (cache_file_mode, the (kc_render k cf)))"

lemma check_on_disk_file:
  assumes "check_on_disk k ch cc d = (r, d')" and "cache_path_ok (ch_path ch)"
  shows "cache_text (ch_path ch) d' = cache_text (ch_path ch) d \<or> whole_cache k (cache_text (ch_path ch) d')"
proof (cases "ck_wrote r")
  case None
  then show ?thesis using assms by (auto simp: check_on_disk_def Let_def)
next
  case (Some cf)
  then have d: "d' = snd (cache_put (cc_sys cc) (kc_render k) (ch_path ch) cf d)"
    using assms by (auto simp: check_on_disk_def Let_def cache_put_def)
  let ?cached = "read_cache (cache_host (cc_sys cc) (cc_host cc) d) (kc_parse k) (ch_path ch)"
  have "pred_option good_cache ?cached" using read_cache_good by (auto simp: option.pred_set elem_set)
  moreover have "ck_wrote (check_update (cc_host cc) ?cached
      (latest (cc_fetch cc) (kc_release k) (ch_repo ch) (ch_base ch))
      (ch_ttl ch) (cc_readings cc) (cc_current cc) (cc_force cc)) = Some cf"
    using Some assms(1) by (auto simp: check_on_disk_def Let_def)
  ultimately have "good_cache cf" using check_update_writes_good latest_valid by blast
  then show ?thesis unfolding d cache_file.put_cases by (auto simp: whole_cache_def)
qed

lemma check_on_disk_honest: "check_on_disk k ch cc d = (r, d') \<Longrightarrow> honest_status (ck_status r)"
  by (auto simp: check_on_disk_def Let_def check_update_honest)

lemma run_checks_sound:
  assumes "cache_path_ok (ch_path ch)"
  shows "run_checks k ch ccs d = (rs, d') \<Longrightarrow>
     list_all (\<lambda>r. honest_status (ck_status r)) rs
     \<and> (cache_text (ch_path ch) d' = cache_text (ch_path ch) d \<or> whole_cache k (cache_text (ch_path ch) d'))"
proof (induction ccs arbitrary: d rs)
  case (Cons cc ccs)
  obtain r d1 where c: "check_on_disk k ch cc d = (r, d1)" by fastforce
  obtain rs1 where r: "run_checks k ch ccs d1 = (rs1, d')" "rs = r # rs1"
    using Cons.prems c by (auto split: prod.splits)
  show ?case using Cons.IH [OF r(1)] check_on_disk_file [OF c assms] check_on_disk_honest [OF c] r(2) by auto
qed simp

text \<open>A rate limit that could be written keeps every later process from asking before the reset.\<close>

lemma written_limit_respected:
  assumes "write_cache w (kc_render k) (ch_path ch) cf d = (True, d')" and "cache_path_ok (ch_path ch)"
    and "kc_parse k (the (kc_render k cf)) = Some cf" and "length (the (kc_render k cf)) \<le> max_cache_file"
    and "good_cache cf" and "cc_readings cc = (n1, n2, n3)" and "n2 < cf_retry cf"
    and "\<not> sw_fails (cc_sys cc) SysRead"
  shows "\<not> ck_asked (fst (check_on_disk k ch cc d'))"
proof -
  have "ch_path ch \<noteq> []" using assms(1) by (auto simp: write_cache_def)
  moreover have "cd_files d' (ch_path ch) = Some (cache_file_mode, the (kc_render k cf))"
    using cache_file.put_ok [of w "kc_render k" "ch_path ch" cf d d'] assms(1,2)
    by (simp add: cache_text_def cache_put_def)
  ultimately have "read_cache (cache_host (cc_sys cc) (cc_host cc) d') (kc_parse k) (ch_path ch) = Some cf"
    using assms(3-5,8) by (auto simp: read_cache_def cache_host_def stat_regular_def good_cache_def)
  then show ?thesis using assms(6,7) by (simp add: check_on_disk_def Let_def check_update_asked)
qed

end
