(* ===== verification/Http_Layers.thy ===== *)
theory Http_Layers
  imports Server
begin

text \<open>
  The outermost layers of \<open>server.go\<close>, \<open>recoverer\<close> around \<open>accessLog\<close>, on the calls a handler
  makes of its response writer: what is logged is what the client was sent, and a panic is
  answered.
\<close>

datatype writer_call = WriteHeader nat | WriteBody string

text \<open>What \<open>net/http\<close> has sent: the first header counts, a body without one sends 200.\<close>

record wire_answer =
  wa_code :: "nat option"
  wa_text :: string

definition nothing_sent :: wire_answer where "nothing_sent = \<lparr>wa_code = None, wa_text = []\<rparr>"

definition send_header :: "nat \<Rightarrow> wire_answer \<Rightarrow> wire_answer" where
  "send_header code w = (if wa_code w = None then w\<lparr>wa_code := Some code\<rparr> else w)"

definition send_body :: "string \<Rightarrow> wire_answer \<Rightarrow> wire_answer" where
  "send_body b w = (send_header 200 w)\<lparr>wa_text := wa_text w @ b\<rparr>"

text \<open>A call through the \<open>statusRecorder\<close>.\<close>

definition record_call :: "writer_call \<Rightarrow> recorder \<times> wire_answer \<Rightarrow> recorder \<times> wire_answer" where
  "record_call x rw =
     (case x of
        WriteHeader code \<Rightarrow>
          (case write_header code (fst rw) of
             (True, r) \<Rightarrow> (r, send_header code (snd rw))
           | (False, r) \<Rightarrow> (r, snd rw))
      | WriteBody b \<Rightarrow> (write_body (fst rw), send_body b (snd rw)))"

text \<open>
  A handler is the calls it made, and whether it panicked after them.  The line of the access
  log is written when the handler has returned, so a panic passes it by; \<open>recoverer\<close> then writes
  its error, with the body \<open>err\<close>, to the writer below the recorder.
\<close>

definition access_log :: "writer_call list \<times> bool \<Rightarrow> (log_level \<times> nat) option \<times> wire_answer" where
  "access_log run =
     (case fold record_call (fst run) (new_recorder, nothing_sent) of
        (r, w) \<Rightarrow> (if snd run then None else Some (access_level (re_status r), re_status r), w))"

definition recoverer :: "string \<Rightarrow> writer_call list \<times> bool \<Rightarrow> (log_level \<times> nat) option \<times> wire_answer" where
  "recoverer err run =
     (case access_log run of
        (line, w) \<Rightarrow> (line, if snd run then send_body err (send_header 500 w) else w))"

text \<open>The status on the wire; a handler that wrote nothing sends 200.\<close>

definition wire_status :: "wire_answer \<Rightarrow> nat" where
  "wire_status w = (case wa_code w of None \<Rightarrow> 200 | Some n \<Rightarrow> n)"

definition recorder_agrees :: "recorder \<times> wire_answer \<Rightarrow> bool" where
  "recorder_agrees rw \<longleftrightarrow> re_status (fst rw) = wire_status (snd rw)
     \<and> re_written (fst rw) = (wa_code (snd rw) \<noteq> None)"

lemma record_call_agrees: "recorder_agrees rw \<Longrightarrow> recorder_agrees (record_call x rw)"
  by (auto simp: recorder_agrees_def record_call_def write_header_def write_body_def send_header_def
      send_body_def wire_status_def split: writer_call.split option.splits)

lemma fold_record_agrees: "recorder_agrees rw \<Longrightarrow> recorder_agrees (fold record_call xs rw)"
proof (induction xs arbitrary: rw)
  case (Cons x xs)
  from Cons.IH [OF record_call_agrees [OF Cons.prems]] show ?case by simp
qed simp

lemma recorded_status:
  "re_status (fst (fold record_call xs (new_recorder, nothing_sent)))
     = wire_status (snd (fold record_call xs (new_recorder, nothing_sent)))"
proof -
  have "recorder_agrees (new_recorder, nothing_sent)"
    by (simp add: recorder_agrees_def new_recorder_def nothing_sent_def wire_status_def)
  from fold_record_agrees [OF this] show ?thesis by (simp only: recorder_agrees_def)
qed

lemma logged_as_sent:
  assumes "recoverer err run = (Some (l, n), w)"
  shows "n = wire_status w" and "l = access_level n"
  using assms recorded_status [of "fst run"]
  by (auto simp: recoverer_def access_log_def split: prod.splits if_splits)

text \<open>
  A panic before anything was written answers 500; after the header it leaves the status as it
  was, so such an answer is not marked as an error.  Neither has a line in the access log.
\<close>

lemma panic_answered:
  assumes "recoverer err (xs, True) = (line, w)"
  shows "line = None"
    and "wire_status w = (case wa_code (snd (fold record_call xs (new_recorder, nothing_sent))) of None \<Rightarrow> 500 | Some n \<Rightarrow> n)"
  using assms
  by (auto simp: recoverer_def access_log_def send_body_def send_header_def wire_status_def
      split: prod.splits option.splits if_splits)

end
