(* ===== verification/Process.thy ===== *)
theory Process
  imports Cli_Auth Cli_Root
begin

text \<open>
  The edges of the process: how \<open>main\<close> ends, the terminal's width, and the echo bit on the other
  platform, whose flags are 64 bits wide.
\<close>

text \<open>\<open>main\<close>: the lines on standard error and the exit code; \<open>e\<close> is the text of the error.\<close>

definition dup_main :: "string option \<Rightarrow> string list \<times> nat" where
  "dup_main e = (case e of None \<Rightarrow> ([], 0) | Some t \<Rightarrow> ([''error: '' @ t], 1))"

definition agent_main :: "string option \<Rightarrow> string list \<times> nat" where
  "agent_main e = (case e of None \<Rightarrow> ([], 0) | Some t \<Rightarrow> ([''error: '' @ t], 1))"

text \<open>The answer of \<open>TIOCGWINSZ\<close> is the number of columns; zero means that the width is not known.\<close>

definition terminal_width :: "16 word option \<Rightarrow> nat" where
  "terminal_width ws = (case ws of None \<Rightarrow> 0 | Some col \<Rightarrow> if col = 0 then 0 else unat col)"

definition terminal_width_darwin :: "16 word option \<Rightarrow> nat" where
  "terminal_width_darwin ws = (case ws of None \<Rightarrow> 0 | Some col \<Rightarrow> if col = 0 then 0 else unat col)"

lemma terminal_width_bound: "terminal_width ws < 2 ^ 16"
proof (cases ws)
  case (Some col)
  have "unat col < 2 ^ LENGTH(16)" by (rule unsigned_less)
  with Some show ?thesis by (simp add: terminal_width_def)
qed (simp add: terminal_width_def)

definition echo_flag_darwin :: "64 word" where "echo_flag_darwin = 8"

definition echo_off_darwin :: "64 word \<Rightarrow> 64 word" where
  "echo_off_darwin l = and l (not echo_flag_darwin)"

text \<open>Both clear the one bit and nothing else.\<close>

lemma clear_bit_3: "bit (and l (not (8 :: 'a :: len word))) n \<longleftrightarrow> bit l n \<and> n \<noteq> 3"
proof -
  have 8: "(8 :: 'a word) = push_bit 3 1" by (simp add: push_bit_eq_mult)
  show ?thesis
    unfolding 8 using bit_imp_le_length [of l n] by (auto simp only: bit_and_iff bit_not_iff bit_push_bit_iff bit_1_iff)
      (auto simp: bit_push_bit_iff)
qed

lemma echo_off_bits: "bit (echo_off l) n \<longleftrightarrow> bit l n \<and> n \<noteq> 3"
  unfolding echo_off_def echo_flag_def by (rule clear_bit_3)

lemma echo_off_darwin_bits: "bit (echo_off_darwin l) n \<longleftrightarrow> bit l n \<and> n \<noteq> 3"
  unfolding echo_off_darwin_def echo_flag_darwin_def by (rule clear_bit_3)

end
