(* ===== verification/Spec2Isabelle.thy ===== *)
theory Spec2Isabelle
  imports Sample_Life Remote Update_Cache Http_Layers Process
begin

text \<open>
  docker-updater updates docker compose stacks.  An unprivileged service (\<open>dup serve\<close>) offers an
  HTTP API, a scheduler and the bookkeeping of jobs; a root agent (\<open>dup-agent\<close>) runs docker and
  streams what it does back over a unix socket; the other commands of \<open>dup\<close> configure, inspect
  and drive the two.  This development translates the Go code of all three into executable
  definitions and proves what they promise.

  \<^bold>\<open>The parts and their theories.\<close>  Each definition keeps the name of the Go function in
  snake case; \<open>src/internal/x/y.go\<close> is written \<open>x/y.go\<close>.

  \<^item> \<open>Go_Prelude\<close>, \<open>Go_Order\<close>, \<open>Go_Os\<close>, \<open>Paths\<close>, \<open>Durations\<close>, \<open>Json\<close>: the language and
    library as the program uses them: strings as bytes with their UTF-8 runes, association
    lists for maps whose size matters, saturating and wrapping 64-bit arithmetic, three-way
    comparisons (locale \<open>comparator\<close>), cleaned paths, what a process sees of its host, the
    parser of durations, JSON values.
  \<^item> \<open>Config\<close>, \<open>Config_File\<close>: \<open>config/config.go\<close>, after the YAML decoder and from the bytes of the
    file on; the fingerprints by which the two services notice that they run different files.
  \<^item> \<open>Compose\<close>, \<open>Pipeline\<close>, \<open>Pipeline_Trace\<close>, \<open>Pipeline_Wait\<close>: \<open>compose/compose.go\<close> and
    \<open>pipeline/pipeline.go\<close> in a state monad over a world, a trace of everything that was run or
    reported, and the clock readings; the trace is what the properties speak of.
  \<^item> \<open>Job\<close>, \<open>Job_Store\<close>, \<open>Manager\<close>: \<open>job/job.go\<close> and \<open>job/manager.go\<close>; jobs live in a heap, since
    the store, the pipeline and the API share them by pointer.  What the scheduler relies on is
    the locale \<open>update_starter\<close>, which the manager and the service as a whole interpret.
  \<^item> \<open>Wire\<close>, \<open>Agentd\<close>, \<open>Remote\<close>, \<open>Agent_Main\<close>: the protocol of \<open>wire/wire.go\<close>, the agent's server
    \<open>agentd/server.go\<close> with its locks, the service's client \<open>agent/client.go\<close>, the two ends put
    together, and the process of the agent: the kernel's word about the caller, the socket,
    serving and stopping (\<open>cmd/dup-agent/main.go\<close>, \<open>agentd/peer_*.go\<close>).
  \<^item> \<open>Schedule\<close>, \<open>Notify\<close>, \<open>Rotate\<close>, \<open>History\<close>: \<open>schedule/schedule.go\<close>, \<open>notify/notify.go\<close>,
    \<open>rotate/rotate.go\<close> on a disk whose calls may each fail, \<open>history/history.go\<close>.
  \<^item> \<open>Access\<close>, \<open>Server\<close>, \<open>Http_Layers\<close>: \<open>server/access.go\<close>, \<open>server/auth.go\<close> and
    \<open>server/server.go\<close>.
  \<^item> \<open>Serve\<close>, \<open>Service\<close>, \<open>Lifecycle\<close>: \<open>cli/serve.go\<close>; the service as one transition system whose
    steps are requests, scheduler rounds, reports and results of the agent, and the actions of
    the goroutines the manager starts, in any order; around it the main goroutine, with the
    signal, the shutdown and the drain.
  \<^item> \<open>Safe_Install\<close>, \<open>Dockercfg\<close>, \<open>Credfile\<close>, \<open>Certs\<close>, \<open>Semver\<close>, \<open>Selfupdate\<close>, \<open>Update_Cache\<close>: what
    is written through a temporary file and a rename (locale \<open>safe_install\<close>, interpreted by the
    three that do): the credential store \<open>dockercfg/dockercfg.go\<close>, the certificate pair
    \<open>certs/certs.go\<close> with \<open>cli/cert.go\<close>, and the cache of the update check \<open>selfupdate/*.go\<close>.
  \<^item> \<open>Registry\<close>, \<open>Cli_Auth\<close>: \<open>registry/registry.go\<close>, the check of a registry login, and \<open>cli/auth.go\<close>
    with \<open>cli/termios_linux.go\<close>, the prompts that use it, on a terminal whose calls may fail.
  \<^item> \<open>Path_Audit\<close>, \<open>Discover\<close>: \<open>audit/audit.go\<close> and \<open>discover/discover.go\<close>.
  \<^item> \<open>Cli_Root\<close>, \<open>Cli_Render\<close>, \<open>Cli_Api\<close>, \<open>Cli_Report\<close>, \<open>Cli_Check\<close>, \<open>Cli_Notify\<close>, \<open>Process\<close>: the
    commands: dispatch and flags (\<open>cli/root.go\<close>, \<open>version/version.go\<close>), the redrawn job
    (\<open>cli/render.go\<close>), \<open>dup update\<close> and \<open>dup scan\<close> (\<open>cli/api.go\<close>, \<open>cli/scan.go\<close>,
    \<open>cli/diagnose.go\<close>), \<open>dup list\<close>, \<open>logs\<close> and \<open>version\<close>, \<open>dup check\<close> and \<open>dup audit\<close> with what the
    two services demand before they start (\<open>cli/check.go\<close>, \<open>cli/logging.go\<close>), \<open>dup notify\<close>, and
    how the processes end.
  \<^item> \<open>Sample_World\<close>, \<open>Sample_Cli\<close>, \<open>Sample_Life\<close>: the concrete inputs at which the properties with
    hypotheses are applied, and the examples behind the findings.

  \<^bold>\<open>How the parts meet.\<close>  The HTTP API and the scheduler start jobs through the manager; a job
  runs in the agent, whose pipeline reports over the wire (\<open>Remote\<close>); its end reaches the store,
  the scheduler, the history and the notifier through a goroutine (\<open>Service\<close>); the process may be
  told to stop in between (\<open>Lifecycle\<close>).  \<open>dup logs\<close> reads the files that the service's history
  writes, \<open>dup check\<close> runs the conditions the services start under, \<open>dup auth\<close> writes the store
  that the pipeline's docker commands are pointed at.

  \<^bold>\<open>What the lemmas show.\<close>  \<open>Pipeline_Trace\<close>: which commands a pipeline can have run when it
  reports which state, and that its steps are paired.  \<open>Pipeline_Wait\<close>: that it returns.
  \<open>Job_Store\<close>, \<open>Agentd\<close>, \<open>Service\<close>, \<open>Lifecycle\<close>: invariants of all reachable states by rule
  induction.  \<open>Rotate\<close> and \<open>History\<close>: refinement of a bounded queue of segments, and what is read
  back.  \<open>Credfile\<close>, \<open>Certs\<close>, \<open>Update_Cache\<close>: what a reader finds after any failure.  \<open>Registry\<close>:
  every request that was made and whether it carried the credentials.  \<open>Cli_Render\<close>: the screen
  as lines, and what the escape sequences do to it.

  \<^bold>\<open>Bounds and fuel.\<close>  The health check polls in a loop that its deadline ends, so \<open>wait_loop\<close>
  takes fuel: \<open>enough_fuel\<close> is one poll per tick up to the deadline and three more, which under the
  laws of clock and ticker (\<open>clock_laws\<close>: time does not run backwards and a wait that was not
  interrupted ends no earlier than it is due) always suffices, as the property on returning
  shows; every other loop is
  structural, or a \<open>function\<close> with a measure (the flag parser, \<open>dup help help\<close>, the path and
  duration parsers).  Widths are kept where they matter: durations saturate and 64-bit products
  wrap, uids, modes and addresses are words.

  \<^bold>\<open>What is a parameter.\<close>  docker itself and \<open>encoding/json\<close>, the YAML decoder, the hashes, keys
  and encodings of certificates, the parsers of addresses and URLs, HTTP transports and TLS, the
  calendar, \<open>text/tabwriter\<close>, the kernel's answers to system calls, random bytes and clock
  readings.  What the code relies on is stated where it is used, as a named predicate
  (\<open>clock_laws\<close>, \<open>codec_ok\<close>, \<open>url_ok\<close>, \<open>line_ok\<close>, \<open>glob_ok\<close>).

  \<^bold>\<open>Not modelled.\<close>  The lines of the structured log and the texts of some errors, which are
  constructors instead; the HTTP server below the handlers (keep-alive, TLS, the mux's own
  replies, which are an argument); what other processes do to a file between two system calls,
  except where a theory says so; goroutine leaks and the memory model: shared state is changed
  under its mutex, so critical sections are the steps; the two ioctls of
  \<open>cli/termios_darwin.go\<close>, which are the linux ones under other numbers.
\<close>

section \<open>Properties\<close>

text \<open>
  C1: An update never changes a stack unguarded: either the run only inspects and pulls, or it
  is not a dry run and what changes anything comes after a reading part in which the compose
  file validated, the images were pulled and a required pre-update hook succeeded.
\<close>

theorem pipeline_guarded:
  "guarded t req (new_events s (snd (run_state (pipeline fuel d c t JobSink req) s)))"
  by (rule pipeline_ok_guarded [OF emits_new [OF pipeline_spec]])




text \<open>
  C5: The service and its root agent agree on tags: a request that the API builds carries a tag
  that the agent's own validation accepts.
\<close>

theorem built_tag_accepted_by_agent:
  "case build_request d t r trigger body of
     Start req \<Rightarrow> validate_tag t (rq_tag req) = None
   | _ \<Rightarrow> True"
  using build_request_tag [of d t r trigger body]
  by (auto simp: validate_tag_def tag_accepted_def split: built.split)

text \<open>
  C6: A pipeline returns: under the laws of the clock and of the ticker, with fuel for one
  health poll per tick up to the deadline, it gives a result from every state.
\<close>

theorem pipeline_returns:
  assumes "clock_laws d" and "enough_fuel t \<le> fuel"
  shows "\<exists>st msg. fst (run_state (pipeline fuel d c t k req) s) = Some (st, msg)"
  using gives_pipeline [OF assms, of c k req] unfolding gives_def by (metis not_None_eq surj_pair)

theorem pipeline_returns_witness:
  "\<exists>st msg. fst (run_state (pipeline (enough_fuel sample_target) sample_docker CallerCtx sample_target
      JobSink sample_request) sample_run) = Some (st, msg)"
  by (rule pipeline_returns [OF sample_clock_laws order_refl])

text \<open>
  C7: The health check reports success only after a stretch at least as long as the stability
  window in which every progress report shows all the watched services settled.
\<close>

theorem health_success_is_stable:
  assumes "clock_laws d" and "0 \<le> t_stability_window t" and "length (r_stamps s) = length (r_trace s)"
    and "run_state (wait_healthy fuel d c t JobSink env hs n) s = (Some None, s')"
  shows "stable_for hs (length (r_trace s)) (t_stability_window t) (r_trace s') (r_stamps s')"
  using assms by (rule wait_healthy_stable)

theorem health_success_is_stable_witness:
  "\<exists>s' :: int run. stable_for [''web''] 0 0 (r_trace s') (r_stamps s')"
proof -
  obtain s' where r: "run_state (wait_healthy 1 sample_docker CallerCtx sample_target JobSink []
      [''web''] ''health'') sample_run = (Some None, s')"
    using sample_wait by (metis prod.collapse)
  show ?thesis
    using health_success_is_stable [OF sample_clock_laws _ _ r]
    by (auto simp: sample_target_def sample_run_def)
qed


text \<open>
  C9: A stream from the agent that is cut before its result event, cleanly or by a decoding
  error, replays the calls that arrived and is an error, never a success.
\<close>

theorem cut_stream_is_error:
  "consume (map (Inr \<circ> transmit) (take (min n (length cs)) (exec_stream cs r))
       @ (case tail of None \<Rightarrow> [] | Some e \<Rightarrow> [Inl e]))
   = (map transmit_call (take n cs),
      Inl (case tail of
             None \<Rightarrow> ''the update agent closed the stream without reporting a result; the stack may be mid-update''
           | Some e \<Rightarrow> ''update agent stream ended badly: '' @ e))"
proof -
  have "take (min n (length cs)) (exec_stream cs r) = map event_of (take n cs)"
    by (simp add: exec_stream_def take_map min_def)
  then show ?thesis
    using consume_calls [of None "take n cs" "case tail of None \<Rightarrow> [] | Some e \<Rightarrow> [Inl e]"]
    by (auto simp: consume_def comp_assoc split: option.split)
qed



text \<open>
  C11: Writing a stack's credentials is atomic whatever system call fails: on an error the
  stack's \<open>config.json\<close> is what it was; on success it is the new text with mode 0600 in
  directories of mode 0700.  No other file changes, except that a temporary file which could
  not be removed stays behind, unreadable for others.
\<close>

theorem credential_write_is_atomic:
  assumes "store_dir b stack = Inr p"
  shows "case write_store w k c p d of
    (e, d') \<Rightarrow>
      (case e of
         Some err \<Rightarrow> cd_files d' (config_path p) = cd_files d (config_path p)
       | None \<Rightarrow> (\<exists>body. marshal k c = Some body \<and> cd_files d' (config_path p) = Some (file_mode, body))
           \<and> cd_dirs d' p = Some dir_mode \<and> cd_dirs d' (dir p) = Some dir_mode)
      \<and> (\<forall>q. q \<noteq> config_path p \<longrightarrow>
           cd_files d' q = cd_files d q \<or> (sw_fails w (SysRemove q) \<and> private_file d' q))"
proof -
  obtain cs where cs: "list_all normal (cs @ [stack])" "cs \<noteq> []" and p: "p = abs_path (cs @ [stack])"
    using store_dir_inside [OF assms] by metis
  then have n: "clean p = p" "clean (dir p) = dir p" "is_abs p" by simp_all
  have other: "temp_path p m \<noteq> config_path p" for m
    unfolding p using temp_path_other [OF cs(1)] by simp
  obtain e d' where w: "write_store w k c p d = (e, d')" by fastforce
  from write_store_steps [OF w n(3)] show ?thesis
  proof cases
    case 1
    then show ?thesis using w by auto
  next
    case (2 d0)
    note r = write_marshalled_result [OF 2(4) other]
    show ?thesis
    proof (cases e)
      case None
      then show ?thesis using w 2 r n by (auto split: option.split)
    next
      case (Some err)
      then show ?thesis using w 2 r by auto
    qed
  qed
qed

theorem credential_write_is_atomic_witness:
  "\<exists>d' body. write_store calm_calls (single_codec sample_store) sample_store ''/etc/dup/web'' bare_disk = (None, d')
     \<and> cd_files d' (config_path ''/etc/dup/web'') = Some (file_mode, body)
     \<and> cd_dirs d' ''/etc/dup/web'' = Some dir_mode"
  using credential_write_is_atomic [OF sample_paths(1), where w = calm_calls and k = "single_codec sample_store" and c = sample_store and d = bare_disk]
    sample_write
  by (auto split: prod.splits)






text \<open>
  C15: A stack's registry credentials only ever change by verified logins: when nothing else
  writes the store, the file after \<open>dup auth\<close> is reached from the file before by steps each of
  which saves one user name and password that the registry accepted, over what the file then
  said, and over an entry that was there only with \<open>--force\<close>.
\<close>

theorem saved_logins_are_verified:
  assumes "store_dir b stack = Inr (t_docker_cfg t)" and "alone w"
  shows "case auth_target w h cfg regs force t c d of
    (r, c', d') \<Rightarrow> rtranclp (login_saved w force)
      (cd_files d (config_path (t_docker_cfg t))) (cd_files d' (config_path (t_docker_cfg t)))"
  using auth_target_saved [OF assms] by (auto split: prod.split)

theorem saved_logins_are_verified_witness:
  "case auth_target sample_auth bare_host sample_config sample_regs False sample_stack sample_console bare_disk of
    (r, c', d') \<Rightarrow> rtranclp (login_saved sample_auth False) None (cd_files d' ''/etc/dup/web/config.json'')
      \<and> cd_files d' ''/etc/dup/web/config.json'' \<noteq> None"
proof -
  have t: "t_docker_cfg sample_stack = ''/etc/dup/web''" by (simp add: sample_stack_def)
  have "case auth_target sample_auth bare_host sample_config sample_regs False sample_stack sample_console bare_disk of
    (r, c', d') \<Rightarrow> rtranclp (login_saved sample_auth False)
      (cd_files bare_disk (config_path (t_docker_cfg sample_stack))) (cd_files d' (config_path (t_docker_cfg sample_stack)))"
    using saved_logins_are_verified [OF _ sample_alone, of "''/etc/dup''" "''web''" sample_stack] sample_paths(1) t
    by simp
  then show ?thesis
    using sample_auth_saves by (auto simp: t sample_paths bare_disk_def split: prod.splits)
qed


text \<open>
  C17: \<open>dup cert\<close> installs a matching pair: on success the certificate file holds the certificate
  made for a fresh key and the key file that key, closed to others; on a failure the key file is
  untouched, and the certificate file is untouched or already the new one.
\<close>

theorem certificate_pair:
  assumes "apart cert_file key_file"
  shows "case generate y w h now1 now2 cert_file key_file hs gid d of
      (Inr r, d') \<Rightarrow> (\<exists>key serial. cy_new_key y = Some key
        \<and> new_cert y w key (cert_template_of h now1 now2 serial hs) gid (d' cert_file)
        \<and> new_key y w key gid (d' key_file))
    | (Inl e, d') \<Rightarrow> d' key_file = d key_file
        \<and> (d' cert_file = d cert_file
           \<or> (\<exists>key t. cy_new_key y = Some key \<and> new_cert y w key t gid (d' cert_file)))"
proof -
  obtain r d' where g: "generate y w h now1 now2 cert_file key_file hs gid d = (r, d')" by fastforce
  show ?thesis
  proof (cases r)
    case (Inl e)
    with generate_fails [of y w h now1 now2 cert_file key_file hs gid d e d'] g assms show ?thesis by simp
  next
    case (Inr x)
    with generate_ok [of y w h now1 now2 cert_file key_file hs gid d x d'] g assms show ?thesis by simp
  qed
qed

theorem certificate_pair_witness:
  "\<exists>d'. snd (generate sample_crypto (sample_pem False) bare_host 0 0 default_cert_file default_key_file [''h''] 7 (\<lambda>p. None)) = d'
     \<and> new_key sample_crypto (sample_pem False) 1 7 (d' default_key_file)"
proof -
  obtain r d' where g: "generate sample_crypto (sample_pem False) bare_host 0 0 default_cert_file default_key_file [''h''] 7 (\<lambda>p. None) = (Inr r, d')"
    using sample_generate by blast
  have "apart default_cert_file default_key_file" by (rule default_apart)
  from certificate_pair [OF this, where y = sample_crypto and w = "sample_pem False" and h = bare_host
      and ?now1.0 = 0 and ?now2.0 = 0 and hs = "[''h'']" and gid = 7 and d = "\<lambda>p. None"] g
  have "\<exists>key. cy_new_key sample_crypto = Some key \<and> new_key sample_crypto (sample_pem False) key 7 (d' default_key_file)"
    by auto
  moreover have "cy_new_key sample_crypto = Some 1" by (simp add: sample_crypto_def)
  ultimately show ?thesis using g by simp
qed

text \<open>
  C18: What \<open>dup check\<close> passes, the services accept: on the same host the API service starts once
  it gets its socket, and the agent refuses neither its arguments nor the configuration nor a
  missing service account name.
\<close>

theorem check_gates_startup:
  assumes "run_check k h raw path health = CheckOk out"
  shows "(\<exists>c. serve_startup h raw True = Inr c)
    \<and> (case agent_startup h b accounts raw docker_fault False [] of
         AgentVersion v \<Rightarrow> False
       | AgentRefused (AgentArgs a) \<Rightarrow> False
       | AgentRefused (AgentConfig e) \<Rightarrow> False
       | AgentRefused (AgentPeer PeerNotSet) \<Rightarrow> False
       | _ \<Rightarrow> True)"
  using assms by (rule check_passes)

theorem check_gates_startup_witness:
  "\<forall>k. \<exists>out c. run_check k bare_host sample_config ''/c'' (Inl []) = CheckOk out
     \<and> serve_startup bare_host sample_config True = Inr c"
proof
  fix k
  obtain out where "run_check k bare_host sample_config ''/c'' (Inl []) = CheckOk out" using sample_check by blast
  with check_gates_startup [OF this] show "\<exists>out c. run_check k bare_host sample_config ''/c'' (Inl []) = CheckOk out
     \<and> serve_startup bare_host sample_config True = Inr c" by blast
qed





text \<open>
  \<open>dup notify\<close> does not show the values of the configured headers, where authentication
  tokens live: two configurations that differ only in them give the same output and the same
  result, for an endpoint that answers them the same.
\<close>

theorem header_values_hidden:
  assumes "same_but_headers c c'" and "\<And>p hs. http (p\<lparr>po_headers := hs\<rparr>) = http p"
  shows "run_notify h c' name file now http render took quiet = run_notify h c name file now http render took quiet"
  using assms by (rule notify_hides_headers)

theorem header_values_hidden_witness:
  "\<forall>h now. run_notify h (sample_headers ''s'') ''n'' ''/c'' now (\<lambda>p. Inr (200, [])) (\<lambda>j. []) 0 False =
     run_notify h (sample_headers ''t'') ''n'' ''/c'' now (\<lambda>p. Inr (200, [])) (\<lambda>j. []) 0 False"
  by (intro allI header_values_hidden)
    (auto simp: same_but_headers_def sample_headers_def intro!: exI [of _ "[(''Authorization'', ''s'')]"])

text \<open>
  C22: A check and an image listing only read: every docker command they run is one that leaves
  the stack alone.
\<close>

theorem checks_read_only:
  "list_all reads_only (new_events s (snd (run_state (check d c t) s)))
   \<and> list_all reads_only (new_events s (snd (run_state (images d c t) s)))"
  using reads_new [OF reads_check] reads_new [OF reads_image_list] by blast

text \<open>
  C23: However the agent's handlers interleave, no two of them hold the lock of one target and
  at most three hold a slot.
\<close>

theorem agent_exclusion:
  assumes "agent_reachable p"
  shows "distinct (map (fst \<circ> snd) (pl_flight p)) \<and> length (filter holds_slot (pl_flight p)) \<le> 3"
  using agent_reachable_inv [OF assms] by (simp add: pool_inv_def max_concurrent_def)

theorem agent_exclusion_witness:
  "length (filter holds_slot [(0, ''app'', Acquired)]) \<le> 3"
proof -
  have "agent_reachable \<lparr>pl_locks = \<lparr>lk_running = {''app''}, lk_slots = 0\<rparr>,
      pl_flight = al_put 0 (''app'', Acquired) []\<rparr>"
    using agent_reachable.step [OF agent_reachable.idle agent_step.step_acquire, of 0 "''app''"]
    by (simp add: acquire_def)
  from agent_exclusion [OF this] show ?thesis by simp
qed

text \<open>
  A handler of the agent gives back what it took: on every path, refusals and errors
  included, the locks afterwards are the locks before.
\<close>

theorem agent_locks_restored:
  "fst (snd (handle_exec fuel d a cur dec p body lr)) = fst lr
   \<and> fst (snd (handle_check d a cur dec' p body lr)) = fst lr"
  by (simp add: handle_exec_locks handle_check_locks)



text \<open>
  C25: The output a job stores for its steps is bounded: 96 KiB, and 26 bytes of truncation
  mark for each step reported.
\<close>

theorem job_log_bounded:
  "stored_output (apply_calls tcs (new_job ident now target req))
     \<le> 96 * 1024 + 26 * count_adds (map snd tcs)"
proof -
  let ?j = "new_job ident now target req"
  have "stored_output (apply_calls tcs ?j) \<le> j_log_bytes (apply_calls tcs ?j)"
    by (rule stored_output_calls) (simp add: stored_output_def)
  also have "\<dots> \<le> max_job_log_bytes + 26 * (0 + count_adds (map snd tcs))"
    by (rule apply_calls_log_bound) simp
  finally show ?thesis by (simp add: max_job_log_bytes_def)
qed

text \<open>
  No control byte reaches what a job stores as text: its reason, its message and the
  output of its steps stay clean through every sink call and through its completion.
\<close>

theorem job_text_clean:
  "case finish now st msg (apply_calls tcs (new_job ident began target req)) of
     None \<Rightarrow> False | Some j \<Rightarrow> clean_job j \<and> clean_job (apply_calls tcs (new_job ident began target req))"
  using clean_finish [OF clean_calls [OF clean_new_job]] clean_calls [OF clean_new_job]
    finish_some [of "apply_calls tcs (new_job ident began target req)" now st msg]
  by (auto split: option.split)

text \<open>
  Completing an unfinished job of a reachable store never panics on a second close of its
  channel, leaves the job with the result, frees its target and tells the completion callback.
\<close>

theorem completion_frees_target:
  assumes "store_reachable s" and "s_heap s r = Some j" and "\<not> terminal (j_state j)"
  shows "\<exists>as s' j'. manager_done m now r res s = Some (as, s')
    \<and> finish now (fst (run_result res)) (snd (run_result res)) j = Some j'
    \<and> \<not> manager_busy (j_target j) s'
    \<and> (mg_on_done m \<longrightarrow> OnDone (j_target j) (snapshot_of now j') \<in> set as)"
  by (rule manager_done_actions [OF store_reachable_inv [OF assms(1)] assms(2,3)])

theorem completion_frees_target_witness:
  "\<exists>as s'. manager_done \<lparr>mg_notifier = True, mg_recorder = True, mg_on_done = True\<rparr> 5 0
       (Inr (StateSucceeded, [])) (fst (store_begin ''i'' 0 ''app'' sample_request new_store)) = Some (as, s')
     \<and> \<not> manager_busy ''app'' s'"
proof -
  let ?s = "fst (store_begin ''i'' 0 ''app'' sample_request new_store)"
  have "store_reachable ?s"
    by (rule store_reachable.step [OF store_reachable.start store_step.begin_job])
      (simp add: new_store_def)
  moreover have "s_heap ?s 0 = Some (new_job ''i'' 0 ''app'' sample_request)"
    by (simp add: store_begin_def new_store_def Let_def split: prod.split)
  ultimately show ?thesis using completion_frees_target [of ?s 0] by fastforce
qed

text \<open>
  C26: The scheduler starts an update on its own only after the soak: some earlier check saw
  an image, no check since found it gone, nothing cleared it, and the soak has passed since
  that check.
\<close>

theorem soak_has_passed:
  "list_all (\<lambda>a. case a of
       StartedUpdate n ch \<Rightarrow>
         (\<exists>m. seen_since busy start ann t (es @ [EvTick answer marked now]) u m \<and> m + t_soak t \<le> now)
     | _ \<Rightarrow> True)
   (fst (tick busy start ann t answer marked now (sched_after busy start ann t es u)))"
proof -
  obtain as su' where "tick busy start ann t answer marked now (sched_after busy start ann t es u) = (as, su')"
    by (metis surj_pair)
  with started_after_soak [OF this] show ?thesis by (auto simp: list_all_iff split: sched_action.split)
qed

text \<open>
  C27: A soak that ends is not slept through: the watch loop of a target with a pending update
  wakes no later than the end of its soak.
\<close>

theorem wakes_at_end_of_soak:
  assumes "pending_for (t_name t) s = Some p" and "now < ready_at p (t_soak t)"
  shows "wake_by t now due s \<le> ready_at p (t_soak t)"
  using assms by (rule wake_by_ready)

theorem wakes_at_end_of_soak_witness:
  "wake_by sample_target 5 (3 * hour)
     (snd (mark 0 ''app'' [''web''] new_sched)) \<le> ready_at \<lparr>pd_since = 0, pd_services = [''web'']\<rparr> minute"
  using wakes_at_end_of_soak [of sample_target "snd (mark 0 ''app'' [''web''] new_sched)"
      "\<lparr>pd_since = 0, pd_services = [''web'']\<rparr>" 5 "3 * hour"]
  by (simp add: pending_for_def mark_def new_sched_def sample_target_def ready_at_def Let_def minute_def second_def)



text \<open>
  C29: A configuration that loads is safe to run: every target has a valid name, a clean
  absolute directory, positive timeouts, a stability window shorter than the health timeout, a
  soak that is not negative and its own credential store, and no two targets share a name or a
  compose project.
\<close>

theorem loaded_config_ok:
  "case load_config h cp cs c of
     Inl e \<Rightarrow> True
   | Inr c' \<Rightarrow> list_all (target_ok (c_docker_config_dir c')) (the_targets c')
       \<and> distinct (target_names c') \<and> distinct (map (\<lambda>t. project_name (t_dir t)) (the_targets c'))"
proof (cases "load_config h cp cs c")
  case (Inr c')
  then obtain c4 where "defaults_ok (c_defaults c4)" "validate_targets h c4 cp = Inr c'"
    by (rule load_config_steps)
  with validate_targets_ok [of h c4 cp c'] Inr show ?thesis by (simp add: project_name_def)
qed simp

text \<open>
  Base64, as the credential store writes it, decodes to what was encoded, for every byte
  string.
\<close>

theorem base64_round_trip: "b64_decode (b64_encode s) = Some s"
  by (rule b64_decode_encode)

text \<open>
  A stack's credential directory is one level below the base directory: its parent is the
  base cleaned and its last element the stack's name, so no stack name escapes the base.
\<close>

theorem store_dir_contained:
  "case store_dir b stack of
     Inl e \<Rightarrow> True
   | Inr d \<Rightarrow> \<exists>cs. cs \<noteq> [] \<and> list_all normal (cs @ [stack]) \<and> clean b = abs_path cs
       \<and> d = abs_path (cs @ [stack]) \<and> dir d = clean b \<and> base d = stack"
proof (cases "store_dir b stack")
  case (Inr d)
  then obtain cs where cs: "list_all normal (cs @ [stack])" "clean b = abs_path cs" "cs \<noteq> []"
      "d = abs_path (cs @ [stack])"
    by (rule store_dir_inside)
  then have "dir d = clean b" "base d = stack" by simp_all
  with cs Inr show ?thesis by auto
qed simp

text \<open>
  The environment of a docker command is closed: it holds the caller's entries and, of
  the daemon's own environment, only the variables of the pass-through list that the caller
  does not set.
\<close>

theorem child_environment_closed:
  "list_all (\<lambda>kv. kv \<in> set extra \<or> (\<exists>k v. k \<in> set passthrough_env \<and> k \<notin> set (overridden extra)
      \<and> hs_getenv h k = Some v \<and> kv = k @ ''='' @ v)) (child_env h extra)
   \<and> list_all (\<lambda>k. filter (assigns k) (child_env h extra) = filter (assigns k) extra) (overridden extra)"
  using child_env_closed [of _ h extra] child_env_override [of _ extra h]
  by (auto simp: list_all_iff)

text \<open>
  A tag is a change of version only: when the pipeline accepts one, every watched
  service's image with the tag is in the repository of its image without it.
\<close>

theorem tag_keeps_repository:
  "case tag_moves t tag bases desired of
     Some msg \<Rightarrow> True
   | None \<Rightarrow> list_all (\<lambda>(svc, ref). \<exists>b. map_of bases svc = Some b \<and> repository b = repository ref)
               [p \<leftarrow> desired. wanted t (fst p)]"
  using tag_moves_None [of t tag bases desired]
  by (auto simp: list_all_iff split: option.split)

text \<open>
  Any finished update takes its target off the scheduler's pending list, whatever its
  final state: a dry run or a failure drops a soak as an applied update does.
\<close>

theorem completion_drops_soak:
  assumes "store_reachable st" and "s_heap st r = Some j" and "\<not> terminal (j_state j)" and "mg_on_done m"
  shows "\<exists>as st'. manager_done m now r (Inr (StateDryRun, msg)) st = Some (as, st')
    \<and> sc_pending (deliver as s) (j_target j) = None"
  using manager_done_actions [OF store_reachable_inv [OF assms(1)] assms(2,3), of m now
      "Inr (StateDryRun, msg)"] assms(4)
  by (metis deliver_done)

theorem completion_drops_soak_witness:
  "\<exists>as st'. manager_done \<lparr>mg_notifier = False, mg_recorder = False, mg_on_done = True\<rparr> 5 0
       (Inr (StateDryRun, [])) (fst (store_begin ''i'' 0 ''app'' sample_request new_store)) = Some (as, st')
     \<and> sc_pending (deliver as (snd (mark 0 ''app'' [''web''] new_sched))) ''app'' = None"
proof -
  let ?s = "fst (store_begin ''i'' 0 ''app'' sample_request new_store)"
  have "store_reachable ?s"
    by (rule store_reachable.step [OF store_reachable.start store_step.begin_job])
      (simp add: new_store_def)
  moreover have "s_heap ?s 0 = Some (new_job ''i'' 0 ''app'' sample_request)"
    by (simp add: store_begin_def new_store_def Let_def split: prod.split)
  ultimately show ?thesis using completion_drops_soak [of ?s 0] by fastforce
qed




text \<open>
  What a request may ask for is bounded: a wait is between zero and five minutes whatever
  its text, and a listing has at most 200 jobs.
\<close>

theorem request_limits:
  "0 \<le> parse_wait frac v \<and> parse_wait frac v \<le> 5 * minute
   \<and> length (store_list now tgt (job_limit r) st) \<le> 200"
  using parse_wait_range [of frac v] listed_jobs [of now tgt r st] by (simp add: max_wait_def)

text \<open>
  Comparing versions is a total order: of two that parse the result is -1, 0 or 1 as the
  first is below, equal to or above the second in the linear order of versions, and a text
  that does not parse is an error.
\<close>

theorem version_order:
  "compare_versions a b =
     (case (parse_version a, parse_version b) of
        (Some v, Some w) \<Rightarrow> Some (if v < w then - 1 else if v = w then 0 else 1)
      | _ \<Rightarrow> None)"
  by (rule compare_versions_order)

text \<open>
  Parsing a version loses nothing: what is parsed from a text is well formed, and
  printing a well-formed version and parsing it gives it back.
\<close>

theorem version_round_trip:
  "case parse_version s of None \<Rightarrow> True | Some v \<Rightarrow> parse_version (show_version v) = Some v"
  using parse_show [OF parse_well_formed] by (auto split: option.split)

text \<open>
  C32: Checking for updates is safe, whatever GitHub answers and whichever system calls fail:
  after any checks, by any of the processes that share the cache file, every one of them
  reported a newer release only when both versions parse and the release is the greater one,
  and the file is what it was or one whole cache, readable for both sides, whose tag is a
  version.
\<close>

theorem update_checks_safe:
  assumes "cache_path_ok (ch_path ch)"
  shows "case run_checks k ch ccs d of
    (rs, d') \<Rightarrow> list_all (\<lambda>r. honest_status (ck_status r)) rs
      \<and> (cd_files d' (ch_path ch) = cd_files d (ch_path ch) \<or> whole_cache k (cd_files d' (ch_path ch)))"
  using run_checks_sound [OF assms, of k ccs d] by (auto simp: cache_text_def split: prod.split)

theorem update_checks_safe_witness:
  "\<forall>k ccs d. case run_checks k (new_checker bare_host) ccs d of
    (rs, d') \<Rightarrow> list_all (\<lambda>r. honest_status (ck_status r)) rs
      \<and> (cd_files d' default_cache = cd_files d default_cache \<or> whole_cache k (cd_files d' default_cache))"
proof -
  have p: "ch_path (new_checker bare_host) = default_cache" by code_simp
  have "cache_path_ok default_cache" by code_simp
  then show ?thesis using update_checks_safe [of "new_checker bare_host"] p by simp
qed

text \<open>What a check writes to the cache is a cache it would accept when reading.\<close>

theorem update_check_honest:
  "let run = check_update h (read_cache h dec path) (latest fetch dec' repo api) ttl readings current force
   in honest_status (ck_status run) \<and> pred_option good_cache (ck_wrote run)"
proof -
  let ?run = "check_update h (read_cache h dec path) (latest fetch dec' repo api) ttl readings current force"
  have "pred_option good_cache (ck_wrote ?run)"
    using check_update_wrote [of h dec path fetch dec' repo api ttl readings current force]
    by (cases "ck_wrote ?run") simp_all
  then show ?thesis using check_update_honest by (simp only: Let_def)
qed

text \<open>
  After GitHub reported its rate limit no check asks again before the reset, not even a
  forced one.
\<close>

theorem rate_limit_is_respected:
  assumes "ck_wrote (check_update h cached (Inl (ErrRateLimited r)) ttl rs cur force) = Some cf"
    and "n2 < rate_limit_reset (ErrRateLimited r) (snd (snd rs))"
  shows "\<not> ck_asked (check_update h' (Some cf) ans' ttl' (n1, n2, n3) cur' force')"
  using assms by (rule rate_limit_respected)

theorem rate_limit_is_respected_witness:
  "\<exists>cf. \<not> ck_asked (check_update bare_host (Some cf) (Inl ErrNoRelease) default_ttl (6, 6, 6) ''v1.2.3'' True)"
proof -
  have c: "checkable ''v1.2.3+''"
    using metadata_unchecked [of "[]"]
    by (simp add: checkable_def valid_version_def describe_suffix_def trim_space_def Let_def
        utf8_chunks_ascii is_space_def byte_def chr_def is_digit_def)
  have d: "\<not> checks_disabled bare_host" by (simp add: checks_disabled_def getenv_def bare_host_def)
  have "ck_wrote (check_update bare_host None (Inl (ErrRateLimited 9)) default_ttl (0, 0, 0) ''v1.2.3+'' False)
      = Some (zero_cache\<lparr>cf_retry := 9\<rparr>)"
    using c d by (simp add: check_update_def Let_def is_rate_limited_def rate_limit_reset_def zero_time_def)
  from rate_limit_is_respected [OF this, of 6] show ?thesis
    by (intro exI) (simp add: rate_limit_reset_def zero_time_def)
qed

text \<open>
  Build metadata is cut off unread, so any bytes after a plus sign pass as a version: the
  parser that is meant to re-validate a cached tag accepts arbitrary text there.
\<close>

theorem metadata_is_not_validated:
  "parse_version (''v1.2.3+'' @ x) = Some (Semver 1 2 3 [])"
  by (rule metadata_unchecked)

text \<open>
  C33: A log writer whose calls succeed refines a queue of segments: the files on disk hold
  exactly the segments of the queue, each record whole in one of them, and what is kept is
  the newest part of what was written.
\<close>

theorem log_refines_segments:
  assumes "no_faults o1" and "holds w d sg" and "write_all o1 ps (w, d) = (w', d')"
  shows "holds w' d' (fold (seg_write (wr_max w) (wr_keep w)) ps sg)
    \<and> suffix (retained (fold (seg_write (wr_max w) (wr_keep w)) ps sg)) (retained sg @ ps)"
  using write_all_holds [OF assms(1,2), of ps] segs_retained assms(3) by auto

theorem log_refines_segments_witness:
  "\<exists>w d w' d'. write_all all_fine [''a'', ''b''] (w, d) = (w', d') \<and> holds w' d' ([''b''], [[''a'']])"
proof -
  have nf: "no_faults all_fine" by (simp add: no_faults_def all_fine_def)
  obtain w d where o: "wr_max w = 1" "wr_keep w = 2" "holds w d ([], [])"
    using rotate_open_holds [OF nf, of "''/l''" 2 empty_disk 1] by (auto simp: is_abs_def empty_disk_def)
  obtain w' d' where run: "write_all all_fine [''a'', ''b''] (w, d) = (w', d')" by (metis surj_pair)
  from log_refines_segments [OF nf o(3) run] o run show ?thesis
    by (auto simp: seg_write_def)
qed

text \<open>
  Whatever fails, a log writer touches no file but its own: the log, its numbered
  archives and the partial archive beside them.
\<close>

theorem log_files_contained:
  "own_file (wr_path w) (wr_keep w) f
   \<or> ds_files (snd (write_all o1 ps (w, d))) f = ds_files d f"
  using write_all_frame by (metis prod.collapse)

text \<open>
  A rotation that fails after closing the old file closes the writer for good: every
  later write is refused and the disk is left as it is.
\<close>

theorem failed_rotation_closes_log:
  assumes "rotate o1 (w, d) = (False, w', d')" and "ft_ok o1 (ds_ops d)"
  shows "write_all o2 ps (w', d') = (w', d')"
  using closed_forever [OF rotate_fails [OF assms]] .

theorem failed_rotation_closes_log_witness:
  "\<exists>w' d'. write_all all_fine [''a''] (w', d') = (w', d') \<and> wr_path w' = ''/l''"
proof -
  let ?w = "\<lparr>wr_path = ''/l'', wr_max = 1, wr_keep = 0, wr_open = True, wr_n = 1\<rparr>"
  have "rotate only_first (?w, empty_disk) = (False, ?w\<lparr>wr_open := False\<rparr>, empty_disk\<lparr>ds_ops := 2\<rparr>)"
    by (simp add: rotate_def attempt_def only_first_def empty_disk_def reopen_def os_remove_def)
  from failed_rotation_closes_log [OF this, of all_fine "[''a'']"]
  have "write_all all_fine [''a''] (?w\<lparr>wr_open := False\<rparr>, empty_disk\<lparr>ds_ops := 2\<rparr>)
      = (?w\<lparr>wr_open := False\<rparr>, empty_disk\<lparr>ds_ops := 2\<rparr>)"
    by (simp add: only_first_def empty_disk_def)
  then show ?thesis by (intro exI conjI) (assumption, simp)
qed



text \<open>
  C35: Whatever the service does, requests, scheduler rounds, agent reports and goroutines in
  any order, the history file has had every finished job appended to it exactly once, or a
  goroutine is still to append it, and nothing else; once the goroutines are done the appended
  jobs are exactly the finished ones.
\<close>

theorem service_records_every_job:
  assumes "service_reachable w (Some l0) sv"
  shows "\<exists>xs. se_log sv = Some (append_all (wi_faults w) (wi_encode w) xs l0)
    \<and> distinct (map sn_id (xs @ to_record (se_tails sv)))
    \<and> set (xs @ to_record (se_tails sv)) = finished_jobs (se_store sv)
    \<and> (list_ex (\<lambda>as. as \<noteq> []) (se_tails sv) \<or> set xs = finished_jobs (se_store sv))"
proof -
  obtain xs where xs: "se_log sv = Some (append_all (wi_faults w) (wi_encode w) xs l0)"
      "distinct (map sn_id (xs @ to_record (se_tails sv)))"
      "set (xs @ to_record (se_tails sv)) = finished_jobs (se_store sv)"
    using service_reachable_inv [OF assms] by (auto simp: service_inv_def recorded_inv_def)
  have "list_ex (\<lambda>as. as \<noteq> []) (se_tails sv) \<or> set xs = finished_jobs (se_store sv)"
    using quiet_to_record [of "se_tails sv"] xs(3) by (auto simp: list_all_iff list_ex_iff)
  with xs show ?thesis by blast
qed

theorem service_records_every_job_witness:
  "\<forall>(w :: wiring) l. \<exists>(sv :: service) xs. finished_jobs (se_store sv) \<noteq> {} \<and> se_log sv = Some (append_all (wi_faults w) (wi_encode w) xs l)
     \<and> set (xs @ to_record (se_tails sv)) = finished_jobs (se_store sv)"
proof (intro allI)
  fix w :: wiring and l
  obtain sv where sv: "service_reachable w (Some l) sv" "finished_jobs (se_store sv) \<noteq> {}"
    using sample_finished by blast
  from service_records_every_job [OF sv(1)] sv(2)
  show "\<exists>(sv :: service) xs. finished_jobs (se_store sv) \<noteq> {} \<and> se_log sv = Some (append_all (wi_faults w) (wi_encode w) xs l)
     \<and> set (xs @ to_record (se_tails sv)) = finished_jobs (se_store sv)" by blast
qed

text \<open>
  C36: Every finished job of the service is reported to the webhook, truthfully as to target,
  job, outcome and event, unless nobody subscribed to its event or a goroutine is still to
  report it; and nothing is posted for an event that is not subscribed to.
\<close>

theorem service_reports_every_job:
  assumes "service_reachable w l sv"
  shows "list_all (\<lambda>p. subscribed (wi_notifier w) p) (se_posts sv)
    \<and> (\<forall>s k. s \<in> finished_jobs (se_store sv) \<and> wi_notifier w = Some k \<and> wants (nt_cfg k) (event_for (sn_state s))
         \<longrightarrow> s \<in> to_notify (se_tails sv) \<or> (\<exists>p \<in> set (se_posts sv). truthful k s p))"
  using service_reachable_inv [OF assms]
  by (auto simp: service_inv_def reported_inv_def reported_def list_all_iff)

theorem service_reports_every_job_witness:
  "\<forall>(w :: wiring) k. \<exists>(sv :: service) s. s \<in> finished_jobs (se_store sv)
     \<and> (wi_notifier w = Some k \<and> wants (nt_cfg k) (event_for (sn_state s))
        \<longrightarrow> s \<in> to_notify (se_tails sv) \<or> (\<exists>p \<in> set (se_posts sv). truthful k s p))"
proof (intro allI)
  fix w :: wiring and k
  obtain sv s where sv: "service_reachable w None sv" "s \<in> finished_jobs (se_store sv)"
    using sample_finished by blast
  from service_reports_every_job [OF sv(1)] sv(2)
  show "\<exists>(sv :: service) s. s \<in> finished_jobs (se_store sv)
     \<and> (wi_notifier w = Some k \<and> wants (nt_cfg k) (event_for (sn_state s))
        \<longrightarrow> s \<in> to_notify (se_tails sv) \<or> (\<exists>p \<in> set (se_posts sv). truthful k s p))" by blast
qed

text \<open>
  C37: An orderly stop interrupts no update: in every life of the service that ends with its
  drain complete, every job it ever started has its final state, and the history file, when
  there is one, has had every job appended once, except those whose goroutine the end of the
  process cut off before it got to append them.
\<close>

theorem orderly_stop:
  assumes "life_reachable w h l" and "li_phase l = Stopped StopDrained"
  shows "(\<forall>r. pred_option (\<lambda>j. terminal (j_state j)) (s_heap (se_store (li_service l)) r))
    \<and> (case h of
         None \<Rightarrow> True
       | Some l0 \<Rightarrow> \<exists>xs. se_log (li_service l) = Some (append_all (wi_faults w) (wi_encode w) xs l0)
           \<and> distinct (map sn_id (xs @ to_record (se_tails (li_service l))))
           \<and> set (xs @ to_record (se_tails (li_service l))) = finished_jobs (se_store (li_service l)))"
proof -
  note sv = service_reachable_inv [OF life_service [OF assms(1)]]
  have "store_inv (se_store (li_service l))" using sv store_reachable_inv by (simp add: service_inv_def)
  moreover have "s_running (se_store (li_service l)) = []"
    using life_reachable_inv [OF assms(1)] assms(2) by (simp add: life_inv_def)
  ultimately show ?thesis
    using idle_all_over sv by (auto simp: option.pred_set elem_set service_inv_def recorded_inv_def split: option.split)
qed

theorem orderly_stop_witness:
  "\<forall>(w :: wiring) l0. \<exists>(sv :: service) xs. to_record (se_tails sv) \<noteq> []
     \<and> (\<forall>r. pred_option (\<lambda>j. terminal (j_state j)) (s_heap (se_store sv) r))
     \<and> set (xs @ to_record (se_tails sv)) = finished_jobs (se_store sv)"
proof (intro allI)
  fix w :: wiring and l0
  obtain sv where sv: "service_reachable w (Some l0) sv" "s_running (se_store sv) = []" "to_record (se_tails sv) \<noteq> []"
    using sample_unrecorded by blast
  from orderly_stop [OF stop_reachable [OF sv(1,2)]] sv(3)
  show "\<exists>(sv :: service) xs. to_record (se_tails sv) \<noteq> []
     \<and> (\<forall>r. pred_option (\<lambda>j. terminal (j_state j)) (s_heap (se_store sv) r))
     \<and> set (xs @ to_record (se_tails sv)) = finished_jobs (se_store sv)" by auto
qed

text \<open>
  The exception is real: the drain waits for the jobs and not for the goroutines that record
  and report them, so an orderly stop can lose the record of a job that has just finished.
\<close>

theorem stop_can_lose_records:
  "\<exists>l. life_reachable w (Some l0) l \<and> li_phase l = Stopped StopDrained \<and> to_record (se_tails (li_service l)) \<noteq> []"
proof -
  obtain sv where "service_reachable w (Some l0) sv" "s_running (se_store sv) = []" "to_record (se_tails sv) \<noteq> []"
    using sample_unrecorded by blast
  then show ?thesis using stop_reachable by fastforce
qed





text \<open>
  The agent's socket: whatever call fails, nothing but an old socket is removed and no other path
  changes; on success the path is a socket that only its owner and group can use.
\<close>

theorem agent_socket_safe:
  "case agent_listen h w path fs of
     (e, fs') \<Rightarrow>
       (case e of
          None \<Rightarrow> is_abs path \<and> replaceable (fs path)
            \<and> fs' path = Some \<lparr>nd_kind = SocketFile, nd_perm = socket_mode\<rparr> \<and> and socket_mode 7 = 0
        | Some err \<Rightarrow> fs' path = fs path \<or> (replaceable (fs path) \<and> fs' path = None))
       \<and> (\<forall>q. q = path \<or> fs' q = fs q)"
proof -
  obtain e fs' where l: "agent_listen h w path fs = (e, fs')" by fastforce
  from agent_listen_result [OF l] socket_mode_closed show ?thesis unfolding l by (auto split: option.split)
qed

text \<open>
  C40: The commands read flags and arguments in any order: a command line made of the same flags
  in the same order and the same arguments in the same order means the same, however the two
  are mixed, with one dash or two, with a value in the same or in the next word.
\<close>

theorem flags_in_any_order:
  assumes "list_all (item_ok fs) items" and "list_all (item_ok fs) items'"
    and "positionals items = positionals items'" and "settings items = settings items'"
  shows "parse_flags fs (concat (map tokens items)) = parse_flags fs (concat (map tokens items'))"
  using parse_flags_items [OF assms(1)] parse_flags_items [OF assms(2)] assms(3,4) by simp

theorem flags_in_any_order_witness:
  "parse_flags [(''tag'', ValueFlag (\<lambda>v. True)), (''force'', BoolFlag)] [''-tag'', ''v2'', ''web'', ''--force''] =
   parse_flags [(''tag'', ValueFlag (\<lambda>v. True)), (''force'', BoolFlag)] [''--tag=v2'', ''-force'', ''web'']"
  using flags_in_any_order [of "[(''tag'', ValueFlag (\<lambda>v. True)), (''force'', BoolFlag)]"
      "[SetNext False ''tag'' ''v2'', Positional ''web'', SetBool True ''force'']"
      "[SetInline True ''tag'' ''v2'', SetBool False ''force'', Positional ''web'']"]
  by (simp add: flag_name_def dashes_def)

text \<open>
  The service does not start on a plaintext listener that is reachable from other hosts
  unless the configuration says so: without TLS and without the explicit permission the
  address it listens on parses and is a loopback address.
\<close>

theorem plaintext_only_on_loopback:
  "case check_listen h c of
     Some e \<Rightarrow> True
   | None \<Rightarrow> tls_is_enabled (c_tls c) \<or> c_allow_non_loopback c
       \<or> (\<exists>hn port a. split_host_port (c_listen c) = Some (hn, port) \<and> parse_ip h hn = Some a \<and> is_loopback a)"
  by (auto simp: check_listen_def split: option.splits if_splits)

end
